(* ===== verification/Prelude.thy ===== *)
theory Prelude
  imports Main "HOL-Library.Word" "HOL-Library.AList" "HOL-Library.State_Monad"
    "HOL-Library.Char_ord" "HOL-Library.List_Lexorder" "HOL-Library.Sublist"
begin

text \<open>
  Shared vocabulary of the development. It holds the Rust standard-library notions that the
  sources use (strings as byte lists, \<open>HashMap\<close> and \<open>HashSet\<close> with their iteration order,
  \<open>Result\<close> and the early-return loop, machine integers), a relational calculus for programs
  written in the state monad, and the generic lemmas the component theories share.

  A Rust \<open>String\<close> is a list of bytes, so \<open>len()\<close> is \<open>length\<close>. A \<open>HashMap<K,V>\<close> is an
  association list with distinct keys whose order is the iteration order of the map: every
  theorem holds for every such list, hence for every iteration order, and \<open>insert\<close> of a key
  that is present keeps the order, as the hash table does. A \<open>HashSet<T>\<close> is a list without
  duplicates, read the same way.
\<close>

section \<open>Collections of rules\<close>

named_theorems hm_simps \<open>rewriting of hash-map operations\<close>
named_theorems io_intros \<open>introduction rules of the relational program calculus\<close>
named_theorems ok_iff \<open>characterisations of the inputs a validation accepts\<close>

section \<open>Types\<close>

type_synonym u64 = "64 word"
type_synonym u128 = "128 word"
type_synonym i64 = int
type_synonym datetime = int
type_synonym ('k, 'v) hashmap = "('k \<times> 'v) list"
type_synonym 'a hashset = "'a list"

section \<open>Results and loops that stop at the first error\<close>

fun and_then :: "'e + 'a \<Rightarrow> ('a \<Rightarrow> 'e + 'b) \<Rightarrow> 'e + 'b" where
  "and_then (Inl e) f = Inl e"
| "and_then (Inr a) f = f a"

text \<open>\<open>for x in xs { f(x)?; }\<close>\<close>

fun for_each :: "('a \<Rightarrow> 'e + unit) \<Rightarrow> 'a list \<Rightarrow> 'e + unit" where
  "for_each f [] = Inr ()"
| "for_each f (x # xs) = and_then (f x) (\<lambda>_. for_each f xs)"

definition guard_ok :: "bool \<Rightarrow> 'e \<Rightarrow> 'e + unit" where
  "guard_ok ok e = (if ok then Inr () else Inl e)"

lemma and_then_Inr_iff [ok_iff]: "and_then r f = Inr b \<longleftrightarrow> (\<exists>a. r = Inr a \<and> f a = Inr b)"
  by (cases r) auto

lemma and_then_Inl_iff: "and_then r f = Inl e \<longleftrightarrow> r = Inl e \<or> (\<exists>a. r = Inr a \<and> f a = Inl e)"
  by (cases r) auto

lemma guard_ok_Inr_iff [ok_iff]: "guard_ok ok e = Inr u \<longleftrightarrow> ok"
  by (simp add: guard_ok_def)

lemma guard_ok_Inl_iff: "guard_ok ok e = Inl e' \<longleftrightarrow> \<not> ok \<and> e' = e"
  by (auto simp: guard_ok_def)

lemma for_each_Inr_iff [ok_iff]: "for_each f xs = Inr u \<longleftrightarrow> (\<forall>x\<in>set xs. f x = Inr ())"
  by (induction xs) (auto simp: and_then_Inr_iff)

lemma for_each_Inl_iff:
  "for_each f xs = Inl e \<longleftrightarrow>
    (\<exists>ys x zs. xs = ys @ x # zs \<and> (\<forall>y\<in>set ys. f y = Inr ()) \<and> f x = Inl e)"
proof (induction xs)
  case Nil
  then show ?case by simp
next
  case (Cons a xs)
  show ?case
  proof (cases "f a")
    case (Inl e')
    show ?thesis
    proof
      assume "for_each f (a # xs) = Inl e"
      with Inl have "a # xs = [] @ a # xs" "f a = Inl e" by auto
      then show "\<exists>ys x zs. a # xs = ys @ x # zs \<and> (\<forall>y\<in>set ys. f y = Inr ()) \<and> f x = Inl e"
        by force
    next
      assume "\<exists>ys x zs. a # xs = ys @ x # zs \<and> (\<forall>y\<in>set ys. f y = Inr ()) \<and> f x = Inl e"
      with Inl show "for_each f (a # xs) = Inl e"
        by (auto simp: Cons_eq_append_conv)
    qed
  next
    case (Inr u)
    show ?thesis
    proof
      assume "for_each f (a # xs) = Inl e"
      with Inr Cons.IH obtain ys x zs
        where "xs = ys @ x # zs" "\<forall>y\<in>set ys. f y = Inr ()" "f x = Inl e" by auto
      with Inr have "a # xs = (a # ys) @ x # zs" "\<forall>y\<in>set (a # ys). f y = Inr ()" by auto
      with \<open>f x = Inl e\<close>
      show "\<exists>ys x zs. a # xs = ys @ x # zs \<and> (\<forall>y\<in>set ys. f y = Inr ()) \<and> f x = Inl e" by blast
    next
      assume "\<exists>ys x zs. a # xs = ys @ x # zs \<and> (\<forall>y\<in>set ys. f y = Inr ()) \<and> f x = Inl e"
      then obtain ys x zs where split: "a # xs = ys @ x # zs"
        and ok: "\<forall>y\<in>set ys. f y = Inr ()" and err: "f x = Inl e" by blast
      from split err Inr obtain ys' where "ys = a # ys'" "xs = ys' @ x # zs"
        by (cases ys) auto
      with ok err Cons.IH have "for_each f xs = Inl e" by auto
      with Inr show "for_each f (a # xs) = Inl e" by simp
    qed
  qed
qed

lemma for_each_InlD: "for_each f xs = Inl e \<Longrightarrow> \<exists>x\<in>set xs. f x = Inl e"
  by (induction xs) (auto simp: and_then_Inl_iff)

section \<open>Strings\<close>

text \<open>Predicates of \<open>u8\<close> and \<open>char\<close>.\<close>

definition is_ascii_digit :: "char \<Rightarrow> bool" where
  "is_ascii_digit c \<longleftrightarrow> CHR ''0'' \<le> c \<and> c \<le> CHR ''9''"

definition is_ascii_lowercase :: "char \<Rightarrow> bool" where
  "is_ascii_lowercase c \<longleftrightarrow> CHR ''a'' \<le> c \<and> c \<le> CHR ''z''"

definition is_ascii_uppercase :: "char \<Rightarrow> bool" where
  "is_ascii_uppercase c \<longleftrightarrow> CHR ''A'' \<le> c \<and> c \<le> CHR ''Z''"

definition is_ascii_alphabetic :: "char \<Rightarrow> bool" where
  "is_ascii_alphabetic c \<longleftrightarrow> is_ascii_lowercase c \<or> is_ascii_uppercase c"

definition is_ascii_alphanumeric :: "char \<Rightarrow> bool" where
  "is_ascii_alphanumeric c \<longleftrightarrow> is_ascii_alphabetic c \<or> is_ascii_digit c"

definition starts_with :: "string \<Rightarrow> string \<Rightarrow> bool" where
  "starts_with s p \<longleftrightarrow> take (length p) s = p"

definition ends_with :: "string \<Rightarrow> string \<Rightarrow> bool" where
  "ends_with s p \<longleftrightarrow> length p \<le> length s \<and> drop (length s - length p) s = p"

definition strip_prefix :: "string \<Rightarrow> string \<Rightarrow> string option" where
  "strip_prefix s p = (if starts_with s p then Some (drop (length p) s) else None)"

fun contains_str :: "string \<Rightarrow> string \<Rightarrow> bool" where
  "contains_str [] p \<longleftrightarrow> p = []"
| "contains_str (c # s) p \<longleftrightarrow> starts_with (c # s) p \<or> contains_str s p"

text \<open>The argument between single quotes, as the error messages print it.\<close>

definition quoted :: "string \<Rightarrow> string" where
  "quoted s = CHR 0x27 # s @ [CHR 0x27]"

text \<open>\<open>s.split(c)\<close>: the segments between the separators, the empty ones included.\<close>

fun split_on :: "char \<Rightarrow> string \<Rightarrow> string list" where
  "split_on sep [] = [[]]"
| "split_on sep (c # s) =
    (if c = sep then [] # split_on sep s
     else (case split_on sep s of [] \<Rightarrow> [[c]] | seg # segs \<Rightarrow> (c # seg) # segs))"

lemma starts_with_prefix: "starts_with s p \<longleftrightarrow> prefix p s"
  unfolding starts_with_def
  by (metis append_eq_conv_conj append_take_drop_id prefix_def)

lemma starts_with_iff: "starts_with s p \<longleftrightarrow> (\<exists>t. s = p @ t)"
  by (simp add: starts_with_prefix prefix_def)

lemma strip_prefix_Some_iff: "strip_prefix s p = Some t \<longleftrightarrow> s = p @ t"
  by (auto simp: strip_prefix_def starts_with_iff)

lemma strip_prefix_append [simp]: "strip_prefix (p @ t) p = Some t"
  by (simp add: strip_prefix_Some_iff)

lemma contains_str_iff: "contains_str s p \<longleftrightarrow> (\<exists>a b. s = a @ p @ b)"
proof (induction s)
  case Nil
  then show ?case by auto
next
  case (Cons c s)
  show ?case
  proof
    assume "contains_str (c # s) p"
    then show "\<exists>a b. c # s = a @ p @ b"
    proof (cases "starts_with (c # s) p")
      case True
      then obtain t where "c # s = [] @ p @ t" by (auto simp: starts_with_iff)
      then show ?thesis by blast
    next
      case False
      with \<open>contains_str (c # s) p\<close> Cons.IH obtain a b where "s = a @ p @ b" by auto
      then have "c # s = (c # a) @ p @ b" by simp
      then show ?thesis by blast
    qed
  next
    assume "\<exists>a b. c # s = a @ p @ b"
    then obtain a b where ab: "c # s = a @ p @ b" by blast
    then show "contains_str (c # s) p"
    proof (cases a)
      case Nil
      with ab have "starts_with (c # s) p" by (auto simp: starts_with_iff)
      then show ?thesis by simp
    next
      case (Cons d a')
      with ab Cons.IH show ?thesis by auto
    qed
  qed
qed

lemma split_on_not_Nil [simp]: "split_on sep s \<noteq> []"
  by (induction s) (auto split: list.splits)

lemma split_on_no_sep: "sep \<notin> set s \<Longrightarrow> split_on sep s = [s]"
  by (induction s) auto

lemma split_on_append:
  "sep \<notin> set a \<Longrightarrow> split_on sep (a @ sep # b) = a # split_on sep b"
  by (induction a) auto

lemma split_on_append_sep: "split_on sep (a @ sep # b) = split_on sep a @ split_on sep b"
  by (induction a) (auto split: list.splits)

fun join_on :: "char \<Rightarrow> string list \<Rightarrow> string" where
  "join_on sep [] = []"
| "join_on sep [x] = x"
| "join_on sep (x # xs) = x @ sep # join_on sep xs"

lemma join_on_Cons: "xs \<noteq> [] \<Longrightarrow> join_on sep (x # xs) = x @ sep # join_on sep xs"
  by (cases xs) auto

lemma join_on_append:
  "xs \<noteq> [] \<Longrightarrow> ys \<noteq> [] \<Longrightarrow> join_on sep (xs @ ys) = join_on sep xs @ sep # join_on sep ys"
proof (induction xs)
  case Nil
  then show ?case by simp
next
  case (Cons x xs)
  then show ?case by (cases xs) (simp_all add: join_on_Cons)
qed

lemma join_split: "join_on sep (split_on sep s) = s"
proof (induction s)
  case Nil
  then show ?case by simp
next
  case (Cons c s)
  obtain seg segs where "split_on sep s = seg # segs"
    using split_on_not_Nil[of sep s] by (cases "split_on sep s") auto
  with Cons show ?case by (cases segs) auto
qed

lemma prefix_split_iff: "prefix (split_on sep r) (split_on sep c) \<longleftrightarrow> c = r \<or> (\<exists>t. c = r @ sep # t)"
proof
  assume "prefix (split_on sep r) (split_on sep c)"
  then obtain rest where "split_on sep c = split_on sep r @ rest" by (auto simp: prefix_def)
  then have "c = join_on sep (split_on sep r @ rest)" by (metis join_split)
  then show "c = r \<or> (\<exists>t. c = r @ sep # t)"
    by (cases "rest = []") (auto simp: join_split join_on_append)
next
  assume "c = r \<or> (\<exists>t. c = r @ sep # t)"
  then show "prefix (split_on sep r) (split_on sep c)"
    by (auto simp: split_on_append_sep)
qed

text \<open>Decimal printing of integers, as \<open>format!\<close> does.\<close>

definition show_digit :: "nat \<Rightarrow> char" where
  "show_digit d = char_of (48 + d)"

fun show_nat :: "nat \<Rightarrow> string" where
  "show_nat n = (if n < 10 then [show_digit n] else show_nat (n div 10) @ [show_digit (n mod 10)])"

declare show_nat.simps [simp del]

definition show_int :: "int \<Rightarrow> string" where
  "show_int i = (if i < 0 then CHR ''-'' # show_nat (nat (- i)) else show_nat (nat i))"

section \<open>Hash maps and sets\<close>

definition hm_get :: "('k, 'v) hashmap \<Rightarrow> 'k \<Rightarrow> 'v option" where
  "hm_get m k = map_of m k"

definition hm_insert :: "'k \<Rightarrow> 'v \<Rightarrow> ('k, 'v) hashmap \<Rightarrow> ('k, 'v) hashmap" where
  "hm_insert k v m = AList.update k v m"

definition hm_remove :: "'k \<Rightarrow> ('k, 'v) hashmap \<Rightarrow> ('k, 'v) hashmap" where
  "hm_remove k m = AList.delete k m"

definition hm_keys :: "('k, 'v) hashmap \<Rightarrow> 'k list" where
  "hm_keys m = map fst m"

definition hm_values :: "('k, 'v) hashmap \<Rightarrow> 'v list" where
  "hm_values m = map snd m"

definition hm_contains_key :: "('k, 'v) hashmap \<Rightarrow> 'k \<Rightarrow> bool" where
  "hm_contains_key m k \<longleftrightarrow> k \<in> set (hm_keys m)"

text \<open>\<open>iter.collect::<HashMap<_,_>>()\<close> and \<open>map.extend(iter)\<close>: later entries win.\<close>

definition hm_extend :: "('k, 'v) hashmap \<Rightarrow> ('k \<times> 'v) list \<Rightarrow> ('k, 'v) hashmap" where
  "hm_extend m xs = fold (\<lambda>(k, v) m. hm_insert k v m) xs m"

definition hm_collect :: "('k \<times> 'v) list \<Rightarrow> ('k, 'v) hashmap" where
  "hm_collect xs = hm_extend [] xs"

text \<open>A hash map is well formed when no key occurs twice.\<close>

definition hm_wf :: "('k, 'v) hashmap \<Rightarrow> bool" where
  "hm_wf m \<longleftrightarrow> distinct (map fst m)"

lemma hm_get_insert [hm_simps, simp]:
  "hm_get (hm_insert k v m) k' = (if k' = k then Some v else hm_get m k')"
  by (simp add: hm_get_def hm_insert_def update_conv')

lemma hm_get_remove [hm_simps, simp]:
  "hm_get (hm_remove k m) k' = (if k' = k then None else hm_get m k')"
  by (simp add: hm_get_def hm_remove_def delete_conv')

lemma hm_get_Nil [hm_simps, simp]: "hm_get [] k = None"
  by (simp add: hm_get_def)

lemma hm_get_Cons [hm_simps]: "hm_get ((k, v) # m) k' = (if k = k' then Some v else hm_get m k')"
  by (simp add: hm_get_def)

lemma hm_contains_key_get [hm_simps]: "hm_contains_key m k \<longleftrightarrow> hm_get m k \<noteq> None"
  by (auto simp: hm_contains_key_def hm_keys_def hm_get_def map_of_eq_None_iff)

lemma hm_keys_get: "k \<in> set (hm_keys m) \<longleftrightarrow> hm_get m k \<noteq> None"
  using hm_contains_key_get[of m k] by (simp add: hm_contains_key_def)

lemma hm_wf_Nil [simp]: "hm_wf []"
  by (simp add: hm_wf_def)

lemma hm_wf_insert [simp]: "hm_wf m \<Longrightarrow> hm_wf (hm_insert k v m)"
  by (simp add: hm_wf_def hm_insert_def distinct_update)

lemma hm_wf_remove [simp]: "hm_wf m \<Longrightarrow> hm_wf (hm_remove k m)"
  by (simp add: hm_wf_def hm_remove_def distinct_delete)

lemma hm_keys_insert_present: "hm_get m k \<noteq> None \<Longrightarrow> hm_keys (hm_insert k v m) = hm_keys m"
  by (induction m) (auto simp: hm_get_def hm_keys_def hm_insert_def)

lemma hm_get_in_set: "hm_wf m \<Longrightarrow> hm_get m k = Some v \<longleftrightarrow> (k, v) \<in> set m"
  by (simp add: hm_wf_def hm_get_def)

lemma hm_get_SomeD: "hm_get m k = Some v \<Longrightarrow> (k, v) \<in> set m"
  by (simp add: hm_get_def map_of_SomeD)

lemma hm_values_all:
  "hm_wf m \<Longrightarrow> (\<forall>v\<in>set (hm_values m). P v) \<longleftrightarrow> (\<forall>k v. hm_get m k = Some v \<longrightarrow> P v)"
  by (force simp: hm_values_def hm_get_in_set)

lemma hm_extend_Nil [simp]: "hm_extend m [] = m"
  by (simp add: hm_extend_def)

lemma hm_extend_Cons: "hm_extend m ((k, v) # xs) = hm_extend (hm_insert k v m) xs"
  by (simp add: hm_extend_def)

lemma hm_wf_extend [simp]: "hm_wf m \<Longrightarrow> hm_wf (hm_extend m xs)"
  by (induction xs arbitrary: m) (auto simp: hm_extend_Cons)

lemma hm_wf_collect [simp]: "hm_wf (hm_collect xs)"
  by (simp add: hm_collect_def)

lemma hm_get_extend [hm_simps]:
  "hm_get (hm_extend m xs) k = (case map_of (rev xs) k of None \<Rightarrow> hm_get m k | Some v \<Rightarrow> Some v)"
proof (induction xs arbitrary: m)
  case Nil
  then show ?case by simp
next
  case (Cons x xs)
  obtain a b where [simp]: "x = (a, b)" by force
  show ?case
    by (simp add: hm_extend_Cons Cons.IH map_add_def split: option.splits)
qed

lemma hm_get_collect [hm_simps]: "hm_get (hm_collect xs) k = map_of (rev xs) k"
  by (simp add: hm_collect_def hm_get_extend split: option.splits)

lemma map_of_rev_distinct: "distinct (map fst xs) \<Longrightarrow> map_of (rev xs) = map_of xs"
proof (induction xs)
  case Nil
  then show ?case by simp
next
  case (Cons x xs)
  obtain a b where x: "x = (a, b)" by force
  with Cons.prems have "map_of xs a = None" by (simp add: map_of_eq_None_iff)
  with Cons x show ?case
    by (auto simp: fun_eq_iff map_add_def split: option.splits)
qed

lemma hm_get_extend_wf:
  "hm_wf n \<Longrightarrow> hm_get (hm_extend m n) k = (case hm_get n k of None \<Rightarrow> hm_get m k | Some v \<Rightarrow> Some v)"
  using hm_get_extend[of m n k] by (simp add: hm_wf_def hm_get_def map_of_rev_distinct)

lemma map_of_rev_map_const:
  "map_of (rev (map (\<lambda>x. (f x, c)) xs)) k = (if k \<in> f ` set xs then Some c else None)"
  by (induction xs) (auto simp: map_add_def split: option.splits)

lemma map_of_rev_map_fun:
  "map_of (rev (map (\<lambda>k. (k, f k)) ks)) k = (if k \<in> set ks then Some (f k) else None)"
  by (induction ks) (auto simp: map_add_def split: option.splits)

section \<open>Sorted sets and maps\<close>

text \<open>\<open>BTreeSet\<close> inserts keep a sorted list without duplicates; \<open>BTreeMap\<close> likewise by key.\<close>

definition bset_extend :: "('a::linorder) list \<Rightarrow> 'a list \<Rightarrow> 'a list" where
  "bset_extend s xs = fold insort_insert xs s"

fun bmap_insert :: "'k::linorder \<Rightarrow> 'v \<Rightarrow> ('k \<times> 'v) list \<Rightarrow> ('k \<times> 'v) list" where
  "bmap_insert k v [] = [(k, v)]"
| "bmap_insert k v ((k', v') # m) =
    (if k < k' then (k, v) # (k', v') # m
     else if k = k' then (k, v) # m
     else (k', v') # bmap_insert k v m)"

definition bmap_extend :: "('k::linorder \<times> 'v) list \<Rightarrow> ('k \<times> 'v) list \<Rightarrow> ('k \<times> 'v) list" where
  "bmap_extend m xs = fold (\<lambda>(k, v). bmap_insert k v) xs m"

lemma set_insort_insert_eq: "set (insort_insert x xs) = insert x (set xs)"
  by (auto simp: insort_insert_key_def set_insort_key)

lemma bset_extend_set: "set (bset_extend s xs) = set s \<union> set xs"
  unfolding bset_extend_def
  by (induction xs arbitrary: s) (auto simp: set_insort_insert_eq)

lemma bset_extend_sorted: "sorted s \<Longrightarrow> sorted (bset_extend s xs)"
  unfolding bset_extend_def
  by (induction xs arbitrary: s) (auto simp: sorted_insort_insert)

lemma bset_extend_distinct: "distinct s \<Longrightarrow> distinct (bset_extend s xs)"
  unfolding bset_extend_def
  by (induction xs arbitrary: s) (auto simp: distinct_insort_insert)

lemma bmap_insert_keys: "fst ` set (bmap_insert k v m) = insert k (fst ` set m)"
  by (induction m) (force simp: image_iff)+

lemma bmap_insert_sorted:
  "sorted_wrt (<) (map fst m) \<Longrightarrow> sorted_wrt (<) (map fst (bmap_insert k v m))"
proof (induction m)
  case Nil
  then show ?case by simp
next
  case (Cons p m)
  have "fst ` set (bmap_insert k v m) = insert k (fst ` set m)" by (rule bmap_insert_keys)
  with Cons show ?case by (cases p) (auto simp: image_iff)
qed

lemma bmap_insert_map_of:
  "map_of (bmap_insert k v m) = (map_of m)(k \<mapsto> v)"
  if "sorted_wrt (<) (map fst m)"
  using that
proof (induction m)
  case Nil
  then show ?case by simp
next
  case (Cons p m)
  obtain a b where p: "p = (a, b)" by force
  show ?case
  proof (cases "k < a")
    case True
    with Cons.prems p have "map_of m k = None"
      by (force simp: map_of_eq_None_iff)
    with True p show ?thesis by auto
  next
    case False
    with Cons p show ?thesis by (auto simp: fun_eq_iff)
  qed
qed

lemma bmap_extend_sorted:
  "sorted_wrt (<) (map fst m) \<Longrightarrow> sorted_wrt (<) (map fst (bmap_extend m xs))"
  unfolding bmap_extend_def
  by (induction xs arbitrary: m) (auto simp: bmap_insert_sorted)

lemma bmap_extend_map_of:
  "sorted_wrt (<) (map fst m) \<Longrightarrow> map_of (bmap_extend m xs) = map_of m ++ map_of (rev xs)"
  unfolding bmap_extend_def
proof (induction xs arbitrary: m)
  case Nil
  then show ?case by simp
next
  case (Cons x xs)
  then show ?case
    by (cases x) (auto simp: bmap_insert_sorted bmap_insert_map_of map_add_def fun_eq_iff
        split: option.splits)
qed

section \<open>Machine integers\<close>

definition saturating_add_u64 :: "u64 \<Rightarrow> u64 \<Rightarrow> u64" where
  "saturating_add_u64 a b = (if unat a + unat b < 2 ^ 64 then a + b else - 1)"

definition saturating_sub_u64 :: "u64 \<Rightarrow> u64 \<Rightarrow> u64" where
  "saturating_sub_u64 a b = (if b \<le> a then a - b else 0)"

lemma unat_saturating_add_u64: "unat (saturating_add_u64 a b) = min (unat a + unat b) (2 ^ 64 - 1)"
proof (cases "unat a + unat b < 2 ^ 64")
  case True
  then show ?thesis
    by (simp add: saturating_add_u64_def unat_word_ariths)
next
  case False
  have "unat (- 1 :: u64) = 2 ^ 64 - 1"
    by (simp add: unsigned_minus_1_eq_mask mask_eq_exp_minus_1)
  with False show ?thesis by (simp add: saturating_add_u64_def)
qed

lemma unat_saturating_sub_u64: "unat (saturating_sub_u64 a b) = unat a - unat b"
  by (auto simp: saturating_sub_u64_def unat_sub_if' word_le_nat_alt)

section \<open>Programs in the state monad\<close>

text \<open>
  \<open>state_io_rel R m\<close> says that every run of \<open>m\<close> relates its initial and final states by \<open>R\<close>.
  For a preorder the rules below follow the program text: one rule per construct.
\<close>

definition io_pre :: "('s \<Rightarrow> 's \<Rightarrow> bool) \<Rightarrow> bool" where
  "io_pre R \<longleftrightarrow> (\<forall>s. R s s) \<and> (\<forall>s t u. R s t \<longrightarrow> R t u \<longrightarrow> R s u)"

text \<open>\<open>for x in xs { f(x) }\<close>, and the loop that returns at the first \<open>true\<close>.\<close>

fun for_M :: "('a \<Rightarrow> ('s, unit) state) \<Rightarrow> 'a list \<Rightarrow> ('s, unit) state" where
  "for_M f [] = State_Monad.return ()"
| "for_M f (x # xs) = do { f x; for_M f xs }"

fun until_M :: "('a \<Rightarrow> ('s, bool) state) \<Rightarrow> 'a list \<Rightarrow> ('s, bool) state" where
  "until_M f [] = State_Monad.return False"
| "until_M f (x # xs) = do { stop \<leftarrow> f x; if stop then State_Monad.return True else until_M f xs }"

text \<open>\<open>let a = m?; f(a)\<close> in a function that returns a \<open>Result\<close>.\<close>

definition bind_ok :: "('s, 'e + 'a) state \<Rightarrow> ('a \<Rightarrow> ('s, 'e + 'b) state) \<Rightarrow> ('s, 'e + 'b) state" where
  "bind_ok m f = do { r \<leftarrow> m; (case r of Inl e \<Rightarrow> State_Monad.return (Inl e) | Inr a \<Rightarrow> f a) }"

text \<open>A program on a part of the state, run on the whole state.\<close>

definition zoom :: "('w \<Rightarrow> 's) \<Rightarrow> ('s \<Rightarrow> 'w \<Rightarrow> 'w) \<Rightarrow> ('s, 'a) state \<Rightarrow> ('w, 'a) state" where
  "zoom get_part put_part m =
    State (\<lambda>w. case run_state m (get_part w) of (a, s) \<Rightarrow> (a, put_part s w))"

lemma run_bind_ok [simp]:
  "run_state (bind_ok m f) s =
    (case run_state m s of (Inl e, t) \<Rightarrow> (Inl e, t) | (Inr a, t) \<Rightarrow> run_state (f a) t)"
  by (auto simp: bind_ok_def split: prod.splits sum.splits)

lemma run_then_return:
  "State_Monad.run_state (do { r \<leftarrow> m; State_Monad.return (f r) }) w = (y, w') \<longleftrightarrow>
    (\<exists>q. State_Monad.run_state m w = (q, w') \<and> y = f q)"
  by (auto split: prod.splits)

lemma run_zoom [simp]:
  "run_state (zoom g p m) w = (case run_state m (g w) of (a, s) \<Rightarrow> (a, p s w))"
  by (simp add: zoom_def)

lemma io_return [io_intros]: "io_pre R \<Longrightarrow> state_io_rel R (State_Monad.return x)"
  by (auto simp: state_io_rel_def io_pre_def)

lemma io_get [io_intros]: "io_pre R \<Longrightarrow> state_io_rel R State_Monad.get"
  by (auto simp: state_io_rel_def io_pre_def)

lemma io_bind [io_intros]:
  assumes "io_pre R" "state_io_rel R m" "\<And>a. state_io_rel R (f a)"
  shows "state_io_rel R (m \<bind> f)"
  unfolding state_io_rel_def
proof
  fix s
  obtain a t where m: "run_state m s = (a, t)" by force
  with assms(2) have "R s t" by (metis state_io_rel_def snd_conv)
  moreover from assms(3)[of a] have "R t (snd (run_state (f a) t))"
    by (simp add: state_io_rel_def)
  ultimately show "R s (snd (run_state (m \<bind> f) s))"
    using assms(1) m by (auto simp: io_pre_def)
qed

lemma io_if [io_intros]:
  "\<lbrakk> b \<Longrightarrow> state_io_rel R m; \<not> b \<Longrightarrow> state_io_rel R n \<rbrakk> \<Longrightarrow> state_io_rel R (if b then m else n)"
  by simp

lemma io_case_option [io_intros]:
  "\<lbrakk> x = None \<Longrightarrow> state_io_rel R m; \<And>a. x = Some a \<Longrightarrow> state_io_rel R (f a) \<rbrakk>
    \<Longrightarrow> state_io_rel R (case x of None \<Rightarrow> m | Some a \<Rightarrow> f a)"
  by (cases x) auto

lemma io_case_sum [io_intros]:
  "\<lbrakk> \<And>e. x = Inl e \<Longrightarrow> state_io_rel R (f e); \<And>a. x = Inr a \<Longrightarrow> state_io_rel R (g a) \<rbrakk>
    \<Longrightarrow> state_io_rel R (case x of Inl e \<Rightarrow> f e | Inr a \<Rightarrow> g a)"
  by (cases x) auto

lemma io_case_prod [io_intros]:
  "(\<And>a b. x = (a, b) \<Longrightarrow> state_io_rel R (f a b)) \<Longrightarrow> state_io_rel R (case x of (a, b) \<Rightarrow> f a b)"
  by (cases x) auto

lemma io_for_M [io_intros]:
  "\<lbrakk> io_pre R; \<And>x. x \<in> set xs \<Longrightarrow> state_io_rel R (f x) \<rbrakk> \<Longrightarrow> state_io_rel R (for_M f xs)"
  by (induction xs) (auto intro: io_intros)

lemma io_until_M [io_intros]:
  "\<lbrakk> io_pre R; \<And>x. x \<in> set xs \<Longrightarrow> state_io_rel R (f x) \<rbrakk> \<Longrightarrow> state_io_rel R (until_M f xs)"
  by (induction xs) (auto intro!: io_intros)

lemma io_run: "state_io_rel R m \<Longrightarrow> R s (snd (run_state m s))"
  by (simp add: state_io_rel_def)

lemma io_run_eq: "state_io_rel R m \<Longrightarrow> run_state m s = (a, t) \<Longrightarrow> R s t"
  using io_run[of R m s] by simp

section \<open>Triples\<close>

text \<open>
  \<open>hoare P m Q\<close>: from a state with \<open>P\<close>, the result and the final state of \<open>m\<close> satisfy \<open>Q\<close>. Programs
  are total functions, so this is total correctness.
\<close>

definition hoare :: "('s \<Rightarrow> bool) \<Rightarrow> ('s, 'a) state \<Rightarrow> ('a \<Rightarrow> 's \<Rightarrow> bool) \<Rightarrow> bool" where
  "hoare P m Q \<longleftrightarrow> (\<forall>s. P s \<longrightarrow> (case run_state m s of (a, t) \<Rightarrow> Q a t))"

lemma hoareD: "hoare P m Q \<Longrightarrow> P s \<Longrightarrow> run_state m s = (a, t) \<Longrightarrow> Q a t"
  by (auto simp: hoare_def)

lemma hoare_conseq: "hoare P m Q \<Longrightarrow> (\<And>s. P' s \<Longrightarrow> P s) \<Longrightarrow> (\<And>a s. Q a s \<Longrightarrow> Q' a s) \<Longrightarrow> hoare P' m Q'"
  by (fastforce simp: hoare_def)

lemma hoare_post: "hoare P m Q \<Longrightarrow> (\<And>a s. Q a s \<Longrightarrow> Q' a s) \<Longrightarrow> hoare P m Q'"
  by (rule hoare_conseq)

lemma hoare_pre: "hoare P m Q \<Longrightarrow> (\<And>s. P' s \<Longrightarrow> P s) \<Longrightarrow> hoare P' m Q"
  by (rule hoare_conseq)

lemma hoare_return: "(\<And>s. P s \<Longrightarrow> Q x s) \<Longrightarrow> hoare P (State_Monad.return x) Q"
  by (simp add: hoare_def)

lemma hoare_bind: "hoare P m R \<Longrightarrow> (\<And>a. hoare (R a) (f a) Q) \<Longrightarrow> hoare P (m \<bind> f) Q"
  by (fastforce simp: hoare_def split: prod.splits)

lemma hoare_if: "(b \<Longrightarrow> hoare P m Q) \<Longrightarrow> (\<not> b \<Longrightarrow> hoare P n Q) \<Longrightarrow> hoare P (if b then m else n) Q"
  by simp

lemma hoare_case_option:
  "(x = None \<Longrightarrow> hoare P m Q) \<Longrightarrow> (\<And>a. x = Some a \<Longrightarrow> hoare P (f a) Q) \<Longrightarrow>
    hoare P (case x of None \<Rightarrow> m | Some a \<Rightarrow> f a) Q"
  by (cases x) auto

lemma hoare_case_sum:
  "(\<And>e. x = Inl e \<Longrightarrow> hoare P (f e) Q) \<Longrightarrow> (\<And>a. x = Inr a \<Longrightarrow> hoare P (g a) Q) \<Longrightarrow>
    hoare P (case x of Inl e \<Rightarrow> f e | Inr a \<Rightarrow> g a) Q"
  by (cases x) auto

lemma hoare_lift: "(\<And>s. P s \<Longrightarrow> b) \<Longrightarrow> (b \<Longrightarrow> hoare P m Q) \<Longrightarrow> hoare P m Q"
  by (auto simp: hoare_def)

lemma hoare_for_M: "(\<And>x. x \<in> set xs \<Longrightarrow> hoare I (f x) (\<lambda>_. I)) \<Longrightarrow> hoare I (for_M f xs) (\<lambda>_. I)"
proof (induction xs)
  case (Cons x xs)
  from Cons.prems[of x] Cons.IH Cons.prems show ?case
    by (auto intro: hoare_bind)
qed (simp add: hoare_return)

lemma hoare_until_M:
  assumes "\<And>x. x \<in> set xs \<Longrightarrow> hoare I (f x) (\<lambda>stop s. if stop then J s else I s)"
  shows "hoare I (until_M f xs) (\<lambda>stop s. if stop then J s else I s)"
  using assms
proof (induction xs)
  case (Cons x xs)
  have rest: "hoare I (until_M f xs) (\<lambda>stop s. if stop then J s else I s)" using Cons by simp
  show ?case unfolding until_M.simps
    by (rule hoare_bind[OF Cons.prems], simp, rule hoare_if)
      (rule hoare_return, simp, rule hoare_pre[OF rest], simp)
qed (simp add: hoare_return)

lemma hoare_io: "state_io_rel R m \<Longrightarrow> (\<And>s t. P s \<Longrightarrow> R s t \<Longrightarrow> Q t) \<Longrightarrow> hoare P m (\<lambda>_. Q)"
  by (auto simp: hoare_def split: prod.splits dest: io_run_eq)

end
