(* ===== verification/Pipelines.thy ===== *)
theory Pipelines
  imports Prelude
begin

text \<open>
  The pipeline definition language: \<open>pipelines/src/pipeline.rs\<close>. The data types are the
  structs and enums of the file, the operations its functions in their order: decoding of the
  trigger filters, the five validations that \<open>from_yaml\<close> runs, the merge of pipeline-level and
  node-level environment and secrets, trigger matching, and the scanners for Kubernetes
  quantities, DNS labels and environment variable names. The YAML reader itself
  (\<open>serde_saphyr\<close>) is a parameter of \<open>from_yaml\<close>.

  The lemmas characterise what each validation accepts, relate the quantity scanner to a
  grammar, and give the contents of the merged node descriptions.
\<close>

section \<open>Data\<close>

datatype pipeline_error =
    YamlParseError string
  | UnknownDependency string string
  | SelfDependency string
  | EmptySteps string
  | InvalidQuantity string string string
  | InvalidVolume string string string
  | InvalidSecret string string string

record refs =
  branches :: "string list option"
  tags :: "string list option"

record pipeline_triggers =
  push_trigger :: "refs option"
  pull_request_trigger :: "refs option"
  schedule :: "string option"

record named_step =
  step_name :: string
  step_run :: string

datatype pipeline_step = Inline string | Named named_step

datatype file_secret = DefaultFile string | CustomFile string string

record secrets =
  secrets_env :: "string list"
  secrets_files :: "file_secret list"

record pipeline_node =
  pn_name :: string
  pn_image :: "string option"
  pn_timeout_secs :: "u64 option"
  pn_startup_timeout_secs :: "u64 option"
  pn_checkout :: "bool option"
  pn_after :: "string list"
  pn_env :: "(string, string) hashmap"
  pn_secrets :: secrets
  pn_steps :: "pipeline_step list"
  pn_privileged :: bool
  pn_cache_size :: "string option"
  pn_cpu :: "string option"
  pn_memory :: "string option"
  pn_volumes :: "(string, string) hashmap"

record pipeline =
  pl_name :: string
  pl_timeout_secs :: "u64 option"
  pl_fail_fast :: "bool option"
  pl_on :: "pipeline_triggers option"
  pl_env :: "(string, string) hashmap"
  pl_secrets :: secrets
  pl_nodes :: "pipeline_node list"

record file_secret_spec =
  fs_name :: string
  fs_path :: "string option"

record node_info =
  ni_name :: string
  ni_image :: string
  ni_steps :: "string list"
  ni_dependencies :: "string list"
  ni_timeout_secs :: "u64 option"
  ni_startup_timeout_secs :: "u64 option"
  ni_checkout :: bool
  ni_env :: "(string, string) hashmap"
  ni_env_secrets :: "string list"
  ni_file_secrets :: "file_secret_spec list"
  ni_privileged :: bool
  ni_cache_size :: "string option"
  ni_cpu :: "string option"
  ni_memory :: "string option"
  ni_volumes :: "(string, string) hashmap"

section \<open>Decoding of the trigger filters\<close>

text \<open>
  A mapping field in the YAML document is absent, present with a null value, or present with
  a value. The serde attributes \<open>default\<close> and \<open>deserialize_with\<close> call the decoder only for a
  field that is present.
\<close>

datatype 'a yaml_field = Absent | Null | Present 'a

definition serde_field :: "('a option \<Rightarrow> 'b option) \<Rightarrow> 'a yaml_field \<Rightarrow> 'b option" where
  "serde_field deserialize_with f =
    (case f of Absent \<Rightarrow> None | Null \<Rightarrow> deserialize_with None | Present x \<Rightarrow> deserialize_with (Some x))"

definition refs_default :: refs where
  "refs_default = \<lparr> branches = None, tags = None \<rparr>"

definition deserialize_trigger :: "refs option \<Rightarrow> refs option" where
  "deserialize_trigger opt = Some (case opt of None \<Rightarrow> refs_default | Some r \<Rightarrow> r)"

definition deserialize_ref_filter :: "string list option \<Rightarrow> string list option" where
  "deserialize_ref_filter opt = Some (case opt of None \<Rightarrow> [] | Some xs \<Rightarrow> xs)"

definition decode_refs :: "string list yaml_field \<Rightarrow> string list yaml_field \<Rightarrow> refs" where
  "decode_refs bs ts =
    \<lparr> branches = serde_field deserialize_ref_filter bs,
      tags = serde_field deserialize_ref_filter ts \<rparr>"

section \<open>Scanners\<close>

definition is_valid_env_var_name :: "string \<Rightarrow> bool" where
  "is_valid_env_var_name s =
    (case s of
       [] \<Rightarrow> False
     | b # rest \<Rightarrow>
         (is_ascii_alphabetic b \<or> b = CHR ''_'') \<and>
         list_all (\<lambda>c. is_ascii_alphanumeric c \<or> c = CHR ''_'') rest)"

definition is_label_alnum :: "char \<Rightarrow> bool" where
  "is_label_alnum b \<longleftrightarrow> is_ascii_lowercase b \<or> is_ascii_digit b"

definition is_valid_dns1123_label :: "string \<Rightarrow> bool" where
  "is_valid_dns1123_label s =
    (if s = [] \<or> length s > 63 then False
     else if \<not> is_label_alnum (hd s) \<or> \<not> is_label_alnum (last s) then False
     else list_all (\<lambda>b. is_label_alnum b \<or> b = CHR ''-'') s)"

text \<open>
  \<open>is_valid_quantity\<close> walks an index over the bytes; the model walks the remaining bytes. The
  number loop returns \<open>saw_digit\<close> and the rest after the number.
\<close>

fun scan_number :: "bool \<Rightarrow> bool \<Rightarrow> string \<Rightarrow> bool \<times> string" where
  "scan_number saw_digit saw_dot [] = (saw_digit, [])"
| "scan_number saw_digit saw_dot (c # s) =
    (if is_ascii_digit c then scan_number True saw_dot s
     else if c = CHR ''.'' \<and> \<not> saw_dot then scan_number saw_digit True s
     else (saw_digit, c # s))"

definition is_sign :: "char \<Rightarrow> bool" where
  "is_sign c \<longleftrightarrow> c = CHR ''+'' \<or> c = CHR ''-''"

fun scan_exponent :: "bool \<Rightarrow> string \<Rightarrow> bool" where
  "scan_exponent any [] = any"
| "scan_exponent any (c # s) = (if \<not> is_ascii_digit c then False else scan_exponent True s)"

definition skip_sign :: "string \<Rightarrow> string" where
  "skip_sign s = (case s of [] \<Rightarrow> [] | c # r \<Rightarrow> if is_sign c then r else s)"

definition is_small_unit :: "char \<Rightarrow> bool" where
  "is_small_unit c \<longleftrightarrow> c \<in> set ''numk''"

definition is_large_unit :: "char \<Rightarrow> bool" where
  "is_large_unit c \<longleftrightarrow> c \<in> set ''KMGTPE''"

fun scan_suffix :: "string \<Rightarrow> bool" where
  "scan_suffix [] = True"
| "scan_suffix (c # s) =
    (if (c = CHR ''e'' \<or> c = CHR ''E'') \<and> s \<noteq> [] \<and> (is_ascii_digit (hd s) \<or> is_sign (hd s))
     then scan_exponent False (skip_sign s)
     else if is_small_unit c then s = []
     else if is_large_unit c then
       (case s of [] \<Rightarrow> True | d # r \<Rightarrow> if d = CHR ''i'' then r = [] else False)
     else False)"

definition is_valid_quantity :: "string \<Rightarrow> bool" where
  "is_valid_quantity s =
    (if s = [] then False
     else case scan_number False False (skip_sign s) of
       (saw_digit, rest) \<Rightarrow> if \<not> saw_digit then False else scan_suffix rest)"

section \<open>Secrets\<close>

definition MAX_SECRET_NAME_LEN :: nat where
  "MAX_SECRET_NAME_LEN = 30"

fun file_secret_name :: "file_secret \<Rightarrow> string" where
  "file_secret_name (DefaultFile n) = n"
| "file_secret_name (CustomFile n _) = n"

fun file_secret_path :: "file_secret \<Rightarrow> string option" where
  "file_secret_path (DefaultFile _) = None"
| "file_secret_path (CustomFile _ p) = Some p"

definition merge_env_secrets :: "string list \<Rightarrow> string list \<Rightarrow> string list" where
  "merge_env_secrets pipeline_env node_env = bset_extend (bset_extend [] pipeline_env) node_env"

definition file_secret_spec_of :: "file_secret \<Rightarrow> file_secret_spec" where
  "file_secret_spec_of f = \<lparr> fs_name = file_secret_name f, fs_path = file_secret_path f \<rparr>"

definition merge_file_secrets :: "file_secret list \<Rightarrow> file_secret list \<Rightarrow> file_secret_spec list" where
  "merge_file_secrets pipeline_files node_files =
    map snd (bmap_extend []
      (map (\<lambda>f. (file_secret_name f, file_secret_spec_of f)) (pipeline_files @ node_files)))"

definition secret_name_violation :: "string \<Rightarrow> string option" where
  "secret_name_violation nm =
    (if nm = [] then Some ''name must not be empty''
     else if length nm > MAX_SECRET_NAME_LEN then Some ''name must be at most 30 characters''
     else if \<not> is_valid_env_var_name nm
       then Some ''name must match POSIX env-var pattern: [A-Za-z_][A-Za-z0-9_]*''
     else None)"

definition file_secret_path_violation :: "string \<Rightarrow> string option" where
  "file_secret_path_violation path =
    (if \<not> starts_with path ''/'' then Some (''path '' @ quoted path @ '' must be absolute'')
     else if ends_with path ''/''
       then Some (''path '' @ quoted path @ '' must not end with '' @ quoted ''/'')
     else if contains_str path ''//''
       then Some (''path '' @ quoted path @ '' must not contain '' @ quoted ''//'')
     else if list_ex (\<lambda>segment. segment = ''..'') (split_on (CHR ''/'') path)
       then Some (''path '' @ quoted path @ '' must not contain '' @ quoted ''..'' @ '' segments'')
     else None)"

section \<open>Validation\<close>

definition validate_node_dependency ::
  "string list \<Rightarrow> pipeline_node \<Rightarrow> string \<Rightarrow> pipeline_error + unit" where
  "validate_node_dependency node_names node dep =
    (if dep = pn_name node then Inl (SelfDependency (pn_name node))
     else if dep \<notin> set node_names then Inl (UnknownDependency (pn_name node) dep)
     else Inr ())"

definition validate_dependencies :: "pipeline \<Rightarrow> pipeline_error + unit" where
  "validate_dependencies p =
    (let node_names = map pn_name (pl_nodes p) in
     for_each (\<lambda>node. for_each (validate_node_dependency node_names node) (pn_after node))
       (pl_nodes p))"

definition validate_steps_present :: "pipeline \<Rightarrow> pipeline_error + unit" where
  "validate_steps_present p =
    for_each (\<lambda>node. if pn_steps node = [] then Inl (EmptySteps (pn_name node)) else Inr ())
      (pl_nodes p)"

definition validate_quantity_field ::
  "pipeline_node \<Rightarrow> string \<times> string option \<Rightarrow> pipeline_error + unit" where
  "validate_quantity_field node fv =
    (case fv of (field, value) \<Rightarrow>
      (case value of
         None \<Rightarrow> Inr ()
       | Some v \<Rightarrow>
           if \<not> is_valid_quantity v then Inl (InvalidQuantity (pn_name node) field v) else Inr ()))"

definition validate_quantities :: "pipeline \<Rightarrow> pipeline_error + unit" where
  "validate_quantities p =
    for_each (\<lambda>node. for_each (validate_quantity_field node)
        [(''cpu'', pn_cpu node), (''memory'', pn_memory node), (''cache_size'', pn_cache_size node)])
      (pl_nodes p)"

definition RESERVED_VOLUME_NAMES :: "string list" where
  "RESERVED_VOLUME_NAMES = [''tube-bin'', ''workspace'', ''user-script'', ''cache'']"

definition RESERVED_MOUNT_PATHS :: "string list" where
  "RESERVED_MOUNT_PATHS = [''/shared'', ''/workspace'', ''/etc/conn'', ''/tmp/cache'']"

definition is_reserved_path :: "string \<Rightarrow> string \<Rightarrow> bool" where
  "is_reserved_path candidate reserved \<longleftrightarrow>
    candidate = reserved \<or> starts_with candidate (reserved @ ''/'') \<or>
    starts_with reserved (candidate @ ''/'')"

definition dns1123_reason :: string where
  "dns1123_reason =
    ''name must be a valid DNS-1123 label (lowercase alphanumeric and '-', '' @
    ''1-63 chars, must start and end with an alphanumeric character)''"

fun validate_node_volumes ::
  "string \<Rightarrow> string list \<Rightarrow> (string, string) hashmap \<Rightarrow> pipeline_error + unit" where
  "validate_node_volumes node seen_paths [] = Inr ()"
| "validate_node_volumes node seen_paths ((nm, mount_path) # vols) =
    (if \<not> is_valid_dns1123_label nm then Inl (InvalidVolume node nm dns1123_reason)
     else if nm \<in> set RESERVED_VOLUME_NAMES
       then Inl (InvalidVolume node nm (''name '' @ quoted nm @ '' is reserved for internal use''))
     else if \<not> starts_with mount_path ''/''
       then Inl (InvalidVolume node nm (''mount path '' @ quoted mount_path @ '' must be absolute''))
     else if list_ex (is_reserved_path mount_path) RESERVED_MOUNT_PATHS
       then Inl (InvalidVolume node nm
              (''mount path '' @ quoted mount_path @ '' overlaps a reserved mount''))
     else if mount_path \<in> set seen_paths
       then Inl (InvalidVolume node nm
              (''mount path '' @ quoted mount_path @ '' is used by another volume on this node''))
     else validate_node_volumes node (mount_path # seen_paths) vols)"

definition validate_volumes :: "pipeline \<Rightarrow> pipeline_error + unit" where
  "validate_volumes p =
    for_each (\<lambda>node. validate_node_volumes (pn_name node) [] (pn_volumes node)) (pl_nodes p)"

definition validate_env_secret :: "string \<Rightarrow> string \<Rightarrow> pipeline_error + unit" where
  "validate_env_secret node nm =
    (case secret_name_violation nm of
       Some reason \<Rightarrow> Inl (InvalidSecret node nm reason)
     | None \<Rightarrow> Inr ())"

definition validate_file_secret :: "string \<Rightarrow> file_secret_spec \<Rightarrow> pipeline_error + unit" where
  "validate_file_secret node spec =
    (case secret_name_violation (fs_name spec) of
       Some reason \<Rightarrow> Inl (InvalidSecret node (fs_name spec) reason)
     | None \<Rightarrow>
         (case Option.bind (fs_path spec) file_secret_path_violation of
            Some reason \<Rightarrow> Inl (InvalidSecret node (fs_name spec) reason)
          | None \<Rightarrow> Inr ()))"

definition validate_secrets :: "pipeline \<Rightarrow> pipeline_error + unit" where
  "validate_secrets p =
    for_each (\<lambda>node.
        and_then
          (for_each (validate_env_secret (pn_name node))
            (merge_env_secrets (secrets_env (pl_secrets p)) (secrets_env (pn_secrets node))))
          (\<lambda>_. for_each (validate_file_secret (pn_name node))
            (merge_file_secrets (secrets_files (pl_secrets p)) (secrets_files (pn_secrets node)))))
      (pl_nodes p)"

definition from_yaml :: "(string \<Rightarrow> string + pipeline) \<Rightarrow> string \<Rightarrow> pipeline_error + pipeline" where
  "from_yaml parse yaml =
    (case parse yaml of
       Inl e \<Rightarrow> Inl (YamlParseError e)
     | Inr p \<Rightarrow>
         and_then (validate_dependencies p) (\<lambda>_.
         and_then (validate_steps_present p) (\<lambda>_.
         and_then (validate_quantities p) (\<lambda>_.
         and_then (validate_volumes p) (\<lambda>_.
         and_then (validate_secrets p) (\<lambda>_. Inr p))))))"

section \<open>Reading a pipeline\<close>

definition pipeline_timeout_secs :: "pipeline \<Rightarrow> u64 option" where
  "pipeline_timeout_secs p = pl_timeout_secs p"

definition fail_fast_override :: "pipeline \<Rightarrow> bool option" where
  "fail_fast_override p = pl_fail_fast p"

fun step_command :: "pipeline_step \<Rightarrow> string" where
  "step_command (Inline cmd) = cmd"
| "step_command (Named ns) = step_run ns"

definition node_info_of :: "pipeline \<Rightarrow> pipeline_node \<Rightarrow> node_info" where
  "node_info_of p n =
    \<lparr> ni_name = pn_name n,
      ni_image = (case pn_image n of None \<Rightarrow> [] | Some i \<Rightarrow> i),
      ni_steps = map step_command (pn_steps n),
      ni_dependencies = pn_after n,
      ni_timeout_secs = pn_timeout_secs n,
      ni_startup_timeout_secs = pn_startup_timeout_secs n,
      ni_checkout = (case pn_checkout n of None \<Rightarrow> False | Some b \<Rightarrow> b),
      ni_env = hm_extend (pl_env p) (pn_env n),
      ni_env_secrets = merge_env_secrets (secrets_env (pl_secrets p)) (secrets_env (pn_secrets n)),
      ni_file_secrets =
        merge_file_secrets (secrets_files (pl_secrets p)) (secrets_files (pn_secrets n)),
      ni_privileged = pn_privileged n,
      ni_cache_size = pn_cache_size n,
      ni_cpu = pn_cpu n,
      ni_memory = pn_memory n,
      ni_volumes = pn_volumes n \<rparr>"

definition pipeline_node_info :: "pipeline \<Rightarrow> node_info list" where
  "pipeline_node_info p = map (node_info_of p) (pl_nodes p)"

definition ref_filter_matches :: "string list \<Rightarrow> string \<Rightarrow> bool" where
  "ref_filter_matches allowed candidate \<longleftrightarrow> allowed = [] \<or> list_ex (\<lambda>a. a = candidate) allowed"

definition refs_match_branch_filter :: "string list option \<Rightarrow> string \<Rightarrow> bool" where
  "refs_match_branch_filter flt branch =
    (case flt of None \<Rightarrow> True | Some allowed \<Rightarrow> ref_filter_matches allowed branch)"

definition refs_match_push :: "refs \<Rightarrow> string option \<Rightarrow> string option \<Rightarrow> bool" where
  "refs_match_push r branch tag =
    (if branches r = None \<and> tags r = None then True
     else case branch of
       Some b \<Rightarrow> (case branches r of Some allowed \<Rightarrow> ref_filter_matches allowed b | None \<Rightarrow> False)
     | None \<Rightarrow>
         (case tag of
            Some t \<Rightarrow> (case tags r of Some allowed \<Rightarrow> ref_filter_matches allowed t | None \<Rightarrow> False)
          | None \<Rightarrow> False))"

definition triggered_by_push :: "pipeline \<Rightarrow> string option \<Rightarrow> string option \<Rightarrow> bool" where
  "triggered_by_push p branch tag =
    (case pl_on p of
       None \<Rightarrow> False
     | Some triggers \<Rightarrow>
         (case push_trigger triggers of
            None \<Rightarrow> False
          | Some r \<Rightarrow> refs_match_push r branch tag))"

definition triggered_by_pull_request :: "pipeline \<Rightarrow> string \<Rightarrow> bool" where
  "triggered_by_pull_request p branch =
    (case pl_on p of
       None \<Rightarrow> False
     | Some triggers \<Rightarrow>
         (case pull_request_trigger triggers of
            None \<Rightarrow> False
          | Some r \<Rightarrow> refs_match_branch_filter (branches r) branch))"

section \<open>The accepted pipelines\<close>

text \<open>
  Declarative counterparts of the validations: what a pipeline must satisfy to be accepted.
\<close>

definition deps_ok :: "pipeline \<Rightarrow> bool" where
  "deps_ok p \<longleftrightarrow>
    (\<forall>n\<in>set (pl_nodes p). \<forall>d\<in>set (pn_after n).
       d \<noteq> pn_name n \<and> d \<in> pn_name ` set (pl_nodes p))"

definition steps_ok :: "pipeline \<Rightarrow> bool" where
  "steps_ok p \<longleftrightarrow> (\<forall>n\<in>set (pl_nodes p). pn_steps n \<noteq> [])"

text \<open>Kubernetes quantities: a sign, a decimal number, and a unit or an exponent.\<close>

definition optional_sign :: "string \<Rightarrow> bool" where
  "optional_sign s \<longleftrightarrow> s = [] \<or> (\<exists>c. s = [c] \<and> is_sign c)"

definition decimal_number :: "string \<Rightarrow> bool" where
  "decimal_number s \<longleftrightarrow>
    (\<exists>a b. list_all is_ascii_digit a \<and> list_all is_ascii_digit b \<and> a @ b \<noteq> [] \<and>
       (s = a @ CHR ''.'' # b \<or> s = a \<and> b = []))"

definition quantity_suffix :: "string \<Rightarrow> bool" where
  "quantity_suffix s \<longleftrightarrow>
    s = [] \<or> (\<exists>c. s = [c] \<and> (is_small_unit c \<or> is_large_unit c)) \<or>
    (\<exists>c. s = [c, CHR ''i''] \<and> is_large_unit c) \<or>
    (\<exists>e sg ds. s = e # sg @ ds \<and> (e = CHR ''e'' \<or> e = CHR ''E'') \<and> optional_sign sg \<and>
       ds \<noteq> [] \<and> list_all is_ascii_digit ds)"

definition quantity_grammar :: "string \<Rightarrow> bool" where
  "quantity_grammar s \<longleftrightarrow>
    (\<exists>sg num suf. s = sg @ num @ suf \<and> optional_sign sg \<and> decimal_number num \<and> quantity_suffix suf)"

definition node_quantities :: "pipeline_node \<Rightarrow> string set" where
  "node_quantities n = set_option (pn_cpu n) \<union> set_option (pn_memory n) \<union> set_option (pn_cache_size n)"

definition quantities_ok :: "pipeline \<Rightarrow> bool" where
  "quantities_ok p \<longleftrightarrow> (\<forall>n\<in>set (pl_nodes p). \<forall>v\<in>node_quantities n. quantity_grammar v)"

text \<open>Mount paths are compared segment by segment.\<close>

definition path_segments :: "string \<Rightarrow> string list" where
  "path_segments s = split_on (CHR ''/'') s"

definition volume_ok :: "string \<times> string \<Rightarrow> bool" where
  "volume_ok v \<longleftrightarrow>
    (case v of (nm, mp) \<Rightarrow>
      is_valid_dns1123_label nm \<and> nm \<notin> set RESERVED_VOLUME_NAMES \<and> starts_with mp ''/'' \<and>
      (\<forall>r\<in>set RESERVED_MOUNT_PATHS.
         \<not> prefix (path_segments r) (path_segments mp) \<and> \<not> prefix (path_segments mp) (path_segments r)))"

definition volumes_ok :: "pipeline \<Rightarrow> bool" where
  "volumes_ok p \<longleftrightarrow>
    (\<forall>n\<in>set (pl_nodes p). distinct (map snd (pn_volumes n)) \<and> (\<forall>v\<in>set (pn_volumes n). volume_ok v))"

definition secret_name_ok :: "string \<Rightarrow> bool" where
  "secret_name_ok nm \<longleftrightarrow> length nm \<le> 30 \<and> is_valid_env_var_name nm"

definition secret_path_ok :: "string \<Rightarrow> bool" where
  "secret_path_ok path \<longleftrightarrow>
    starts_with path ''/'' \<and> \<not> ends_with path ''/'' \<and> \<not> contains_str path ''//'' \<and>
    ''..'' \<notin> set (path_segments path)"

definition secrets_ok :: "pipeline \<Rightarrow> bool" where
  "secrets_ok p \<longleftrightarrow>
    (\<forall>n\<in>set (pl_nodes p).
       (\<forall>nm\<in>set (ni_env_secrets (node_info_of p n)). secret_name_ok nm) \<and>
       (\<forall>f\<in>set (ni_file_secrets (node_info_of p n)).
          secret_name_ok (fs_name f) \<and> (\<forall>path\<in>set_option (fs_path f). secret_path_ok path)))"

definition pipeline_ok :: "pipeline \<Rightarrow> bool" where
  "pipeline_ok p \<longleftrightarrow> deps_ok p \<and> steps_ok p \<and> quantities_ok p \<and> volumes_ok p \<and> secrets_ok p"

section \<open>Lemmas: the quantity scanner\<close>

lemma not_sign_digit: "is_ascii_digit c \<Longrightarrow> \<not> is_sign c"
  by (auto simp: is_ascii_digit_def is_sign_def)

lemma not_digit_dot: "\<not> is_ascii_digit CHR ''.''"
  by (simp add: is_ascii_digit_def)

lemma scan_number_after_dot:
  "scan_number sd True s = (sd \<or> takeWhile is_ascii_digit s \<noteq> [], dropWhile is_ascii_digit s)"
  by (induction s arbitrary: sd) auto

lemma scan_number_before_dot:
  "scan_number sd False s =
    (case dropWhile is_ascii_digit s of
       [] \<Rightarrow> (sd \<or> takeWhile is_ascii_digit s \<noteq> [], [])
     | c # r \<Rightarrow>
         if c = CHR ''.''
         then (sd \<or> takeWhile is_ascii_digit s \<noteq> [] \<or> takeWhile is_ascii_digit r \<noteq> [],
               dropWhile is_ascii_digit r)
         else (sd \<or> takeWhile is_ascii_digit s \<noteq> [], c # r))"
proof (induction s arbitrary: sd)
  case Nil
  then show ?case by simp
next
  case (Cons c s)
  then show ?case
    by (cases "is_ascii_digit c")
      (simp_all add: scan_number_after_dot not_digit_dot split: list.split del: dropWhile_eq_Nil_conv)
qed

lemma scan_exponent_iff: "scan_exponent any s \<longleftrightarrow> list_all is_ascii_digit s \<and> (any \<or> s \<noteq> [])"
  by (induction s arbitrary: any) auto

lemma small_not_large_unit: "is_small_unit c \<Longrightarrow> \<not> is_large_unit c"
  by (auto simp: is_small_unit_def is_large_unit_def)

lemma skip_sign_cases:
  obtains sg where "optional_sign sg" "s = sg @ skip_sign s"
proof (cases "s = [] \<or> \<not> is_sign (hd s)")
  case True
  then have "s = [] @ skip_sign s" by (cases s) (auto simp: skip_sign_def)
  then show thesis by (rule that[rotated]) (simp add: optional_sign_def)
next
  case False
  then have "s = [hd s] @ skip_sign s" by (cases s) (auto simp: skip_sign_def)
  then show thesis by (rule that[rotated]) (use False in \<open>simp add: optional_sign_def\<close>)
qed

lemma scan_suffix_iff: "scan_suffix s \<longleftrightarrow> quantity_suffix s"
proof (cases s)
  case Nil
  then show ?thesis by (simp add: quantity_suffix_def)
next
  case (Cons c r)
  show ?thesis
  proof (cases "(c = CHR ''e'' \<or> c = CHR ''E'') \<and> r \<noteq> [] \<and> (is_ascii_digit (hd r) \<or> is_sign (hd r))")
    case True
    then have "scan_suffix s \<longleftrightarrow> list_all is_ascii_digit (skip_sign r) \<and> skip_sign r \<noteq> []"
      using Cons by (simp add: scan_exponent_iff)
    also have "\<dots> \<longleftrightarrow> (\<exists>sg ds. r = sg @ ds \<and> optional_sign sg \<and> ds \<noteq> [] \<and> list_all is_ascii_digit ds)"
    proof
      assume "list_all is_ascii_digit (skip_sign r) \<and> skip_sign r \<noteq> []"
      then show "\<exists>sg ds. r = sg @ ds \<and> optional_sign sg \<and> ds \<noteq> [] \<and> list_all is_ascii_digit ds"
        using skip_sign_cases[of r] by metis
    next
      assume "\<exists>sg ds. r = sg @ ds \<and> optional_sign sg \<and> ds \<noteq> [] \<and> list_all is_ascii_digit ds"
      then show "list_all is_ascii_digit (skip_sign r) \<and> skip_sign r \<noteq> []"
        by (auto simp: optional_sign_def skip_sign_def dest: not_sign_digit split: list.splits)
    qed
    also have "\<dots> \<longleftrightarrow> quantity_suffix s"
    proof -
      have "r \<noteq> [CHR ''i'']" using True by (auto simp: is_ascii_digit_def is_sign_def)
      with True Cons have "s \<noteq> []" "\<nexists>d. s = [d]" "\<nexists>d. s = [d, CHR ''i'']" by auto
      then show ?thesis using True Cons by (simp add: quantity_suffix_def)
    qed
    finally show ?thesis .
  next
    case False
    have "\<not> (\<exists>e sg ds. s = e # sg @ ds \<and> (e = CHR ''e'' \<or> e = CHR ''E'') \<and> optional_sign sg \<and>
       ds \<noteq> [] \<and> list_all is_ascii_digit ds)"
    proof (rule notI, elim exE conjE)
      fix e sg ds
      assume e: "s = e # sg @ ds" "e = CHR ''e'' \<or> e = CHR ''E''" and sg: "optional_sign sg"
        and ds: "ds \<noteq> []" "list_all is_ascii_digit ds"
      from sg ds have "is_ascii_digit (hd (sg @ ds)) \<or> is_sign (hd (sg @ ds))"
        by (cases ds) (auto simp: optional_sign_def)
      with e ds Cons False show False by auto
    qed
    then have "quantity_suffix s \<longleftrightarrow>
      (r = [] \<and> (is_small_unit c \<or> is_large_unit c)) \<or> (r = [CHR ''i''] \<and> is_large_unit c)"
      using Cons by (auto simp: quantity_suffix_def)
    moreover have "scan_suffix s \<longleftrightarrow>
      (r = [] \<and> (is_small_unit c \<or> is_large_unit c)) \<or> (r = [CHR ''i''] \<and> is_large_unit c)"
      using False Cons by (auto dest: small_not_large_unit split: list.splits)
    ultimately show ?thesis by simp
  qed
qed

lemma quantity_suffix_head:
  "quantity_suffix (c # r) \<Longrightarrow> \<not> is_ascii_digit c \<and> c \<noteq> CHR ''.''"
  by (auto simp: quantity_suffix_def is_ascii_digit_def is_small_unit_def is_large_unit_def)

lemma scan_decimal_number:
  assumes "decimal_number num" "quantity_suffix suf"
  shows "scan_number False False (num @ suf) = (True, suf)"
proof -
  obtain a b where ab: "list_all is_ascii_digit a" "list_all is_ascii_digit b" "a @ b \<noteq> []"
    and num: "num = a @ CHR ''.'' # b \<or> num = a \<and> b = []"
    using assms(1) by (auto simp: decimal_number_def)
  have suf: "takeWhile is_ascii_digit suf = []" "dropWhile is_ascii_digit suf = suf"
    using assms(2) by (cases suf; auto dest: quantity_suffix_head)+
  have a: "\<And>t. takeWhile is_ascii_digit (a @ t) = a @ takeWhile is_ascii_digit t"
    "\<And>t. dropWhile is_ascii_digit (a @ t) = dropWhile is_ascii_digit t"
    using ab(1) by (auto simp: list_all_iff)
  have b: "\<And>t. takeWhile is_ascii_digit (b @ t) = b @ takeWhile is_ascii_digit t"
    "\<And>t. dropWhile is_ascii_digit (b @ t) = dropWhile is_ascii_digit t"
    using ab(2) by (auto simp: list_all_iff)
  from num show ?thesis
  proof
    assume "num = a @ CHR ''.'' # b"
    then show ?thesis
      using ab(3) suf by (auto simp: scan_number_before_dot a b not_digit_dot)
  next
    assume "num = a \<and> b = []"
    have dw: "dropWhile is_ascii_digit (a @ suf) = suf" and tw: "takeWhile is_ascii_digit (a @ suf) = a"
      by (simp_all only: a suf append_Nil2)
    show ?thesis
      using ab(3) assms(2) \<open>num = a \<and> b = []\<close>
        scan_number_before_dot[of False "a @ suf", unfolded dw tw]
      by (cases suf) (auto dest: quantity_suffix_head)
  qed
qed

lemma scan_number_decimal:
  assumes "scan_number False False s = (True, rest)"
  shows "\<exists>num. s = num @ rest \<and> decimal_number num"
proof -
  let ?a = "takeWhile is_ascii_digit s" and ?r = "dropWhile is_ascii_digit s"
  have s: "?a @ ?r = s" by simp
  have digits: "list_all is_ascii_digit (takeWhile is_ascii_digit t)" for t
    by (auto simp: list_all_iff dest: set_takeWhileD)
  show ?thesis
  proof (cases "\<exists>t. ?r = CHR ''.'' # t")
    case True
    then obtain t where t: "?r = CHR ''.'' # t" by blast
    let ?b = "takeWhile is_ascii_digit t"
    from t assms have ab: "?a @ ?b \<noteq> []" and rest: "rest = dropWhile is_ascii_digit t"
      by (auto simp: scan_number_before_dot)
    have "decimal_number (?a @ CHR ''.'' # ?b)"
      unfolding decimal_number_def using digits ab by blast
    moreover have "(?a @ CHR ''.'' # ?b) @ rest = ?a @ ?r" using t rest by simp
    ultimately show ?thesis using s by metis
  next
    case False
    with assms have a: "?a \<noteq> []" and rest: "rest = ?r"
      by (auto simp: scan_number_before_dot split: list.splits if_splits
          simp del: dropWhile_eq_Nil_conv)
    have "decimal_number ?a"
      unfolding decimal_number_def using digits[of s] a
      by (intro exI[of _ ?a] exI[of _ "[]"]) simp
    with s rest show ?thesis by metis
  qed
qed

lemma decimal_number_not_sign: "decimal_number (c # num) \<Longrightarrow> \<not> is_sign c"
  by (auto simp: decimal_number_def is_sign_def Cons_eq_append_conv is_ascii_digit_def)

lemma skip_sign_append:
  assumes "optional_sign sg" "decimal_number num"
  shows "skip_sign (sg @ num @ suf) = num @ suf"
proof -
  have "num \<noteq> []" using assms(2) by (auto simp: decimal_number_def)
  then obtain c n where c: "num = c # n" by (cases num) auto
  with assms(2) have "\<not> is_sign c" by (simp add: decimal_number_not_sign)
  with assms(1) c show ?thesis by (auto simp: optional_sign_def skip_sign_def)
qed

lemma is_valid_quantity_grammar [ok_iff]: "is_valid_quantity s \<longleftrightarrow> quantity_grammar s"
proof
  assume ok: "is_valid_quantity s"
  then obtain rest where num: "scan_number False False (skip_sign s) = (True, rest)"
    and suf: "scan_suffix rest"
    by (auto simp: is_valid_quantity_def split: if_splits prod.splits)
  from scan_number_decimal[OF num] obtain n where n: "skip_sign s = n @ rest" "decimal_number n"
    by blast
  obtain sg where "optional_sign sg" "s = sg @ n @ rest"
    using skip_sign_cases[of s] n(1) by metis
  then show "quantity_grammar s"
    unfolding quantity_grammar_def using n(2) suf scan_suffix_iff by blast
next
  assume "quantity_grammar s"
  then obtain sg num suf where s: "s = sg @ num @ suf" and p: "optional_sign sg"
    "decimal_number num" "quantity_suffix suf"
    by (auto simp: quantity_grammar_def)
  then have "num \<noteq> []" by (auto simp: decimal_number_def)
  with s p show "is_valid_quantity s"
    by (simp add: is_valid_quantity_def skip_sign_append scan_decimal_number scan_suffix_iff)
qed

section \<open>Lemmas: what each validation accepts\<close>

lemma validate_dependencies_ok [ok_iff]: "validate_dependencies p = Inr () \<longleftrightarrow> deps_ok p"
  by (auto simp: validate_dependencies_def Let_def for_each_Inr_iff validate_node_dependency_def
      deps_ok_def)

lemma validate_steps_present_ok [ok_iff]: "validate_steps_present p = Inr () \<longleftrightarrow> steps_ok p"
  by (auto simp: validate_steps_present_def for_each_Inr_iff steps_ok_def)

lemma validate_quantity_field_ok:
  "validate_quantity_field n (f, v) = Inr () \<longleftrightarrow> (\<forall>q\<in>set_option v. quantity_grammar q)"
  by (cases v) (auto simp: validate_quantity_field_def is_valid_quantity_grammar)

lemma validate_quantities_ok [ok_iff]: "validate_quantities p = Inr () \<longleftrightarrow> quantities_ok p"
  by (simp add: validate_quantities_def for_each_Inr_iff validate_quantity_field_ok
      quantities_ok_def node_quantities_def ball_Un del: for_each.simps)

lemma is_reserved_path_segments:
  "is_reserved_path c r \<longleftrightarrow>
    prefix (path_segments r) (path_segments c) \<or> prefix (path_segments c) (path_segments r)"
  by (auto simp: is_reserved_path_def path_segments_def prefix_split_iff starts_with_iff)

lemma validate_node_volumes_ok:
  "validate_node_volumes node seen vols = Inr () \<longleftrightarrow>
    distinct (map snd vols) \<and> set (map snd vols) \<inter> set seen = {} \<and> (\<forall>v\<in>set vols. volume_ok v)"
proof (induction vols arbitrary: seen)
  case Nil
  then show ?case by simp
next
  case (Cons v vols)
  obtain nm mp where v: "v = (nm, mp)" by force
  have "list_ex (is_reserved_path mp) RESERVED_MOUNT_PATHS \<longleftrightarrow>
    \<not> (\<forall>r\<in>set RESERVED_MOUNT_PATHS.
       \<not> prefix (path_segments r) (path_segments mp) \<and> \<not> prefix (path_segments mp) (path_segments r))"
    by (auto simp: list_ex_iff is_reserved_path_segments)
  then have "volume_ok v \<longleftrightarrow>
    is_valid_dns1123_label nm \<and> nm \<notin> set RESERVED_VOLUME_NAMES \<and> starts_with mp ''/'' \<and>
    \<not> list_ex (is_reserved_path mp) RESERVED_MOUNT_PATHS"
    by (simp add: v volume_ok_def)
  then show ?case using Cons.IH[of "mp # seen"] by (auto simp: v)
qed

lemma validate_volumes_ok [ok_iff]: "validate_volumes p = Inr () \<longleftrightarrow> volumes_ok p"
  by (simp add: validate_volumes_def for_each_Inr_iff validate_node_volumes_ok volumes_ok_def)

lemma secret_name_violation_None: "secret_name_violation nm = None \<longleftrightarrow> secret_name_ok nm"
  by (auto simp: secret_name_violation_def secret_name_ok_def MAX_SECRET_NAME_LEN_def
      is_valid_env_var_name_def split: list.splits)

lemma file_secret_path_violation_None: "file_secret_path_violation path = None \<longleftrightarrow> secret_path_ok path"
  by (auto simp: file_secret_path_violation_def secret_path_ok_def path_segments_def list_ex_iff)

lemma validate_env_secret_ok: "validate_env_secret node nm = Inr () \<longleftrightarrow> secret_name_ok nm"
  by (auto simp: validate_env_secret_def secret_name_violation_None[symmetric] split: option.splits)

lemma validate_file_secret_ok:
  "validate_file_secret node f = Inr () \<longleftrightarrow>
    secret_name_ok (fs_name f) \<and> (\<forall>path\<in>set_option (fs_path f). secret_path_ok path)"
  by (auto simp: validate_file_secret_def secret_name_violation_None[symmetric]
      file_secret_path_violation_None[symmetric] split: option.splits bind_splits)

lemma validate_secrets_ok [ok_iff]: "validate_secrets p = Inr () \<longleftrightarrow> secrets_ok p"
  by (simp add: validate_secrets_def secrets_ok_def for_each_Inr_iff and_then_Inr_iff
      validate_env_secret_ok validate_file_secret_ok node_info_of_def)

section \<open>Lemmas: merged secrets and environment\<close>

lemma merge_env_secrets_set: "set (merge_env_secrets a b) = set a \<union> set b"
  by (auto simp: merge_env_secrets_def bset_extend_set)

lemma merge_env_secrets_sorted: "sorted (merge_env_secrets a b)"
  by (simp add: merge_env_secrets_def bset_extend_sorted)

lemma merge_env_secrets_distinct: "distinct (merge_env_secrets a b)"
  by (simp add: merge_env_secrets_def bset_extend_distinct)

abbreviation file_entries :: "file_secret list \<Rightarrow> (string \<times> file_secret_spec) list" where
  "file_entries fs \<equiv> map (\<lambda>f. (file_secret_name f, file_secret_spec_of f)) fs"

lemma bmap_insert_fs_name:
  "\<lbrakk> \<forall>(k, v)\<in>set m. fs_name v = k; fs_name v = k \<rbrakk> \<Longrightarrow> \<forall>(k', v')\<in>set (bmap_insert k v m). fs_name v' = k'"
  by (induction m) (auto split: if_splits)

lemma bmap_extend_fs_name:
  "\<forall>(k, v)\<in>set m. fs_name v = k \<Longrightarrow> \<forall>(k, v)\<in>set (bmap_extend m (file_entries fs)). fs_name v = k"
proof (induction fs arbitrary: m)
  case Nil
  then show ?case by (simp add: bmap_extend_def)
next
  case (Cons f fs)
  have "fs_name (file_secret_spec_of f) = file_secret_name f" by (simp add: file_secret_spec_of_def)
  with Cons.prems have "\<forall>(k, v)\<in>set (bmap_insert (file_secret_name f) (file_secret_spec_of f) m). fs_name v = k"
    by (intro bmap_insert_fs_name) auto
  from Cons.IH[OF this] show ?case by (simp add: bmap_extend_def)
qed

lemma merge_file_secrets_names:
  "map fs_name (merge_file_secrets a b) = map fst (bmap_extend [] (file_entries (a @ b)))"
proof -
  have "\<forall>(k, v)\<in>set (bmap_extend [] (file_entries (a @ b))). fs_name v = k"
    by (intro bmap_extend_fs_name) simp
  then show ?thesis by (auto simp: merge_file_secrets_def)
qed

lemma merge_file_secrets_sorted: "sorted_wrt (<) (map fs_name (merge_file_secrets a b))"
  unfolding merge_file_secrets_names by (rule bmap_extend_sorted) simp

lemma map_of_file_entries:
  "map_of (file_entries fs) k = map_option file_secret_spec_of (find (\<lambda>f. file_secret_name f = k) fs)"
  by (induction fs) auto

lemma merge_file_secrets_lookup:
  "find (\<lambda>f. fs_name f = k) (merge_file_secrets a b) =
    map_option file_secret_spec_of (find (\<lambda>f. file_secret_name f = k) (rev b @ rev a))"
proof -
  let ?m = "bmap_extend [] (file_entries (a @ b))"
  have keys: "\<forall>(k, v)\<in>set ?m. fs_name v = k" by (intro bmap_extend_fs_name) simp
  have "find (\<lambda>f. fs_name f = k) (map snd m) = map_of m k"
    if "\<forall>(k, v)\<in>set m. fs_name v = k" for m :: "(string \<times> file_secret_spec) list"
    using that by (induction m) auto
  with keys have "find (\<lambda>f. fs_name f = k) (merge_file_secrets a b) = map_of ?m k"
    by (simp add: merge_file_secrets_def)
  also have "\<dots> = map_of (file_entries (rev b @ rev a)) k"
    by (subst bmap_extend_map_of) (auto simp: rev_map map_add_def)
  finally show ?thesis by (simp add: map_of_file_entries del: map_append)
qed

section \<open>Lemmas: every reported error is justified\<close>

fun error_explains :: "pipeline \<Rightarrow> pipeline_error \<Rightarrow> bool" where
  "error_explains p (YamlParseError _) = False"
| "error_explains p (SelfDependency n) =
    (\<exists>m\<in>set (pl_nodes p). pn_name m = n \<and> n \<in> set (pn_after m))"
| "error_explains p (UnknownDependency n d) =
    (\<exists>m\<in>set (pl_nodes p). pn_name m = n \<and> d \<in> set (pn_after m) \<and> d \<notin> pn_name ` set (pl_nodes p))"
| "error_explains p (EmptySteps n) =
    (deps_ok p \<and> (\<exists>m\<in>set (pl_nodes p). pn_name m = n \<and> pn_steps m = []))"
| "error_explains p (InvalidQuantity n f v) =
    (deps_ok p \<and> steps_ok p \<and>
     (\<exists>m\<in>set (pl_nodes p). pn_name m = n \<and> v \<in> node_quantities m \<and> \<not> quantity_grammar v))"
| "error_explains p (InvalidVolume n nm reason) =
    (deps_ok p \<and> steps_ok p \<and> quantities_ok p \<and>
     (\<exists>m\<in>set (pl_nodes p). pn_name m = n \<and>
        (\<exists>mp. (nm, mp) \<in> set (pn_volumes m) \<and>
           (\<not> volume_ok (nm, mp) \<or> \<not> distinct (map snd (pn_volumes m))))))"
| "error_explains p (InvalidSecret n nm reason) =
    (deps_ok p \<and> steps_ok p \<and> quantities_ok p \<and> volumes_ok p \<and>
     (\<exists>m\<in>set (pl_nodes p). pn_name m = n \<and>
        (nm \<in> set (ni_env_secrets (node_info_of p m)) \<and> \<not> secret_name_ok nm \<or>
         (\<exists>f\<in>set (ni_file_secrets (node_info_of p m)). fs_name f = nm \<and>
            (\<not> secret_name_ok nm \<or> (\<exists>path\<in>set_option (fs_path f). \<not> secret_path_ok path))))))"

lemma validate_dependencies_error:
  "validate_dependencies p = Inl e \<Longrightarrow> error_explains p e"
  unfolding validate_dependencies_def Let_def
  by (fastforce dest!: for_each_InlD simp: validate_node_dependency_def split: if_splits)

lemma validate_steps_error:
  "\<lbrakk> deps_ok p; validate_steps_present p = Inl e \<rbrakk> \<Longrightarrow> error_explains p e"
  unfolding validate_steps_present_def
  by (fastforce dest!: for_each_InlD split: if_splits)

lemma validate_quantity_field_error:
  "validate_quantity_field n (f, v) = Inl e \<longleftrightarrow>
    (\<exists>q. v = Some q \<and> \<not> quantity_grammar q \<and> e = InvalidQuantity (pn_name n) f q)"
  by (cases v) (auto simp: validate_quantity_field_def is_valid_quantity_grammar)

lemma validate_quantities_error:
  assumes "deps_ok p" "steps_ok p" "validate_quantities p = Inl e"
  shows "error_explains p e"
proof -
  from assms(3) obtain n where n: "n \<in> set (pl_nodes p)" and
    err: "for_each (validate_quantity_field n)
      [(''cpu'', pn_cpu n), (''memory'', pn_memory n), (''cache_size'', pn_cache_size n)] = Inl e"
    unfolding validate_quantities_def by (blast dest: for_each_InlD)
  from err have "\<exists>f q. e = InvalidQuantity (pn_name n) f q \<and> q \<in> node_quantities n \<and> \<not> quantity_grammar q"
    by (auto simp: and_then_Inl_iff validate_quantity_field_error node_quantities_def)
  with n assms(1,2) show ?thesis by auto
qed

lemma validate_node_volumes_error:
  "validate_node_volumes node seen vols = Inl e \<Longrightarrow>
    \<exists>nm mp reason. e = InvalidVolume node nm reason \<and> (nm, mp) \<in> set vols \<and>
      (\<not> volume_ok (nm, mp) \<or> mp \<in> set seen \<or> \<not> distinct (map snd vols))"
proof (induction vols arbitrary: seen)
  case Nil
  then show ?case by simp
next
  case (Cons v vols)
  obtain nm mp where v: "v = (nm, mp)" by force
  show ?case
  proof (cases "validate_node_volumes node (mp # seen) vols = Inl e \<and>
      validate_node_volumes node seen (v # vols) = validate_node_volumes node (mp # seen) vols")
    case True
    with Cons.IH[of "mp # seen"] obtain nm' mp' reason where
      "e = InvalidVolume node nm' reason" "(nm', mp') \<in> set vols"
      "\<not> volume_ok (nm', mp') \<or> mp' \<in> set (mp # seen) \<or> \<not> distinct (map snd vols)" by blast
    moreover from \<open>(nm', mp') \<in> set vols\<close> have "mp' \<in> snd ` set vols" by force
    ultimately show ?thesis by (intro exI[of _ nm'] exI[of _ mp'] exI[of _ reason]) (auto simp: v)
  next
    case False
    with Cons.prems have "\<exists>reason. e = InvalidVolume node nm reason" and
      "\<not> volume_ok (nm, mp) \<or> mp \<in> set seen"
      by (auto simp: v volume_ok_def list_ex_iff is_reserved_path_segments split: if_splits)
    then show ?thesis by (auto simp: v)
  qed
qed

lemma validate_volumes_error:
  assumes "deps_ok p" "steps_ok p" "quantities_ok p" "validate_volumes p = Inl e"
  shows "error_explains p e"
proof -
  from assms(4) obtain n where n: "n \<in> set (pl_nodes p)" and
    "validate_node_volumes (pn_name n) [] (pn_volumes n) = Inl e"
    unfolding validate_volumes_def by (blast dest: for_each_InlD)
  with validate_node_volumes_error obtain nm mp reason
    where "e = InvalidVolume (pn_name n) nm reason" "(nm, mp) \<in> set (pn_volumes n)"
      "\<not> volume_ok (nm, mp) \<or> \<not> distinct (map snd (pn_volumes n))" by fastforce
  with n assms(1-3) show ?thesis by auto
qed

lemma validate_env_secret_error:
  "validate_env_secret node nm = Inl e \<Longrightarrow> \<not> secret_name_ok nm \<and> (\<exists>r. e = InvalidSecret node nm r)"
  by (auto simp: validate_env_secret_def secret_name_violation_None[symmetric] split: option.splits)

lemma validate_file_secret_error:
  "validate_file_secret node f = Inl e \<Longrightarrow>
    (\<exists>r. e = InvalidSecret node (fs_name f) r) \<and>
    (\<not> secret_name_ok (fs_name f) \<or> (\<exists>path\<in>set_option (fs_path f). \<not> secret_path_ok path))"
  by (cases "fs_path f")
    (auto simp: validate_file_secret_def secret_name_violation_None[symmetric]
      file_secret_path_violation_None[symmetric] split: option.splits)

lemma validate_secrets_error:
  assumes "deps_ok p" "steps_ok p" "quantities_ok p" "volumes_ok p" "validate_secrets p = Inl e"
  shows "error_explains p e"
proof -
  from assms(5) obtain n where n: "n \<in> set (pl_nodes p)" and
    err: "for_each (validate_env_secret (pn_name n)) (ni_env_secrets (node_info_of p n)) = Inl e \<or>
      for_each (validate_file_secret (pn_name n)) (ni_file_secrets (node_info_of p n)) = Inl e"
    unfolding validate_secrets_def node_info_of_def
    by (auto dest!: for_each_InlD[of "\<lambda>node. and_then (_ node) (_ node)"] simp: and_then_Inl_iff)
  from err show ?thesis
  proof
    assume "for_each (validate_env_secret (pn_name n)) (ni_env_secrets (node_info_of p n)) = Inl e"
    then obtain nm where "nm \<in> set (ni_env_secrets (node_info_of p n))"
      and "validate_env_secret (pn_name n) nm = Inl e" by (blast dest: for_each_InlD)
    with validate_env_secret_error n assms(1-4) show ?thesis by fastforce
  next
    assume "for_each (validate_file_secret (pn_name n)) (ni_file_secrets (node_info_of p n)) = Inl e"
    then obtain f where "f \<in> set (ni_file_secrets (node_info_of p n))"
      and "validate_file_secret (pn_name n) f = Inl e" by (blast dest: for_each_InlD)
    with validate_file_secret_error n assms(1-4) show ?thesis by fastforce
  qed
qed

lemmas validation_errors = validate_dependencies_error validate_steps_error
  validate_quantities_error validate_volumes_error validate_secrets_error

section \<open>Properties\<close>

text \<open>
  Claim C19. \<open>Pipeline::from_yaml\<close> returns a pipeline exactly when the YAML document decodes to
  it and it is well formed: every dependency names another node of the pipeline, every node has
  a step, every \<open>cpu\<close>, \<open>memory\<close> and \<open>cache_size\<close> is a Kubernetes quantity, every volume has
  a DNS-1123 name that is not reserved and an absolute mount path of its own that shares no
  segment prefix with a reserved mount, and every secret has a valid name and path.
\<close>

theorem from_yaml_accepts:
  "from_yaml parse yaml = Inr p \<longleftrightarrow> parse yaml = Inr p \<and> pipeline_ok p"
  by (auto simp: from_yaml_def ok_iff pipeline_ok_def split: sum.splits)

text \<open>
  Claim C29. When a document decodes but is rejected, the error names a node, a field or an entry
  of the pipeline that violates the rule of that error, and every rule that is checked earlier
  holds: errors are reported in the order dependencies, steps, quantities, volumes, secrets.
\<close>

theorem from_yaml_error_justified:
  assumes "parse yaml = Inr p" and "from_yaml parse yaml = Inl e"
  shows "error_explains p e"
  using assms
  by (auto simp: from_yaml_def and_then_Inl_iff ok_iff intro: validation_errors)

text \<open>
  Claim C28. The byte scanner \<open>is_valid_quantity\<close> accepts exactly the grammar of Kubernetes
  quantities: an optional sign, a decimal number with at most one dot and at least one digit, and
  then nothing, one of the units n u m k K M G T P E, a binary unit Ki to Ei, or an exponent.
\<close>

theorem is_valid_quantity_iff_grammar: "is_valid_quantity s = quantity_grammar s"
  by (rule is_valid_quantity_grammar)

text \<open>
  Claim C40. The description of a node merges the pipeline level with the node level: for the
  environment the value of the node wins, the environment secrets are the union of both lists in
  sorted order without repetition, and the file secrets hold one entry per name in strictly
  increasing order, taken from the last node-level declaration of the name if there is one and
  from the last pipeline-level declaration otherwise.
\<close>

theorem node_info_merge:
  assumes "hm_wf (pn_env n)"
  shows "hm_get (ni_env (node_info_of p n)) k =
      (case hm_get (pn_env n) k of None \<Rightarrow> hm_get (pl_env p) k | Some v \<Rightarrow> Some v) \<and>
    set (ni_env_secrets (node_info_of p n)) =
      set (secrets_env (pl_secrets p)) \<union> set (secrets_env (pn_secrets n)) \<and>
    sorted (ni_env_secrets (node_info_of p n)) \<and> distinct (ni_env_secrets (node_info_of p n)) \<and>
    sorted_wrt (<) (map fs_name (ni_file_secrets (node_info_of p n))) \<and>
    find (\<lambda>f. fs_name f = k) (ni_file_secrets (node_info_of p n)) =
      map_option file_secret_spec_of (find (\<lambda>f. file_secret_name f = k)
        (rev (secrets_files (pn_secrets n)) @ rev (secrets_files (pl_secrets p))))"
  using assms
  by (simp add: node_info_of_def hm_get_extend_wf merge_env_secrets_set merge_env_secrets_sorted
      merge_env_secrets_distinct merge_file_secrets_sorted merge_file_secrets_lookup)

text \<open>
  Push triggers, from the YAML fields to the decision: a push to a branch starts the
  pipeline when neither filter is written, or when \<open>branches\<close> is written and is null, empty or
  lists the branch; a push of a tag likewise with \<open>tags\<close>. In particular a filter on tags only
  never starts on a branch push, and a push that is neither starts only without filters.
\<close>

theorem push_trigger_decision:
  "(refs_match_push (decode_refs bs ts) (Some b) tag \<longleftrightarrow>
      bs = Absent \<and> ts = Absent \<or> bs = Null \<or> (\<exists>xs. bs = Present xs \<and> (xs = [] \<or> b \<in> set xs))) \<and>
   (refs_match_push (decode_refs bs ts) None (Some t) \<longleftrightarrow>
      bs = Absent \<and> ts = Absent \<or> ts = Null \<or> (\<exists>xs. ts = Present xs \<and> (xs = [] \<or> t \<in> set xs))) \<and>
   (refs_match_push (decode_refs bs ts) None None \<longleftrightarrow> bs = Absent \<and> ts = Absent)"
  by (cases bs; cases ts) (auto simp: refs_match_push_def decode_refs_def serde_field_def
      deserialize_ref_filter_def ref_filter_matches_def list_ex_iff)

text \<open>
  The overlap check for mount paths compares raw segments, so a trailing slash
  defeats it: \<open>/etc/\<close> is accepted although \<open>/etc\<close> is rejected, and the root \<open>/\<close> is accepted
  although every reserved mount lies below it.
\<close>

theorem trailing_slash_mount_accepted:
  "validate_node_volumes node [] [(''v'', ''/etc/'')] = Inr () \<and>
   (\<exists>reason. validate_node_volumes node [] [(''v'', ''/etc'')] = Inl (InvalidVolume node ''v'' reason)) \<and>
   validate_node_volumes node [] [(''v'', ''/'')] = Inr ()"
  by (simp add: is_valid_dns1123_label_def is_label_alnum_def is_ascii_lowercase_def
      is_ascii_digit_def RESERVED_VOLUME_NAMES_def RESERVED_MOUNT_PATHS_def is_reserved_path_def
      starts_with_def)

section \<open>Witnesses\<close>

abbreviation no_secrets :: secrets where
  "no_secrets \<equiv> \<lparr> secrets_env = [], secrets_files = [] \<rparr>"

abbreviation plain_node :: "string \<Rightarrow> string list \<Rightarrow> pipeline_node" where
  "plain_node nm deps \<equiv>
    \<lparr> pn_name = nm, pn_image = None, pn_timeout_secs = None, pn_startup_timeout_secs = None,
      pn_checkout = None, pn_after = deps, pn_env = [], pn_secrets = no_secrets,
      pn_steps = [Inline ''true''], pn_privileged = False, pn_cache_size = None, pn_cpu = None,
      pn_memory = None, pn_volumes = [] \<rparr>"

abbreviation plain_pipeline :: "pipeline_node list \<Rightarrow> pipeline" where
  "plain_pipeline nodes \<equiv>
    \<lparr> pl_name = ''p'', pl_timeout_secs = None, pl_fail_fast = None, pl_on = None, pl_env = [],
      pl_secrets = no_secrets, pl_nodes = nodes \<rparr>"

theorem from_yaml_error_justified_witness:
  "error_explains (plain_pipeline [plain_node ''a'' [''b'']]) (UnknownDependency ''a'' ''b'')"
  by (rule from_yaml_error_justified[of "\<lambda>_. Inr (plain_pipeline [plain_node ''a'' [''b'']])" "[]"])
    (simp_all add: from_yaml_def validate_dependencies_def validate_node_dependency_def)

theorem node_info_merge_witness:
  "hm_get (ni_env (node_info_of ((plain_pipeline [])\<lparr>pl_env := [(''A'', ''1''), (''B'', ''2'')]\<rparr>)
      ((plain_node ''n'' [])\<lparr>pn_env := [(''A'', ''3'')]\<rparr>))) ''A'' = Some ''3''"
  using node_info_merge[of "(plain_node ''n'' [])\<lparr>pn_env := [(''A'', ''3'')]\<rparr>"
      "(plain_pipeline [])\<lparr>pl_env := [(''A'', ''1''), (''B'', ''2'')]\<rparr>" "''A''"]
  by (simp add: hm_wf_def hm_get_def)

end
