(* ===== verification/StateStore.thy ===== *)
theory StateStore
  imports Pipelines
begin

text \<open>
  The run-state store, \<open>src/state_store/src/lib.rs\<close>. The trait \<open>StateStore\<close> is the record
  \<open>state_store_ops\<close> of operations on an arbitrary world; its two implementations are
  \<open>InMemoryStateStore\<close> (\<open>mem_state_store\<close>) and \<open>RedisStateStore\<close> (\<open>redis_state_store\<close>). The
  Redis server and the JSON codecs are third-party code: they are the record \<open>redis_server\<close>, and
  what the store relies on is \<open>redis_laws\<close>. Values in Redis are opaque (type \<open>'v\<close>).

  The contract of the trait is the locale \<open>state_store\<close>: every operation implements the abstract
  store of compare-and-swap runs and exclusive leases. Both implementations are shown to satisfy
  it. The last part follows arbitrary interleavings of operations of many servers.
\<close>

section \<open>Data\<close>

datatype node_status = Pending | Running | Success | Failed

record run_state =
  rs_version :: u64
  rs_statuses :: "(string, node_status) hashmap"
  rs_dependencies :: "(string, string list) hashmap"
  rs_pipeline :: pipeline

record lease_data =
  ld_version :: u64
  ld_server_id :: string

datatype state_store_error =
    RedisFailure string
  | PoolFailure string
  | SerializationFailure string
  | StoreFailure string
  | RuntimeFailure string

text \<open>The trait object \<open>Arc<dyn StateStore>\<close>.\<close>

record 'w state_store_ops =
  ss_save_run :: "string \<Rightarrow> run_state \<Rightarrow> u64 \<Rightarrow> ('w, state_store_error + bool) state"
  ss_load_run :: "string \<Rightarrow> ('w, state_store_error + run_state option) state"
  ss_delete_run :: "string \<Rightarrow> ('w, state_store_error + unit) state"
  ss_try_acquire_lease :: "string \<Rightarrow> string \<Rightarrow> u64 \<Rightarrow> ('w, state_store_error + u64 option) state"
  ss_renew_lease :: "string \<Rightarrow> string \<Rightarrow> u64 \<Rightarrow> u64 \<Rightarrow> ('w, state_store_error + bool) state"
  ss_release_lease :: "string \<Rightarrow> ('w, state_store_error + unit) state"
  ss_get_orphaned_runs :: "('w, state_store_error + string list) state"
  ss_list_terminal_unleased_runs :: "('w, state_store_error + string list) state"
  ss_ping :: "('w, state_store_error + unit) state"

definition run_state_is_terminal :: "run_state \<Rightarrow> bool" where
  "run_state_is_terminal s =
    (if list_ex (\<lambda>st. st = Running) (hm_values (rs_statuses s)) then False
     else \<not> list_ex (\<lambda>(node, deps).
        hm_get (rs_statuses s) node = Some Pending \<and>
        list_all (\<lambda>d. hm_get (rs_statuses s) d = Some Success) deps) (rs_dependencies s))"

definition state_key :: "string \<Rightarrow> string" where
  "state_key run_id = ''jefferies:run:'' @ run_id @ '':state''"

definition lease_key :: "string \<Rightarrow> string" where
  "lease_key run_id = ''jefferies:run:'' @ run_id @ '':lease''"

section \<open>The in-memory store\<close>

record in_memory_state_store =
  mem_runs :: "(string, run_state) hashmap"
  mem_leases :: "(string, lease_data) hashmap"
  mem_lease_counter :: u64

definition mem_new :: in_memory_state_store where
  "mem_new = \<lparr> mem_runs = [], mem_leases = [], mem_lease_counter = 0 \<rparr>"

type_synonym 'a mem_io = "(in_memory_state_store, state_store_error + 'a) state"

definition mem_save_run :: "string \<Rightarrow> run_state \<Rightarrow> u64 \<Rightarrow> bool mem_io" where
  "mem_save_run run_id s expected_version = State (\<lambda>w.
    let insert_entry = (Inr True, w\<lparr>mem_runs := hm_insert run_id s (mem_runs w)\<rparr>) in
    (case hm_get (mem_runs w) run_id of
       Some entry \<Rightarrow> if rs_version entry \<noteq> expected_version then (Inr False, w) else insert_entry
     | None \<Rightarrow> if expected_version \<noteq> 0 then (Inr False, w) else insert_entry))"

definition mem_load_run :: "string \<Rightarrow> run_state option mem_io" where
  "mem_load_run run_id = State (\<lambda>w. (Inr (hm_get (mem_runs w) run_id), w))"

definition mem_delete_run :: "string \<Rightarrow> unit mem_io" where
  "mem_delete_run run_id = State (\<lambda>w. (Inr (), w\<lparr>mem_runs := hm_remove run_id (mem_runs w)\<rparr>))"

definition mem_try_acquire_lease :: "string \<Rightarrow> string \<Rightarrow> u64 \<Rightarrow> u64 option mem_io" where
  "mem_try_acquire_lease run_id server_id ttl_secs = State (\<lambda>w.
    if hm_contains_key (mem_leases w) run_id then (Inr None, w)
    else
      let version = mem_lease_counter w + 1;
          entry = \<lparr> ld_version = version, ld_server_id = server_id \<rparr>
      in (Inr (Some version),
          w\<lparr>mem_lease_counter := version, mem_leases := hm_insert run_id entry (mem_leases w)\<rparr>))"

definition mem_renew_lease :: "string \<Rightarrow> string \<Rightarrow> u64 \<Rightarrow> u64 \<Rightarrow> bool mem_io" where
  "mem_renew_lease run_id server_id lease_version ttl_secs = State (\<lambda>w.
    (Inr (case hm_get (mem_leases w) run_id of
       Some entry \<Rightarrow> ld_server_id entry = server_id \<and> ld_version entry = lease_version
     | None \<Rightarrow> False), w))"

definition mem_release_lease :: "string \<Rightarrow> unit mem_io" where
  "mem_release_lease run_id = State (\<lambda>w. (Inr (), w\<lparr>mem_leases := hm_remove run_id (mem_leases w)\<rparr>))"

definition mem_get_orphaned_runs :: "string list mem_io" where
  "mem_get_orphaned_runs = State (\<lambda>w.
    (Inr (map fst (filter (\<lambda>(run_id, entry).
      \<not> run_state_is_terminal entry \<and> \<not> hm_contains_key (mem_leases w) run_id) (mem_runs w))), w))"

definition mem_list_terminal_unleased_runs :: "string list mem_io" where
  "mem_list_terminal_unleased_runs = State (\<lambda>w.
    (Inr (map fst (filter (\<lambda>(run_id, entry).
      run_state_is_terminal entry \<and> \<not> hm_contains_key (mem_leases w) run_id) (mem_runs w))), w))"

definition mem_ping :: "unit mem_io" where
  "mem_ping = State_Monad.return (Inr ())"

definition mem_state_store :: "in_memory_state_store state_store_ops" where
  "mem_state_store =
    \<lparr> ss_save_run = mem_save_run, ss_load_run = mem_load_run, ss_delete_run = mem_delete_run,
      ss_try_acquire_lease = mem_try_acquire_lease, ss_renew_lease = mem_renew_lease,
      ss_release_lease = mem_release_lease, ss_get_orphaned_runs = mem_get_orphaned_runs,
      ss_list_terminal_unleased_runs = mem_list_terminal_unleased_runs, ss_ping = mem_ping \<rparr>"

section \<open>The Redis store\<close>

text \<open>
  The commands of the server, the connection pool, the JSON codec of \<open>serde_json\<close> and the
  Lua functions of the scripts. \<open>rd_tonumber\<close> is \<open>tonumber\<close> on a decimal \<open>u64\<close> argument, and
  \<open>rd_cjson_decode\<close> gives the fields \<open>version\<close> and \<open>server_id\<close> of a decoded object; Lua numbers
  are doubles, so both may round.
\<close>

record ('r, 'v) redis_server =
  rd_pool_get :: "('r, state_store_error + unit) state"
  rd_get :: "string \<Rightarrow> ('r, state_store_error + 'v option) state"
  rd_set :: "string \<Rightarrow> 'v \<Rightarrow> ('r, state_store_error + unit) state"
  rd_del :: "string \<Rightarrow> ('r, state_store_error + int) state"
  rd_incr :: "string \<Rightarrow> ('r, state_store_error + int) state"
  rd_expire :: "string \<Rightarrow> u64 \<Rightarrow> ('r, state_store_error + int) state"
  rd_exists :: "string \<Rightarrow> ('r, state_store_error + int) state"
  rd_keys :: "string \<Rightarrow> ('r, state_store_error + string list) state"
  rd_ping :: "('r, state_store_error + string) state"
  rd_to_json :: "run_state \<Rightarrow> state_store_error + 'v"
  rd_from_json :: "'v \<Rightarrow> state_store_error + run_state"
  rd_tonumber :: "u64 \<Rightarrow> int"
  rd_cjson_encode :: "int \<Rightarrow> string \<Rightarrow> 'v"
  rd_cjson_decode :: "'v \<Rightarrow> state_store_error + (int \<times> string)"

text \<open>The Lua script of \<open>save_run\<close>, then the Rust code around it.\<close>

definition save_run_script ::
  "('r, 'v) redis_server \<Rightarrow> string \<Rightarrow> 'v \<Rightarrow> u64 \<Rightarrow> ('r, state_store_error + int) state" where
  "save_run_script rd key value expected =
    bind_ok (rd_get rd key) (\<lambda>current.
      case current of
        None \<Rightarrow>
          if rd_tonumber rd expected = 0
          then bind_ok (rd_set rd key value) (\<lambda>_. State_Monad.return (Inr 1))
          else State_Monad.return (Inr 0)
      | Some cur \<Rightarrow>
          (case rd_cjson_decode rd cur of
             Inl e \<Rightarrow> State_Monad.return (Inl e)
           | Inr (version, _) \<Rightarrow>
               if version = rd_tonumber rd expected
               then bind_ok (rd_set rd key value) (\<lambda>_. State_Monad.return (Inr 1))
               else State_Monad.return (Inr 0)))"

definition redis_save_run ::
  "('r, 'v) redis_server \<Rightarrow> string \<Rightarrow> run_state \<Rightarrow> u64 \<Rightarrow> ('r, state_store_error + bool) state" where
  "redis_save_run rd run_id s expected_version =
    bind_ok (rd_pool_get rd) (\<lambda>_.
      case rd_to_json rd s of
        Inl e \<Rightarrow> State_Monad.return (Inl e)
      | Inr value \<Rightarrow>
          bind_ok (save_run_script rd (state_key run_id) value expected_version)
            (\<lambda>result. State_Monad.return (Inr (result = 1))))"

definition redis_load_run ::
  "('r, 'v) redis_server \<Rightarrow> string \<Rightarrow> ('r, state_store_error + run_state option) state" where
  "redis_load_run rd run_id =
    bind_ok (rd_pool_get rd) (\<lambda>_.
      bind_ok (rd_get rd (state_key run_id)) (\<lambda>value.
        State_Monad.return (case value of
          Some json \<Rightarrow> map_sum id Some (rd_from_json rd json)
        | None \<Rightarrow> Inr None)))"

definition redis_delete_run :: "('r, 'v) redis_server \<Rightarrow> string \<Rightarrow> ('r, state_store_error + unit) state" where
  "redis_delete_run rd run_id =
    bind_ok (rd_pool_get rd) (\<lambda>_.
      bind_ok (rd_del rd (state_key run_id)) (\<lambda>_. State_Monad.return (Inr ())))"

definition acquire_script ::
  "('r, 'v) redis_server \<Rightarrow> string \<Rightarrow> string \<Rightarrow> u64 \<Rightarrow> ('r, state_store_error + int option) state" where
  "acquire_script rd key server_id ttl_secs =
    bind_ok (rd_get rd key) (\<lambda>existing.
      if existing \<noteq> None then State_Monad.return (Inr None)
      else bind_ok (rd_incr rd (key @ '':ver'')) (\<lambda>version.
        bind_ok (rd_set rd key (rd_cjson_encode rd version server_id)) (\<lambda>_.
        bind_ok (rd_expire rd key ttl_secs) (\<lambda>_. State_Monad.return (Inr (Some version))))))"

definition redis_try_acquire_lease ::
  "('r, 'v) redis_server \<Rightarrow> string \<Rightarrow> string \<Rightarrow> u64 \<Rightarrow> ('r, state_store_error + u64 option) state" where
  "redis_try_acquire_lease rd run_id server_id ttl_secs =
    bind_ok (rd_pool_get rd) (\<lambda>_.
      bind_ok (acquire_script rd (lease_key run_id) server_id ttl_secs) (\<lambda>result.
        State_Monad.return (Inr (map_option word_of_int result))))"

definition renew_script ::
  "('r, 'v) redis_server \<Rightarrow> string \<Rightarrow> string \<Rightarrow> u64 \<Rightarrow> u64 \<Rightarrow> ('r, state_store_error + int) state" where
  "renew_script rd key server_id lease_version ttl_secs =
    bind_ok (rd_get rd key) (\<lambda>current.
      case current of
        None \<Rightarrow> State_Monad.return (Inr 0)
      | Some cur \<Rightarrow>
          (case rd_cjson_decode rd cur of
             Inl e \<Rightarrow> State_Monad.return (Inl e)
           | Inr (version, owner) \<Rightarrow>
               if owner = server_id \<and> version = rd_tonumber rd lease_version
               then bind_ok (rd_expire rd key ttl_secs) (\<lambda>_. State_Monad.return (Inr 1))
               else State_Monad.return (Inr 0)))"

definition redis_renew_lease ::
  "('r, 'v) redis_server \<Rightarrow> string \<Rightarrow> string \<Rightarrow> u64 \<Rightarrow> u64 \<Rightarrow> ('r, state_store_error + bool) state" where
  "redis_renew_lease rd run_id server_id lease_version ttl_secs =
    bind_ok (rd_pool_get rd) (\<lambda>_.
      bind_ok (renew_script rd (lease_key run_id) server_id lease_version ttl_secs) (\<lambda>result.
        State_Monad.return (Inr (result = 1))))"

definition redis_release_lease :: "('r, 'v) redis_server \<Rightarrow> string \<Rightarrow> ('r, state_store_error + unit) state" where
  "redis_release_lease rd run_id =
    bind_ok (rd_pool_get rd) (\<lambda>_.
      bind_ok (rd_del rd (lease_key run_id)) (\<lambda>_. State_Monad.return (Inr ())))"

text \<open>
  The two scans share their loop; \<open>want\<close> is the terminal flag they look for. A missing key and a
  value that does not decode are skipped, and a failing \<open>EXISTS\<close> counts as no lease.
\<close>

fun scan_runs ::
  "('r, 'v) redis_server \<Rightarrow> bool \<Rightarrow> string list \<Rightarrow> string list \<Rightarrow> ('r, state_store_error + string list) state"
where
  "scan_runs rd want found [] = State_Monad.return (Inr found)"
| "scan_runs rd want found (key # ks) =
    (let parts = split_on (CHR '':'') key in
     if length parts < 4 then scan_runs rd want found ks
     else
       let run_id = parts ! 2 in
       bind_ok (rd_get rd key) (\<lambda>value.
         case value of
           None \<Rightarrow> scan_runs rd want found ks
         | Some json \<Rightarrow>
             (case rd_from_json rd json of
                Inl _ \<Rightarrow> scan_runs rd want found ks
              | Inr s \<Rightarrow>
                  if run_state_is_terminal s \<noteq> want then scan_runs rd want found ks
                  else do {
                    r \<leftarrow> rd_exists rd (lease_key run_id);
                    let lease_exists = (case r of Inl _ \<Rightarrow> False | Inr n \<Rightarrow> 0 < n);
                    scan_runs rd want (if lease_exists then found else found @ [run_id]) ks
                  })))"

definition redis_get_orphaned_runs :: "('r, 'v) redis_server \<Rightarrow> ('r, state_store_error + string list) state" where
  "redis_get_orphaned_runs rd =
    bind_ok (rd_pool_get rd) (\<lambda>_.
      bind_ok (rd_keys rd ''jefferies:run:*:state'') (\<lambda>ks. scan_runs rd False [] ks))"

definition redis_list_terminal_unleased_runs ::
  "('r, 'v) redis_server \<Rightarrow> ('r, state_store_error + string list) state" where
  "redis_list_terminal_unleased_runs rd =
    bind_ok (rd_pool_get rd) (\<lambda>_.
      bind_ok (rd_keys rd ''jefferies:run:*:state'') (\<lambda>ks. scan_runs rd True [] ks))"

definition redis_ping :: "('r, 'v) redis_server \<Rightarrow> ('r, state_store_error + unit) state" where
  "redis_ping rd =
    bind_ok (rd_pool_get rd) (\<lambda>_. bind_ok (rd_ping rd) (\<lambda>_. State_Monad.return (Inr ())))"

definition redis_state_store :: "('r, 'v) redis_server \<Rightarrow> 'r state_store_ops" where
  "redis_state_store rd =
    \<lparr> ss_save_run = redis_save_run rd, ss_load_run = redis_load_run rd,
      ss_delete_run = redis_delete_run rd, ss_try_acquire_lease = redis_try_acquire_lease rd,
      ss_renew_lease = redis_renew_lease rd, ss_release_lease = redis_release_lease rd,
      ss_get_orphaned_runs = redis_get_orphaned_runs rd,
      ss_list_terminal_unleased_runs = redis_list_terminal_unleased_runs rd, ss_ping = redis_ping rd \<rparr>"

section \<open>The contract of the trait\<close>

text \<open>
  The abstract store: runs that are replaced by compare-and-swap on their version, one lease per
  run, and per run an upper bound of the lease versions handed out so far.
\<close>

record abs_store =
  as_runs :: "string \<rightharpoonup> run_state"
  as_leases :: "string \<rightharpoonup> lease_data"
  as_issued :: "string \<Rightarrow> nat"

definition stored_version :: "abs_store \<Rightarrow> string \<Rightarrow> u64" where
  "stored_version a run_id = (case as_runs a run_id of Some s \<Rightarrow> rs_version s | None \<Rightarrow> 0)"

text \<open>
  A state that went through the JSON codec is the same up to the iteration order of its hash maps.
\<close>

definition same_map :: "('k, 'v) hashmap \<Rightarrow> ('k, 'v) hashmap \<Rightarrow> bool" where
  "same_map m n \<longleftrightarrow> hm_get n = hm_get m \<and> (hm_wf m \<longrightarrow> hm_wf n)"

definition same_node :: "pipeline_node \<Rightarrow> pipeline_node \<Rightarrow> bool" where
  "same_node m n \<longleftrightarrow> same_map (pn_env m) (pn_env n) \<and> same_map (pn_volumes m) (pn_volumes n) \<and>
    n\<lparr>pn_env := [], pn_volumes := []\<rparr> = m\<lparr>pn_env := [], pn_volumes := []\<rparr>"

definition same_pipeline :: "pipeline \<Rightarrow> pipeline \<Rightarrow> bool" where
  "same_pipeline p q \<longleftrightarrow> same_map (pl_env p) (pl_env q) \<and> list_all2 same_node (pl_nodes p) (pl_nodes q) \<and>
    q\<lparr>pl_env := [], pl_nodes := []\<rparr> = p\<lparr>pl_env := [], pl_nodes := []\<rparr>"

definition same_run :: "run_state \<Rightarrow> run_state \<Rightarrow> bool" where
  "same_run s t \<longleftrightarrow> rs_version t = rs_version s \<and> same_map (rs_statuses s) (rs_statuses t) \<and>
    same_map (rs_dependencies s) (rs_dependencies t) \<and> same_pipeline (rs_pipeline s) (rs_pipeline t)"

definition spec_save :: "string \<Rightarrow> run_state \<Rightarrow> u64 \<Rightarrow> bool \<Rightarrow> abs_store \<Rightarrow> abs_store \<Rightarrow> bool" where
  "spec_save run_id s expected ok a b \<longleftrightarrow>
    (if stored_version a run_id = expected
     then ok \<and> (\<exists>t. same_run s t \<and> b = a\<lparr>as_runs := (as_runs a)(run_id \<mapsto> t)\<rparr>)
     else \<not> ok \<and> b = a)"

definition spec_acquire :: "string \<Rightarrow> string \<Rightarrow> u64 option \<Rightarrow> abs_store \<Rightarrow> abs_store \<Rightarrow> bool" where
  "spec_acquire run_id server_id r a b \<longleftrightarrow>
    as_runs b = as_runs a \<and>
    (case r of
       None \<Rightarrow> as_leases a run_id \<noteq> None \<and> b = a
     | Some v \<Rightarrow> as_leases a run_id = None \<and>
         as_leases b = (as_leases a)(run_id \<mapsto> \<lparr> ld_version = v, ld_server_id = server_id \<rparr>) \<and>
         as_issued a run_id < unat v \<and> as_issued b run_id = unat v \<and>
         (\<forall>i. as_issued a i \<le> as_issued b i))"

definition spec_unleased :: "bool \<Rightarrow> abs_store \<Rightarrow> string set" where
  "spec_unleased terminal a =
    {i. as_leases a i = None \<and> (\<exists>s. as_runs a i = Some s \<and> run_state_is_terminal s = terminal)}"

text \<open>
  An implementation may fail, and then leaves the abstract store as it is. \<open>inv\<close> is its
  invariant; \<open>ver_ok\<close> and \<open>id_ok\<close> bound the versions and run ids it can represent and \<open>room\<close>
  says that another lease version is available.
\<close>

locale state_store =
  fixes ops :: "'w state_store_ops"
    and abs :: "'w \<Rightarrow> abs_store"
    and inv :: "'w \<Rightarrow> bool"
    and ver_ok :: "u64 \<Rightarrow> bool"
    and id_ok :: "string \<Rightarrow> bool"
    and room :: "string \<Rightarrow> 'w \<Rightarrow> bool"
  assumes save_law:
      "\<lbrakk> inv w; id_ok i; ver_ok (rs_version s); ver_ok v;
         State_Monad.run_state (ss_save_run ops i s v) w = (rs, w') \<rbrakk>
       \<Longrightarrow> inv w' \<and> (case rs of Inl _ \<Rightarrow> abs w' = abs w | Inr b \<Rightarrow> spec_save i s v b (abs w) (abs w'))"
    and load_law:
      "\<lbrakk> inv w; State_Monad.run_state (ss_load_run ops i) w = (rl, w') \<rbrakk>
       \<Longrightarrow> inv w' \<and> abs w' = abs w \<and> (\<forall>x. rl = Inr x \<longrightarrow> x = as_runs (abs w) i)"
    and delete_law:
      "\<lbrakk> inv w; State_Monad.run_state (ss_delete_run ops i) w = (rd, w') \<rbrakk>
       \<Longrightarrow> inv w' \<and> abs w' = (case rd of Inl _ \<Rightarrow> abs w
         | Inr _ \<Rightarrow> (abs w)\<lparr>as_runs := (as_runs (abs w))(i := None)\<rparr>)"
    and acquire_law:
      "\<lbrakk> inv w; room i w; 0 < ttl; State_Monad.run_state (ss_try_acquire_lease ops i sid ttl) w = (ra, w') \<rbrakk>
       \<Longrightarrow> inv w' \<and> (case ra of Inl _ \<Rightarrow> abs w' = abs w | Inr x \<Rightarrow> spec_acquire i sid x (abs w) (abs w'))"
    and renew_law:
      "\<lbrakk> inv w; ver_ok v; 0 < ttl; State_Monad.run_state (ss_renew_lease ops i sid v ttl) w = (rr, w') \<rbrakk>
       \<Longrightarrow> inv w' \<and> abs w' = abs w \<and>
         (\<forall>b. rr = Inr b \<longrightarrow> b = (as_leases (abs w) i = Some \<lparr> ld_version = v, ld_server_id = sid \<rparr>))"
    and release_law:
      "\<lbrakk> inv w; State_Monad.run_state (ss_release_lease ops i) w = (rx, w') \<rbrakk>
       \<Longrightarrow> inv w' \<and> abs w' = (case rx of Inl _ \<Rightarrow> abs w
         | Inr _ \<Rightarrow> (abs w)\<lparr>as_leases := (as_leases (abs w))(i := None)\<rparr>)"
    and orphaned_law:
      "\<lbrakk> inv w; State_Monad.run_state (ss_get_orphaned_runs ops) w = (ro, w') \<rbrakk>
       \<Longrightarrow> inv w' \<and> abs w' = abs w \<and> (\<forall>xs. ro = Inr xs \<longrightarrow> set xs = spec_unleased False (abs w))"
    and terminal_law:
      "\<lbrakk> inv w; State_Monad.run_state (ss_list_terminal_unleased_runs ops) w = (rt, w') \<rbrakk>
       \<Longrightarrow> inv w' \<and> abs w' = abs w \<and> (\<forall>xs. rt = Inr xs \<longrightarrow> set xs = spec_unleased True (abs w))"

section \<open>Interleavings of operations\<close>

text \<open>
  The operations of many servers interleave at the store, which executes them one after the
  other. A history pairs each operation with its reply.
\<close>

datatype store_op =
    SaveOp string run_state u64
  | LoadOp string
  | DeleteOp string
  | AcquireOp string string u64
  | RenewOp string string u64 u64
  | ReleaseOp string

datatype store_reply =
    Saved bool
  | Loaded "run_state option"
  | Leased "u64 option"
  | Renewed bool
  | Done
  | Errored state_store_error

definition reply_of :: "('a \<Rightarrow> store_reply) \<Rightarrow> state_store_error + 'a \<Rightarrow> store_reply" where
  "reply_of f r = (case r of Inl e \<Rightarrow> Errored e | Inr a \<Rightarrow> f a)"

fun perform :: "'w state_store_ops \<Rightarrow> store_op \<Rightarrow> ('w, store_reply) state" where
  "perform ops (SaveOp i s v) = do { r \<leftarrow> ss_save_run ops i s v; State_Monad.return (reply_of Saved r) }"
| "perform ops (LoadOp i) = do { r \<leftarrow> ss_load_run ops i; State_Monad.return (reply_of Loaded r) }"
| "perform ops (DeleteOp i) = do { r \<leftarrow> ss_delete_run ops i; State_Monad.return (reply_of (\<lambda>_. Done) r) }"
| "perform ops (AcquireOp i sid ttl) =
    do { r \<leftarrow> ss_try_acquire_lease ops i sid ttl; State_Monad.return (reply_of Leased r) }"
| "perform ops (RenewOp i sid v ttl) =
    do { r \<leftarrow> ss_renew_lease ops i sid v ttl; State_Monad.return (reply_of Renewed r) }"
| "perform ops (ReleaseOp i) = do { r \<leftarrow> ss_release_lease ops i; State_Monad.return (reply_of (\<lambda>_. Done) r) }"

type_synonym history = "(store_op \<times> store_reply) list"

fun perform_all :: "'w state_store_ops \<Rightarrow> store_op list \<Rightarrow> 'w \<Rightarrow> history \<times> 'w" where
  "perform_all ops [] w = ([], w)"
| "perform_all ops (x # xs) w =
    (case State_Monad.run_state (perform ops x) w of (r, w1) \<Rightarrow>
      case perform_all ops xs w1 of (h, w2) \<Rightarrow> ((x, r) # h, w2))"

text \<open>The expected versions of the accepted saves, and the lease versions granted, of a run.\<close>

fun accepted_saves :: "string \<Rightarrow> history \<Rightarrow> u64 list" where
  "accepted_saves i [] = []"
| "accepted_saves i ((SaveOp j s v, Saved True) # h) =
    (if j = i then v # accepted_saves i h else accepted_saves i h)"
| "accepted_saves i (_ # h) = accepted_saves i h"

fun granted :: "string \<Rightarrow> history \<Rightarrow> u64 list" where
  "granted i [] = []"
| "granted i ((AcquireOp j sid ttl, Leased (Some v)) # h) =
    (if j = i then v # granted i h else granted i h)"
| "granted i (_ # h) = granted i h"

text \<open>The holder of a lease, read off the history alone: the last grant that was not released.\<close>

fun holder_step :: "string \<Rightarrow> lease_data option \<Rightarrow> store_op \<times> store_reply \<Rightarrow> lease_data option" where
  "holder_step i l (AcquireOp j sid ttl, Leased (Some v)) =
    (if j = i then Some \<lparr> ld_version = v, ld_server_id = sid \<rparr> else l)"
| "holder_step i l (ReleaseOp j, Done) = (if j = i then None else l)"
| "holder_step i l _ = l"

definition holder :: "string \<Rightarrow> lease_data option \<Rightarrow> history \<Rightarrow> lease_data option" where
  "holder i l h = foldl (holder_step i) l h"

text \<open>
  The saves of the coordinator expect the version they last wrote and store its successor; lease
  times are positive.
\<close>

fun op_ok :: "(u64 \<Rightarrow> bool) \<Rightarrow> (string \<Rightarrow> bool) \<Rightarrow> store_op \<Rightarrow> bool" where
  "op_ok ver_ok id_ok (SaveOp i s v) \<longleftrightarrow> id_ok i \<and> ver_ok v \<and> ver_ok (rs_version s)"
| "op_ok ver_ok id_ok (AcquireOp i sid ttl) \<longleftrightarrow> 0 < ttl"
| "op_ok ver_ok id_ok (RenewOp i sid v ttl) \<longleftrightarrow> 0 < ttl \<and> ver_ok v"
| "op_ok ver_ok id_ok _ \<longleftrightarrow> True"

fun increments :: "string \<Rightarrow> store_op \<Rightarrow> bool" where
  "increments i (SaveOp j s v) \<longleftrightarrow> j = i \<longrightarrow> rs_version s = v + 1"
| "increments i (DeleteOp j) \<longleftrightarrow> j \<noteq> i"
| "increments i _ \<longleftrightarrow> True"

fun has_room :: "'w state_store_ops \<Rightarrow> (string \<Rightarrow> 'w \<Rightarrow> bool) \<Rightarrow> store_op list \<Rightarrow> 'w \<Rightarrow> bool" where
  "has_room ops room [] w \<longleftrightarrow> True"
| "has_room ops room (x # xs) w \<longleftrightarrow>
    (\<forall>i sid ttl. x = AcquireOp i sid ttl \<longrightarrow> room i w) \<and>
    has_room ops room xs (snd (State_Monad.run_state (perform ops x) w))"

text \<open>The abstract store as a transition system labelled with operations and replies.\<close>

fun abs_step :: "store_op \<Rightarrow> store_reply \<Rightarrow> abs_store \<Rightarrow> abs_store \<Rightarrow> bool" where
  "abs_step x (Errored e) a b \<longleftrightarrow> b = a"
| "abs_step (SaveOp i s v) (Saved ok) a b \<longleftrightarrow> spec_save i s v ok a b"
| "abs_step (LoadOp i) (Loaded q) a b \<longleftrightarrow> b = a \<and> q = as_runs a i"
| "abs_step (DeleteOp i) Done a b \<longleftrightarrow> b = a\<lparr>as_runs := (as_runs a)(i := None)\<rparr>"
| "abs_step (AcquireOp i sid ttl) (Leased q) a b \<longleftrightarrow> spec_acquire i sid q a b"
| "abs_step (RenewOp i sid v ttl) (Renewed ok) a b \<longleftrightarrow>
    b = a \<and> ok = (as_leases a i = Some \<lparr> ld_version = v, ld_server_id = sid \<rparr>)"
| "abs_step (ReleaseOp i) Done a b \<longleftrightarrow> b = a\<lparr>as_leases := (as_leases a)(i := None)\<rparr>"
| "abs_step _ _ a b \<longleftrightarrow> False"

inductive abs_run :: "history \<Rightarrow> abs_store \<Rightarrow> abs_store \<Rightarrow> bool" where
  abs_run_Nil: "abs_run [] a a"
| abs_run_Cons: "\<lbrakk> abs_step x r a b; abs_run h b c \<rbrakk> \<Longrightarrow> abs_run ((x, r) # h) a c"

inductive_cases abs_run_ConsE: "abs_run ((x, r) # h) a c"
inductive_simps abs_run_Nil_iff [simp]: "abs_run [] a b"

lemma abs_step_holder: "abs_step x r a b \<Longrightarrow> as_leases b i = holder_step i (as_leases a i) (x, r)"
  by (induction x r a b rule: abs_step.induct)
    (auto simp: spec_save_def spec_acquire_def split: option.splits if_splits)

lemma abs_step_version:
  assumes "abs_step x r a b" "increments i x"
  shows "(\<exists>s. x = SaveOp i s (stored_version a i) \<and> r = Saved True \<and>
      stored_version b i = stored_version a i + 1) \<or>
    accepted_saves i ((x, r) # h) = accepted_saves i h \<and> stored_version b i = stored_version a i"
  using assms
  by (induction x r a b rule: abs_step.induct)
    (auto simp: spec_save_def spec_acquire_def stored_version_def same_run_def
      split: option.splits if_splits)

lemma abs_step_issued:
  assumes "abs_step x r a b"
  shows "(\<exists>sid ttl v. x = AcquireOp i sid ttl \<and> r = Leased (Some v) \<and>
      as_issued a i < unat v \<and> as_issued b i = unat v) \<or>
    granted i ((x, r) # h) = granted i h \<and> as_issued a i \<le> as_issued b i"
  using assms
  by (induction x r a b rule: abs_step.induct)
    (auto simp: spec_save_def spec_acquire_def split: option.splits if_splits)

lemma abs_run_holder: "abs_run h a b \<Longrightarrow> as_leases b i = holder i (as_leases a i) h"
  by (induction rule: abs_run.induct) (auto simp: holder_def abs_step_holder)

lemma abs_run_versions:
  assumes "abs_run h a b" "\<forall>(x, r)\<in>set h. increments i x"
  shows "accepted_saves i h = map (\<lambda>n. stored_version a i + of_nat n) [0..<length (accepted_saves i h)] \<and>
    stored_version b i = stored_version a i + of_nat (length (accepted_saves i h))"
  using assms
proof (induction rule: abs_run.induct)
  case (abs_run_Nil a)
  then show ?case by simp
next
  case (abs_run_Cons x r a b h c)
  then have IH: "accepted_saves i h = map (\<lambda>n. stored_version b i + of_nat n) [0..<length (accepted_saves i h)]"
      "stored_version c i = stored_version b i + of_nat (length (accepted_saves i h))" by auto
  from abs_run_Cons.prems have "increments i x" by auto
  from abs_step_version[OF abs_run_Cons.hyps(1) this, of h] show ?case
  proof
    assume "\<exists>s. x = SaveOp i s (stored_version a i) \<and> r = Saved True \<and>
      stored_version b i = stored_version a i + 1"
    then obtain s where x: "x = SaveOp i s (stored_version a i)" "r = Saved True"
      and b: "stored_version b i = stored_version a i + 1" by blast
    have "map (\<lambda>n. stored_version a i + of_nat n) [0..<Suc (length (accepted_saves i h))] =
      stored_version a i # map (\<lambda>n. stored_version b i + of_nat n) [0..<length (accepted_saves i h)]"
      by (simp only: upt_conv_Cons zero_less_Suc map_Suc_upt[symmetric] list.map o_def)
        (simp add: b comp_def algebra_simps)
    with IH x b show ?thesis by (simp add: algebra_simps del: upt_Suc)
  qed (use IH in simp)
qed

lemma abs_run_granted:
  assumes "abs_run h a b"
  shows "sorted_wrt (<) (map unat (granted i h)) \<and> (\<forall>v\<in>set (granted i h). as_issued a i < unat v)"
  using assms
proof (induction rule: abs_run.induct)
  case (abs_run_Nil a)
  then show ?case by simp
next
  case (abs_run_Cons x r a b h c)
  from abs_step_issued[OF abs_run_Cons.hyps(1), of i h] abs_run_Cons.IH show ?case
    by (auto intro: order.strict_trans order.strict_trans1 dest: bspec)
qed

text \<open>The replies of an implementation are replies of the abstract store.\<close>

context state_store
begin

lemma perform_refines:
  assumes "inv w" "op_ok ver_ok id_ok x" "\<And>i sid ttl. x = AcquireOp i sid ttl \<Longrightarrow> room i w"
    and run: "State_Monad.run_state (perform ops x) w = (r, w')"
  shows "inv w' \<and> abs_step x r (abs w) (abs w')"
proof (cases x)
  case (SaveOp i s v)
  with run obtain q where q: "State_Monad.run_state (ss_save_run ops i s v) w = (q, w')" "r = reply_of Saved q"
    by (auto split: prod.splits)
  with save_law[OF assms(1) _ _ _ q(1)] q(2) SaveOp assms(2,3) show ?thesis
    by (cases q) (auto simp: reply_of_def)
next
  case (LoadOp i)
  with run obtain q where q: "State_Monad.run_state (ss_load_run ops i) w = (q, w')" "r = reply_of Loaded q"
    by (auto split: prod.splits)
  with load_law[OF assms(1) q(1)] q(2) LoadOp assms(2,3) show ?thesis
    by (cases q) (auto simp: reply_of_def)
next
  case (DeleteOp i)
  with run obtain q where q: "State_Monad.run_state (ss_delete_run ops i) w = (q, w')" "r = reply_of (\<lambda>_. Done) q"
    by (auto split: prod.splits)
  with delete_law[OF assms(1) q(1)] q(2) DeleteOp assms(2,3) show ?thesis
    by (cases q) (auto simp: reply_of_def)
next
  case (AcquireOp i sid ttl)
  with run obtain q where q: "State_Monad.run_state (ss_try_acquire_lease ops i sid ttl) w = (q, w')" "r = reply_of Leased q"
    by (auto split: prod.splits)
  with acquire_law[OF assms(1) _ _ q(1)] q(2) AcquireOp assms(2,3) show ?thesis
    by (cases q) (auto simp: reply_of_def)
next
  case (RenewOp i sid v ttl)
  with run obtain q where q: "State_Monad.run_state (ss_renew_lease ops i sid v ttl) w = (q, w')" "r = reply_of Renewed q"
    by (auto split: prod.splits)
  with renew_law[OF assms(1) _ _ q(1)] q(2) RenewOp assms(2,3) show ?thesis
    by (cases q) (auto simp: reply_of_def)
next
  case (ReleaseOp i)
  with run obtain q where q: "State_Monad.run_state (ss_release_lease ops i) w = (q, w')" "r = reply_of (\<lambda>_. Done) q"
    by (auto split: prod.splits)
  with release_law[OF assms(1) q(1)] q(2) ReleaseOp assms(2,3) show ?thesis
    by (cases q) (auto simp: reply_of_def)
qed

lemma perform_all_refines:
  assumes "inv w" "\<forall>x\<in>set xs. op_ok ver_ok id_ok x" "has_room ops room xs w"
    and "perform_all ops xs w = (h, w')"
  shows "inv w' \<and> map fst h = xs \<and> abs_run h (abs w) (abs w')"
  using assms
proof (induction xs arbitrary: w h)
  case Nil
  then show ?case by simp
next
  case (Cons x xs)
  obtain r w1 where x: "State_Monad.run_state (perform ops x) w = (r, w1)" by force
  obtain h2 w2 where xs: "perform_all ops xs w1 = (h2, w2)" by force
  from Cons.prems x xs have h: "h = (x, r) # h2" "w' = w2" by auto
  from Cons.prems perform_refines[OF _ _ _ x] have "inv w1" "abs_step x r (abs w) (abs w1)" by auto
  with Cons.IH[of w1 h2] Cons.prems x xs h show ?case by (auto intro: abs_run_Cons)
qed

lemma leases_follow_history:
  assumes "inv w" "\<forall>x\<in>set xs. op_ok ver_ok id_ok x" "has_room ops room xs w"
    and "perform_all ops xs w = (h, w')"
  shows "as_leases (abs w') i = holder i (as_leases (abs w) i) h"
    and "sorted_wrt (<) (map unat (granted i h))"
  using perform_all_refines[OF assms] abs_run_holder abs_run_granted by blast+

lemma saves_are_consecutive:
  assumes "inv w" "\<forall>x\<in>set xs. op_ok ver_ok id_ok x" "has_room ops room xs w"
    and "perform_all ops xs w = (h, w')" and "\<forall>x\<in>set xs. increments i x"
  shows "accepted_saves i h =
    map (\<lambda>n. stored_version (abs w) i + of_nat n) [0..<length (accepted_saves i h)]"
proof -
  from perform_all_refines[OF assms(1-4)] have run: "abs_run h (abs w) (abs w')" and "map fst h = xs"
    by auto
  with assms(5) have "\<forall>(x, r)\<in>set h. increments i x" by force
  with abs_run_versions[OF run] show ?thesis by blast
qed

end

section \<open>The in-memory store satisfies the contract\<close>

definition mem_abs :: "in_memory_state_store \<Rightarrow> abs_store" where
  "mem_abs w = \<lparr> as_runs = hm_get (mem_runs w), as_leases = hm_get (mem_leases w),
    as_issued = (\<lambda>_. unat (mem_lease_counter w)) \<rparr>"

definition mem_inv :: "in_memory_state_store \<Rightarrow> bool" where
  "mem_inv w \<longleftrightarrow> hm_wf (mem_runs w) \<and> hm_wf (mem_leases w)"

definition mem_room :: "string \<Rightarrow> in_memory_state_store \<Rightarrow> bool" where
  "mem_room i w \<longleftrightarrow> unat (mem_lease_counter w) + 1 < 2 ^ 64"

lemma same_map_refl [simp]: "same_map m m"
  by (simp add: same_map_def)

lemma same_pipeline_refl [simp]: "same_pipeline p p"
  by (simp add: same_pipeline_def same_node_def list_all2_refl)

lemma same_run_refl [simp]: "same_run s s"
  by (simp add: same_run_def)

lemma hm_get_fun_insert: "hm_get (hm_insert k v m) = (hm_get m)(k \<mapsto> v)"
  by (simp add: fun_eq_iff)

lemma hm_get_fun_remove: "hm_get (hm_remove k m) = (hm_get m)(k := None)"
  by (simp add: fun_eq_iff)

lemma unat_counter_Suc: "unat (c :: u64) + 1 < 2 ^ 64 \<Longrightarrow> unat (c + 1) = unat c + 1"
  by (simp add: unat_word_ariths)

lemma mem_scan: "hm_wf m \<Longrightarrow>
  set (map fst (filter (\<lambda>(i, s). run_state_is_terminal s = t \<and> \<not> hm_contains_key l i) m)) =
  {i. hm_get l i = None \<and> (\<exists>s. hm_get m i = Some s \<and> run_state_is_terminal s = t)}"
  by (force simp: hm_get_in_set hm_contains_key_get)

lemmas mem_op_defs = mem_save_run_def mem_load_run_def mem_delete_run_def mem_try_acquire_lease_def
  mem_renew_lease_def mem_release_lease_def mem_get_orphaned_runs_def
  mem_list_terminal_unleased_runs_def

interpretation memstore: state_store mem_state_store mem_abs mem_inv "\<lambda>_. True" "\<lambda>_. True" mem_room
proof
  fix w w' i s v rs
  assume "mem_inv w" "State_Monad.run_state (ss_save_run mem_state_store i s v) w = (rs, w')"
  then show "mem_inv w' \<and> (case rs of Inl _ \<Rightarrow> mem_abs w' = mem_abs w
    | Inr b \<Rightarrow> spec_save i s v b (mem_abs w) (mem_abs w'))"
    by (auto simp: mem_state_store_def mem_op_defs mem_inv_def mem_abs_def spec_save_def
        stored_version_def Let_def hm_get_fun_insert intro!: exI[of _ s] split: option.splits if_splits)
next
  fix w w' i rl
  assume "mem_inv w" "State_Monad.run_state (ss_load_run mem_state_store i) w = (rl, w')"
  then show "mem_inv w' \<and> mem_abs w' = mem_abs w \<and> (\<forall>x. rl = Inr x \<longrightarrow> x = as_runs (mem_abs w) i)"
    by (auto simp: mem_state_store_def mem_op_defs mem_abs_def)
next
  fix w w' i rd
  assume "mem_inv w" "State_Monad.run_state (ss_delete_run mem_state_store i) w = (rd, w')"
  then show "mem_inv w' \<and> mem_abs w' = (case rd of Inl _ \<Rightarrow> mem_abs w
    | Inr _ \<Rightarrow> (mem_abs w)\<lparr>as_runs := (as_runs (mem_abs w))(i := None)\<rparr>)"
    by (auto simp: mem_state_store_def mem_op_defs mem_inv_def mem_abs_def hm_get_fun_remove)
next
  fix w w' i sid ttl ra
  assume "mem_inv w" "mem_room i w"
    "State_Monad.run_state (ss_try_acquire_lease mem_state_store i sid ttl) w = (ra, w')"
  then show "mem_inv w' \<and> (case ra of Inl _ \<Rightarrow> mem_abs w' = mem_abs w
    | Inr x \<Rightarrow> spec_acquire i sid x (mem_abs w) (mem_abs w'))"
    by (auto simp: mem_state_store_def mem_op_defs mem_inv_def mem_abs_def spec_acquire_def Let_def
        mem_room_def hm_get_fun_insert hm_contains_key_get unat_counter_Suc split: if_splits)
next
  fix w w' i sid v ttl rr
  assume "mem_inv w" "State_Monad.run_state (ss_renew_lease mem_state_store i sid v ttl) w = (rr, w')"
  then show "mem_inv w' \<and> mem_abs w' = mem_abs w \<and>
    (\<forall>b. rr = Inr b \<longrightarrow> b = (as_leases (mem_abs w) i = Some \<lparr> ld_version = v, ld_server_id = sid \<rparr>))"
    by (auto simp: mem_state_store_def mem_op_defs mem_abs_def split: option.splits)
next
  fix w w' i rx
  assume "mem_inv w" "State_Monad.run_state (ss_release_lease mem_state_store i) w = (rx, w')"
  then show "mem_inv w' \<and> mem_abs w' = (case rx of Inl _ \<Rightarrow> mem_abs w
    | Inr _ \<Rightarrow> (mem_abs w)\<lparr>as_leases := (as_leases (mem_abs w))(i := None)\<rparr>)"
    by (auto simp: mem_state_store_def mem_op_defs mem_inv_def mem_abs_def hm_get_fun_remove)
next
  fix w w' ro
  assume "mem_inv w" "State_Monad.run_state (ss_get_orphaned_runs mem_state_store) w = (ro, w')"
  then show "mem_inv w' \<and> mem_abs w' = mem_abs w \<and>
    (\<forall>xs. ro = Inr xs \<longrightarrow> set xs = spec_unleased False (mem_abs w))"
    using mem_scan[of "mem_runs w" False "mem_leases w"]
    by (auto simp: mem_state_store_def mem_op_defs mem_inv_def mem_abs_def spec_unleased_def)
next
  fix w w' rt
  assume "mem_inv w" "State_Monad.run_state (ss_list_terminal_unleased_runs mem_state_store) w = (rt, w')"
  then show "mem_inv w' \<and> mem_abs w' = mem_abs w \<and>
    (\<forall>xs. rt = Inr xs \<longrightarrow> set xs = spec_unleased True (mem_abs w))"
    using mem_scan[of "mem_runs w" True "mem_leases w"]
    by (auto simp: mem_state_store_def mem_op_defs mem_inv_def mem_abs_def spec_unleased_def)
qed

section \<open>The Redis store satisfies the contract\<close>

text \<open>
  What the store relies on. \<open>val\<close> reads the value of a key and \<open>ctr\<close> the integer of a counter
  key. Taking a connection may fail; on a connection the commands act as documented. \<open>INCR\<close> is
  bounded by \<open>i64\<close>, \<open>EXPIRE\<close> with a positive time keeps the key, \<open>KEYS\<close> lists the keys that
  match the pattern. A serialised state decodes to the same state up to the iteration order of
  its maps, and Lua numbers are exact below \<open>2^53\<close>.
\<close>

definition redis_pool_law ::
  "('r, 'v) redis_server \<Rightarrow> ('r \<Rightarrow> string \<Rightarrow> 'v option) \<Rightarrow> ('r \<Rightarrow> string \<Rightarrow> int) \<Rightarrow> bool"
where
  "redis_pool_law rd val ctr \<longleftrightarrow>
    (\<forall>r q r'. State_Monad.run_state (rd_pool_get rd) r = (q, r') \<longrightarrow> val r' = val r \<and> ctr r' = ctr r)"

definition redis_get_law ::
  "('r, 'v) redis_server \<Rightarrow> ('r \<Rightarrow> string \<Rightarrow> 'v option) \<Rightarrow> ('r \<Rightarrow> string \<Rightarrow> int) \<Rightarrow> bool"
where
  "redis_get_law rd val ctr \<longleftrightarrow>
    (\<forall>r k. \<exists>r'. State_Monad.run_state (rd_get rd k) r = (Inr (val r k), r') \<and> val r' = val r \<and> ctr r' = ctr r)"

definition redis_set_law ::
  "('r, 'v) redis_server \<Rightarrow> ('r \<Rightarrow> string \<Rightarrow> 'v option) \<Rightarrow> ('r \<Rightarrow> string \<Rightarrow> int) \<Rightarrow> bool"
where
  "redis_set_law rd val ctr \<longleftrightarrow>
    (\<forall>r k v. \<exists>r'. State_Monad.run_state (rd_set rd k v) r = (Inr (), r') \<and> val r' = (val r)(k \<mapsto> v) \<and>
      (\<forall>j. j \<noteq> k \<longrightarrow> ctr r' j = ctr r j))"

definition redis_del_law ::
  "('r, 'v) redis_server \<Rightarrow> ('r \<Rightarrow> string \<Rightarrow> 'v option) \<Rightarrow> ('r \<Rightarrow> string \<Rightarrow> int) \<Rightarrow> bool"
where
  "redis_del_law rd val ctr \<longleftrightarrow>
    (\<forall>r k. \<exists>n r'. State_Monad.run_state (rd_del rd k) r = (Inr n, r') \<and> val r' = (val r)(k := None) \<and>
      (\<forall>j. j \<noteq> k \<longrightarrow> ctr r' j = ctr r j))"

definition redis_incr_law ::
  "('r, 'v) redis_server \<Rightarrow> ('r \<Rightarrow> string \<Rightarrow> 'v option) \<Rightarrow> ('r \<Rightarrow> string \<Rightarrow> int) \<Rightarrow> bool"
where
  "redis_incr_law rd val ctr \<longleftrightarrow>
    (\<forall>r k. ctr r k + 1 < 2 ^ 63 \<longrightarrow>
      (\<exists>r'. State_Monad.run_state (rd_incr rd k) r = (Inr (ctr r k + 1), r') \<and>
        ctr r' = (ctr r)(k := ctr r k + 1) \<and> (\<forall>j. j \<noteq> k \<longrightarrow> val r' j = val r j)))"

definition redis_expire_law ::
  "('r, 'v) redis_server \<Rightarrow> ('r \<Rightarrow> string \<Rightarrow> 'v option) \<Rightarrow> ('r \<Rightarrow> string \<Rightarrow> int) \<Rightarrow> bool"
where
  "redis_expire_law rd val ctr \<longleftrightarrow>
    (\<forall>r k ttl. 0 < ttl \<longrightarrow>
      (\<exists>n r'. State_Monad.run_state (rd_expire rd k ttl) r = (Inr n, r') \<and> val r' = val r \<and> ctr r' = ctr r))"

definition redis_exists_law ::
  "('r, 'v) redis_server \<Rightarrow> ('r \<Rightarrow> string \<Rightarrow> 'v option) \<Rightarrow> ('r \<Rightarrow> string \<Rightarrow> int) \<Rightarrow> bool"
where
  "redis_exists_law rd val ctr \<longleftrightarrow>
    (\<forall>r k. \<exists>n r'. State_Monad.run_state (rd_exists rd k) r = (Inr n, r') \<and> (0 < n \<longleftrightarrow> val r k \<noteq> None) \<and>
      val r' = val r \<and> ctr r' = ctr r)"

definition redis_keys_law ::
  "('r, 'v) redis_server \<Rightarrow> ('r \<Rightarrow> string \<Rightarrow> 'v option) \<Rightarrow> ('r \<Rightarrow> string \<Rightarrow> int) \<Rightarrow> bool"
where
  "redis_keys_law rd val ctr \<longleftrightarrow>
    (\<forall>r. \<exists>ks r'. State_Monad.run_state (rd_keys rd ''jefferies:run:*:state'') r = (Inr ks, r') \<and>
      set ks = {k. val r k \<noteq> None \<and> (\<exists>i. k = state_key i)} \<and> val r' = val r \<and> ctr r' = ctr r)"

definition redis_json_law ::
  "('r, 'v) redis_server \<Rightarrow> ('r \<Rightarrow> string \<Rightarrow> 'v option) \<Rightarrow> ('r \<Rightarrow> string \<Rightarrow> int) \<Rightarrow> bool"
where
  "redis_json_law rd val ctr \<longleftrightarrow>
    (\<forall>s v. rd_to_json rd s = Inr v \<longrightarrow> (\<exists>t. rd_from_json rd v = Inr t \<and> same_run s t))"

definition redis_cjson_state_law ::
  "('r, 'v) redis_server \<Rightarrow> ('r \<Rightarrow> string \<Rightarrow> 'v option) \<Rightarrow> ('r \<Rightarrow> string \<Rightarrow> int) \<Rightarrow> bool"
where
  "redis_cjson_state_law rd val ctr \<longleftrightarrow>
    (\<forall>s v. rd_to_json rd s = Inr v \<longrightarrow> unat (rs_version s) < 2 ^ 53 \<longrightarrow>
      (\<exists>sid. rd_cjson_decode rd v = Inr (int (unat (rs_version s)), sid)))"

definition redis_cjson_lease_law ::
  "('r, 'v) redis_server \<Rightarrow> ('r \<Rightarrow> string \<Rightarrow> 'v option) \<Rightarrow> ('r \<Rightarrow> string \<Rightarrow> int) \<Rightarrow> bool"
where
  "redis_cjson_lease_law rd val ctr \<longleftrightarrow>
    (\<forall>n sid. 0 \<le> n \<longrightarrow> n < 2 ^ 53 \<longrightarrow> rd_cjson_decode rd (rd_cjson_encode rd n sid) = Inr (n, sid))"

definition redis_tonumber_law ::
  "('r, 'v) redis_server \<Rightarrow> ('r \<Rightarrow> string \<Rightarrow> 'v option) \<Rightarrow> ('r \<Rightarrow> string \<Rightarrow> int) \<Rightarrow> bool"
where
  "redis_tonumber_law rd val ctr \<longleftrightarrow>
    (\<forall>n. unat n < 2 ^ 53 \<longrightarrow> rd_tonumber rd n = int (unat n))"

definition redis_laws ::
  "('r, 'v) redis_server \<Rightarrow> ('r \<Rightarrow> string \<Rightarrow> 'v option) \<Rightarrow> ('r \<Rightarrow> string \<Rightarrow> int) \<Rightarrow> bool"
where
  "redis_laws rd val ctr \<longleftrightarrow>
    redis_pool_law rd val ctr \<and> redis_get_law rd val ctr \<and> redis_set_law rd val ctr \<and>
    redis_del_law rd val ctr \<and> redis_incr_law rd val ctr \<and> redis_expire_law rd val ctr \<and>
    redis_exists_law rd val ctr \<and> redis_keys_law rd val ctr \<and> redis_json_law rd val ctr \<and>
    redis_cjson_state_law rd val ctr \<and> redis_cjson_lease_law rd val ctr \<and> redis_tonumber_law rd val ctr"

definition redis_run :: "('r, 'v) redis_server \<Rightarrow> 'v \<Rightarrow> run_state option" where
  "redis_run rd v = (case rd_from_json rd v of Inl _ \<Rightarrow> None | Inr s \<Rightarrow> Some s)"

definition redis_lease :: "('r, 'v) redis_server \<Rightarrow> 'v \<Rightarrow> lease_data option" where
  "redis_lease rd v = (case rd_cjson_decode rd v of Inl _ \<Rightarrow> None
     | Inr (n, sid) \<Rightarrow> Some \<lparr> ld_version = word_of_int n, ld_server_id = sid \<rparr>)"

definition redis_abs ::
  "('r, 'v) redis_server \<Rightarrow> ('r \<Rightarrow> string \<Rightarrow> 'v option) \<Rightarrow> ('r \<Rightarrow> string \<Rightarrow> int) \<Rightarrow> 'r \<Rightarrow> abs_store" where
  "redis_abs rd val ctr r =
    \<lparr> as_runs = (\<lambda>i. Option.bind (val r (state_key i)) (redis_run rd)),
      as_leases = (\<lambda>i. Option.bind (val r (lease_key i)) (redis_lease rd)),
      as_issued = (\<lambda>i. nat (ctr r (lease_key i @ '':ver''))) \<rparr>"

text \<open>Every state key holds a serialised state, every lease key an encoded lease.\<close>

definition redis_inv ::
  "('r, 'v) redis_server \<Rightarrow> ('r \<Rightarrow> string \<Rightarrow> 'v option) \<Rightarrow> ('r \<Rightarrow> string \<Rightarrow> int) \<Rightarrow> 'r \<Rightarrow> bool" where
  "redis_inv rd val ctr r \<longleftrightarrow>
    (\<forall>i v. val r (state_key i) = Some v \<longrightarrow> CHR '':'' \<notin> set i \<and>
      (\<exists>s. rd_to_json rd s = Inr v \<and> unat (rs_version s) < 2 ^ 53)) \<and>
    (\<forall>i v. val r (lease_key i) = Some v \<longrightarrow>
      (\<exists>n sid. v = rd_cjson_encode rd n sid \<and> 0 \<le> n \<and> n < 2 ^ 53)) \<and>
    (\<forall>i. 0 \<le> ctr r (lease_key i @ '':ver''))"

definition redis_room :: "('r \<Rightarrow> string \<Rightarrow> int) \<Rightarrow> string \<Rightarrow> 'r \<Rightarrow> bool" where
  "redis_room ctr i r \<longleftrightarrow> ctr r (lease_key i @ '':ver'') + 1 < 2 ^ 53"

lemma key_inj [simp]:
  "state_key i = state_key j \<longleftrightarrow> i = j" "lease_key i = lease_key j \<longleftrightarrow> i = j"
  by (auto simp: state_key_def lease_key_def)

lemma suffix_neq: "length s = length t \<Longrightarrow> s \<noteq> t \<Longrightarrow> a @ s \<noteq> b @ t"
  by (metis append_eq_append_conv)

lemma state_key_neq_lease_key [simp]: "state_key i \<noteq> lease_key j" "lease_key j \<noteq> state_key i"
proof -
  have "(''jefferies:run:'' @ i) @ '':state'' \<noteq> (''jefferies:run:'' @ j) @ '':lease''"
    by (rule suffix_neq) simp_all
  then show "state_key i \<noteq> lease_key j" "lease_key j \<noteq> state_key i"
    by (auto simp: state_key_def lease_key_def)
qed

lemma ver_key_neq [simp]: "lease_key i @ '':ver'' \<noteq> state_key j" "lease_key i @ '':ver'' \<noteq> lease_key j"
    "state_key j \<noteq> lease_key i @ '':ver''" "lease_key j \<noteq> lease_key i @ '':ver''"
proof -
  have "last (state_key j) = CHR ''e''" "last (lease_key j) = CHR ''e''"
    by (simp_all add: state_key_def lease_key_def)
  then show "lease_key i @ '':ver'' \<noteq> state_key j" "lease_key i @ '':ver'' \<noteq> lease_key j"
    "state_key j \<noteq> lease_key i @ '':ver''" "lease_key j \<noteq> lease_key i @ '':ver''"
    by (auto dest!: arg_cong[of _ _ last])
qed

lemma split_state_key: "CHR '':'' \<notin> set i \<Longrightarrow>
  split_on (CHR '':'') (state_key i) = [''jefferies'', ''run'', i, ''state'']"
  using split_on_append[of "CHR '':''" "''jefferies''" "''run:'' @ i @ '':state''"]
    split_on_append[of "CHR '':''" "''run''" "i @ '':state''"]
    split_on_append[of "CHR '':''" i "''state''"] split_on_no_sep[of "CHR '':''" "''state''"]
  by (simp add: state_key_def del: split_on.simps)

lemma redis_poolD:
  "\<lbrakk> redis_laws rd val ctr; State_Monad.run_state (rd_pool_get rd) r = (q, r') \<rbrakk> \<Longrightarrow> val r' = val r \<and> ctr r' = ctr r"
  by (simp add: redis_laws_def redis_pool_law_def)

lemma redis_getE:
  assumes "redis_laws rd val ctr"
  obtains r' where "State_Monad.run_state (rd_get rd k) r = (Inr (val r k), r')" "val r' = val r" "ctr r' = ctr r"
  using assms unfolding redis_laws_def redis_get_law_def by (elim conjE) blast

lemma redis_setE:
  assumes "redis_laws rd val ctr"
  obtains r' where "State_Monad.run_state (rd_set rd k v) r = (Inr (), r')" "val r' = (val r)(k \<mapsto> v)"
    "\<forall>j. j \<noteq> k \<longrightarrow> ctr r' j = ctr r j"
  using assms unfolding redis_laws_def redis_set_law_def by (elim conjE) metis

lemma redis_delE:
  assumes "redis_laws rd val ctr"
  obtains n r' where "State_Monad.run_state (rd_del rd k) r = (Inr n, r')" "val r' = (val r)(k := None)"
    "\<forall>j. j \<noteq> k \<longrightarrow> ctr r' j = ctr r j"
  using assms unfolding redis_laws_def redis_del_law_def by (elim conjE) metis

lemma redis_incrE:
  assumes "redis_laws rd val ctr" "ctr r k + 1 < 2 ^ 53"
  obtains r' where "State_Monad.run_state (rd_incr rd k) r = (Inr (ctr r k + 1), r')"
    "ctr r' = (ctr r)(k := ctr r k + 1)" "\<forall>j. j \<noteq> k \<longrightarrow> val r' j = val r j"
proof -
  from assms(2) have "ctr r k + 1 < 2 ^ 63" by simp
  with assms(1) that show thesis unfolding redis_laws_def redis_incr_law_def by (elim conjE) metis
qed

lemma redis_expireE:
  assumes "redis_laws rd val ctr" "0 < ttl"
  obtains n r' where "State_Monad.run_state (rd_expire rd k ttl) r = (Inr n, r')" "val r' = val r" "ctr r' = ctr r"
  using assms unfolding redis_laws_def redis_expire_law_def by (elim conjE) metis

lemma redis_existsE:
  assumes "redis_laws rd val ctr"
  obtains n r' where "State_Monad.run_state (rd_exists rd k) r = (Inr n, r')" "0 < n \<longleftrightarrow> val r k \<noteq> None"
    "val r' = val r" "ctr r' = ctr r"
  using assms unfolding redis_laws_def redis_exists_law_def by (elim conjE) metis

lemma redis_keysE:
  assumes "redis_laws rd val ctr"
  obtains ks r' where "State_Monad.run_state (rd_keys rd ''jefferies:run:*:state'') r = (Inr ks, r')"
    "set ks = {k. val r k \<noteq> None \<and> (\<exists>i. k = state_key i)}" "val r' = val r" "ctr r' = ctr r"
  using assms unfolding redis_laws_def redis_keys_law_def by (elim conjE) metis

lemma redis_jsonE:
  assumes "redis_laws rd val ctr" "rd_to_json rd s = Inr v"
  obtains t where "rd_from_json rd v = Inr t" "same_run s t"
  using assms unfolding redis_laws_def redis_json_law_def by (elim conjE) metis

lemma redis_cjsonE:
  assumes "redis_laws rd val ctr" "rd_to_json rd s = Inr v" "unat (rs_version s) < 2 ^ 53"
  obtains sid where "rd_cjson_decode rd v = Inr (int (unat (rs_version s)), sid)"
  using assms unfolding redis_laws_def redis_cjson_state_law_def by (elim conjE) metis

lemma redis_cjson_lease:
  "\<lbrakk> redis_laws rd val ctr; 0 \<le> n; n < 2 ^ 53 \<rbrakk> \<Longrightarrow> rd_cjson_decode rd (rd_cjson_encode rd n sid) = Inr (n, sid)"
  by (simp add: redis_laws_def redis_cjson_lease_law_def)

lemma redis_tonumber: "\<lbrakk> redis_laws rd val ctr; unat n < 2 ^ 53 \<rbrakk> \<Longrightarrow> rd_tonumber rd n = int (unat n)"
  by (simp add: redis_laws_def redis_tonumber_law_def)

lemma redis_same:
  assumes "val r' = val r" "ctr r' = ctr r"
  shows "redis_abs rd val ctr r' = redis_abs rd val ctr r" "redis_inv rd val ctr r' = redis_inv rd val ctr r"
  using assms by (simp_all add: redis_abs_def redis_inv_def)

lemma redis_stored:
  assumes L: "redis_laws rd val ctr" and "redis_inv rd val ctr r" and "val r (state_key i) = Some cur"
  obtains t sid where "redis_run rd cur = Some t" "rd_cjson_decode rd cur = Inr (int (unat (rs_version t)), sid)"
proof -
  from assms(2,3) obtain s where s: "rd_to_json rd s = Inr cur" "unat (rs_version s) < 2 ^ 53"
    unfolding redis_inv_def by blast
  from redis_jsonE[OF L s(1)] obtain t where t: "rd_from_json rd cur = Inr t" "same_run s t" .
  from redis_cjsonE[OF L s] obtain sid where "rd_cjson_decode rd cur = Inr (int (unat (rs_version s)), sid)" .
  with t that show thesis by (auto simp: redis_run_def same_run_def)
qed

lemma redis_abs_saved:
  assumes "val r' = (val r)(state_key i \<mapsto> value)" "\<forall>j. j \<noteq> state_key i \<longrightarrow> ctr r' j = ctr r j"
    and "rd_from_json rd value = Inr t"
  shows "redis_abs rd val ctr r' = (redis_abs rd val ctr r)\<lparr>as_runs := (as_runs (redis_abs rd val ctr r))(i \<mapsto> t)\<rparr>"
  using assms by (auto simp: redis_abs_def redis_run_def fun_eq_iff)

lemma redis_inv_saved:
  assumes "redis_inv rd val ctr r" "CHR '':'' \<notin> set i" "rd_to_json rd s = Inr value" "unat (rs_version s) < 2 ^ 53"
    and "val r' = (val r)(state_key i \<mapsto> value)" "\<forall>j. j \<noteq> state_key i \<longrightarrow> ctr r' j = ctr r j"
  shows "redis_inv rd val ctr r'"
  using assms unfolding redis_inv_def by (auto split: if_splits)

lemma redis_save_script:
  assumes L: "redis_laws rd val ctr" and inv: "redis_inv rd val ctr r" and v: "unat v < 2 ^ 53"
    and "State_Monad.run_state (save_run_script rd (state_key i) value v) r = (q, r')"
  shows "\<exists>ok. q = Inr (of_bool ok) \<and> ok = (stored_version (redis_abs rd val ctr r) i = v) \<and>
    (if ok then val r' = (val r)(state_key i \<mapsto> value) \<and> (\<forall>j. j \<noteq> state_key i \<longrightarrow> ctr r' j = ctr r j)
     else val r' = val r \<and> ctr r' = ctr r)"
proof -
  from redis_getE[OF L, of "state_key i" r] obtain r1 where
    get: "State_Monad.run_state (rd_get rd (state_key i)) r = (Inr (val r (state_key i)), r1)"
    and r1: "val r1 = val r" "ctr r1 = ctr r" .
  from redis_setE[OF L, of "state_key i" "value" r1] obtain r2 where
    set: "State_Monad.run_state (rd_set rd (state_key i) value) r1 = (Inr (), r2)"
    and r2: "val r2 = (val r1)(state_key i \<mapsto> value)" "\<forall>j. j \<noteq> state_key i \<longrightarrow> ctr r2 j = ctr r1 j" .
  note num = redis_tonumber[OF L v]
  show ?thesis
  proof (cases "val r (state_key i)")
    case None
    then have "stored_version (redis_abs rd val ctr r) i = 0"
      by (simp add: stored_version_def redis_abs_def)
    moreover have "rd_tonumber rd v = 0 \<longleftrightarrow> v = 0" by (simp add: num unsigned_eq_0_iff)
    ultimately show ?thesis using None assms(4) get set r1 r2
      by (auto simp: save_run_script_def split: if_splits)
  next
    case (Some cur)
    from redis_stored[OF L inv Some] obtain t sid where "redis_run rd cur = Some t"
      "rd_cjson_decode rd cur = Inr (int (unat (rs_version t)), sid)" .
    moreover from this Some have "stored_version (redis_abs rd val ctr r) i = rs_version t"
      by (simp add: stored_version_def redis_abs_def)
    ultimately show ?thesis using Some assms(4) get set r1 r2 num
      by (auto simp: save_run_script_def word_uint_eq_iff[symmetric] split: if_splits)
  qed
qed

lemma redis_save:
  assumes L: "redis_laws rd val ctr" and inv: "redis_inv rd val ctr r"
    and i: "CHR '':'' \<notin> set i" and s: "unat (rs_version s) < 2 ^ 53" and v: "unat v < 2 ^ 53"
    and run: "State_Monad.run_state (redis_save_run rd i s v) r = (q, r')"
  shows "redis_inv rd val ctr r' \<and> (case q of Inl _ \<Rightarrow> redis_abs rd val ctr r' = redis_abs rd val ctr r
    | Inr b \<Rightarrow> spec_save i s v b (redis_abs rd val ctr r) (redis_abs rd val ctr r'))"
proof -
  obtain p r1 where pool: "State_Monad.run_state (rd_pool_get rd) r = (p, r1)" by force
  note r1 = redis_poolD[OF L pool]
  note same = redis_same[of val r1 r ctr rd, OF conjunct1[OF r1] conjunct2[OF r1]]
  show ?thesis
  proof (cases "(\<exists>e. p = Inl e) \<or> (\<exists>e. rd_to_json rd s = Inl e)")
    case True
    with run pool have "r' = r1" "\<exists>e. q = Inl e"
      by (auto simp: redis_save_run_def split: sum.splits)
    with same inv show ?thesis by auto
  next
    case False
    then obtain vv where vv: "p = Inr ()" "rd_to_json rd s = Inr vv"
      by (cases p; cases "rd_to_json rd s") auto
    obtain q2 r2 where script: "State_Monad.run_state (save_run_script rd (state_key i) vv v) r1 = (q2, r2)"
      by force
    from redis_save_script[OF L _ v script] same inv obtain ok where
      ok: "q2 = Inr (of_bool ok)" "ok = (stored_version (redis_abs rd val ctr r) i = v)" and
      eff: "if ok then val r2 = (val r1)(state_key i \<mapsto> vv) \<and> (\<forall>j. j \<noteq> state_key i \<longrightarrow> ctr r2 j = ctr r1 j)
        else val r2 = val r1 \<and> ctr r2 = ctr r1" by auto
    from run pool vv script ok have q: "q = Inr ok" "r' = r2"
      by (auto simp: redis_save_run_def)
    from redis_jsonE[OF L vv(2)] obtain t where t: "rd_from_json rd vv = Inr t" "same_run s t" .
    show ?thesis
    proof (cases ok)
      case True
      with eff have "val r2 = (val r1)(state_key i \<mapsto> vv)" "\<forall>j. j \<noteq> state_key i \<longrightarrow> ctr r2 j = ctr r1 j"
        by auto
      from redis_abs_saved[OF this t(1)] redis_inv_saved[OF _ i vv(2) s this] same inv t(2) ok q True
      show ?thesis by (auto simp: spec_save_def)
    next
      case False
      with eff redis_same[of val r2 r1 ctr rd] same inv ok q show ?thesis
        by (auto simp: spec_save_def)
    qed
  qed
qed

lemma redis_load:
  assumes L: "redis_laws rd val ctr" and inv: "redis_inv rd val ctr r"
    and run: "State_Monad.run_state (redis_load_run rd i) r = (q, r')"
  shows "redis_inv rd val ctr r' \<and> redis_abs rd val ctr r' = redis_abs rd val ctr r \<and>
    (\<forall>x. q = Inr x \<longrightarrow> x = as_runs (redis_abs rd val ctr r) i)"
proof -
  obtain p r1 where pool: "State_Monad.run_state (rd_pool_get rd) r = (p, r1)" by force
  note r1 = redis_poolD[OF L pool]
  from redis_getE[OF L, of "state_key i" r1] obtain r2 where
    "State_Monad.run_state (rd_get rd (state_key i)) r1 = (Inr (val r1 (state_key i)), r2)"
    "val r2 = val r1" "ctr r2 = ctr r1" .
  with run pool r1 have "val r' = val r" "ctr r' = ctr r"
    "\<forall>x. q = Inr x \<longrightarrow> x = as_runs (redis_abs rd val ctr r) i"
    by (auto simp: redis_load_run_def redis_abs_def redis_run_def split: sum.splits option.splits)
  with redis_same[of val r' r ctr rd] inv show ?thesis by auto
qed

lemma redis_delete:
  assumes L: "redis_laws rd val ctr" and inv: "redis_inv rd val ctr r"
    and run: "State_Monad.run_state (redis_delete_run rd i) r = (q, r')"
  shows "redis_inv rd val ctr r' \<and> redis_abs rd val ctr r' = (case q of Inl _ \<Rightarrow> redis_abs rd val ctr r
    | Inr _ \<Rightarrow> (redis_abs rd val ctr r)\<lparr>as_runs := (as_runs (redis_abs rd val ctr r))(i := None)\<rparr>)"
proof -
  obtain p r1 where pool: "State_Monad.run_state (rd_pool_get rd) r = (p, r1)" by force
  note r1 = redis_poolD[OF L pool]
  from redis_delE[OF L, of "state_key i" r1] obtain n r2 where
    "State_Monad.run_state (rd_del rd (state_key i)) r1 = (Inr n, r2)"
    "val r2 = (val r1)(state_key i := None)" "\<forall>j. j \<noteq> state_key i \<longrightarrow> ctr r2 j = ctr r1 j" .
  with run pool r1 inv show ?thesis
    by (cases p) (auto simp: redis_delete_run_def redis_abs_def redis_inv_def fun_eq_iff split: if_splits)
qed

lemma redis_release:
  assumes L: "redis_laws rd val ctr" and inv: "redis_inv rd val ctr r"
    and run: "State_Monad.run_state (redis_release_lease rd i) r = (q, r')"
  shows "redis_inv rd val ctr r' \<and> redis_abs rd val ctr r' = (case q of Inl _ \<Rightarrow> redis_abs rd val ctr r
    | Inr _ \<Rightarrow> (redis_abs rd val ctr r)\<lparr>as_leases := (as_leases (redis_abs rd val ctr r))(i := None)\<rparr>)"
proof -
  obtain p r1 where pool: "State_Monad.run_state (rd_pool_get rd) r = (p, r1)" by force
  note r1 = redis_poolD[OF L pool]
  from redis_delE[OF L, of "lease_key i" r1] obtain n r2 where
    "State_Monad.run_state (rd_del rd (lease_key i)) r1 = (Inr n, r2)"
    "val r2 = (val r1)(lease_key i := None)" "\<forall>j. j \<noteq> lease_key i \<longrightarrow> ctr r2 j = ctr r1 j" .
  with run pool r1 inv show ?thesis
    by (cases p) (auto simp: redis_release_lease_def redis_abs_def redis_inv_def fun_eq_iff split: if_splits)
qed

lemma redis_leased:
  assumes L: "redis_laws rd val ctr" and "redis_inv rd val ctr r" and "val r (lease_key i) = Some cur"
  obtains n sid where "cur = rd_cjson_encode rd n sid" "0 \<le> n" "n < 2 ^ 53"
    "rd_cjson_decode rd cur = Inr (n, sid)"
    "as_leases (redis_abs rd val ctr r) i = Some \<lparr> ld_version = word_of_int n, ld_server_id = sid \<rparr>"
proof -
  from assms(2,3) obtain n sid where n: "cur = rd_cjson_encode rd n sid" "0 \<le> n" "n < 2 ^ 53"
    unfolding redis_inv_def by blast
  with redis_cjson_lease[OF L n(2,3), of sid] assms(3) that show thesis
    by (simp add: redis_abs_def redis_lease_def)
qed

lemma unat_word_of_int_small: "0 \<le> n \<Longrightarrow> n < 2 ^ 53 \<Longrightarrow> unat (word_of_int n :: u64) = nat n"
  by (simp add: unat_eq_nat_uint uint_word_of_int)

lemma redis_acquire:
  assumes L: "redis_laws rd val ctr" and inv: "redis_inv rd val ctr r" and room: "redis_room ctr i r"
    and ttl: "0 < ttl" and run: "State_Monad.run_state (redis_try_acquire_lease rd i sid ttl) r = (q, r')"
  shows "redis_inv rd val ctr r' \<and> (case q of Inl _ \<Rightarrow> redis_abs rd val ctr r' = redis_abs rd val ctr r
    | Inr x \<Rightarrow> spec_acquire i sid x (redis_abs rd val ctr r) (redis_abs rd val ctr r'))"
proof -
  let ?k = "lease_key i" and ?c = "lease_key i @ '':ver''"
  let ?n = "ctr r ?c + 1"
  from inv room have n: "0 < ?n" "?n < 2 ^ 53" by (auto simp: redis_inv_def redis_room_def add.commute add_pos_nonneg)
  obtain p r1 where pool: "State_Monad.run_state (rd_pool_get rd) r = (p, r1)" by force
  note r1 = redis_poolD[OF L pool]
  from redis_getE[OF L, of ?k r1] obtain r2 where
    get: "State_Monad.run_state (rd_get rd ?k) r1 = (Inr (val r1 ?k), r2)" and r2: "val r2 = val r1" "ctr r2 = ctr r1" .
  show ?thesis
  proof (cases "(\<exists>e. p = Inl e) \<or> val r ?k \<noteq> None")
    case True
    have "val r' = val r \<and> ctr r' = ctr r \<and> ((\<exists>e. q = Inl e) \<or> q = Inr None \<and> val r ?k \<noteq> None)"
      using True run pool get r1 r2
      by (cases p) (auto simp: redis_try_acquire_lease_def acquire_script_def)
    then show ?thesis using redis_same[of val r' r ctr rd] inv redis_leased[OF L inv]
      by (auto simp: spec_acquire_def) metis
  next
    case False
    then have p: "p = Inr ()" and free: "val r ?k = None" by (cases p; auto)+
    from redis_incrE[OF L, of r2 ?c] n r1 r2 obtain r3 where
      incr: "State_Monad.run_state (rd_incr rd ?c) r2 = (Inr ?n, r3)"
      and r3: "ctr r3 = (ctr r)(?c := ?n)" "\<forall>j. j \<noteq> ?c \<longrightarrow> val r3 j = val r j" by auto
    let ?d = "rd_cjson_encode rd ?n sid"
    from redis_setE[OF L, of ?k ?d r3] obtain r4 where
      set: "State_Monad.run_state (rd_set rd ?k ?d) r3 = (Inr (), r4)"
      and r4: "val r4 = (val r3)(?k \<mapsto> ?d)" "\<forall>j. j \<noteq> ?k \<longrightarrow> ctr r4 j = ctr r3 j" .
    from redis_expireE[OF L ttl, of ?k r4] obtain m r5 where
      exp: "State_Monad.run_state (rd_expire rd ?k ttl) r4 = (Inr m, r5)"
      and r5: "val r5 = val r4" "ctr r5 = ctr r4" .
    have "q = Inr (Some (word_of_int ?n)) \<and> r' = r5"
      using run pool p get free r1 r2 incr set exp
      by (auto simp: redis_try_acquire_lease_def acquire_script_def)
    moreover have "redis_inv rd val ctr r5"
      using inv n r3 r4 r5 by (auto simp: redis_inv_def split: if_splits)
    moreover have "spec_acquire i sid (Some (word_of_int ?n)) (redis_abs rd val ctr r) (redis_abs rd val ctr r5)"
      using free r3 r4 r5 n redis_cjson_lease[OF L _ n(2), of sid] unat_word_of_int_small[of ?n]
      by (auto simp: spec_acquire_def redis_abs_def redis_lease_def fun_eq_iff nat_le_iff)
    ultimately show ?thesis by simp
  qed
qed

lemma redis_renew:
  assumes L: "redis_laws rd val ctr" and inv: "redis_inv rd val ctr r" and v: "unat v < 2 ^ 53"
    and ttl: "0 < ttl" and run: "State_Monad.run_state (redis_renew_lease rd i sid v ttl) r = (q, r')"
  shows "redis_inv rd val ctr r' \<and> redis_abs rd val ctr r' = redis_abs rd val ctr r \<and>
    (\<forall>b. q = Inr b \<longrightarrow> b = (as_leases (redis_abs rd val ctr r) i = Some \<lparr> ld_version = v, ld_server_id = sid \<rparr>))"
proof -
  let ?k = "lease_key i"
  obtain p r1 where pool: "State_Monad.run_state (rd_pool_get rd) r = (p, r1)" by force
  note r1 = redis_poolD[OF L pool]
  from redis_getE[OF L, of ?k r1] obtain r2 where
    get: "State_Monad.run_state (rd_get rd ?k) r1 = (Inr (val r1 ?k), r2)" and r2: "val r2 = val r1" "ctr r2 = ctr r1" .
  from redis_expireE[OF L ttl, of ?k r2] obtain m r3 where
    exp: "State_Monad.run_state (rd_expire rd ?k ttl) r2 = (Inr m, r3)" and r3: "val r3 = val r2" "ctr r3 = ctr r2" .
  have "val r' = val r \<and> ctr r' = ctr r \<and>
    (\<forall>b. q = Inr b \<longrightarrow> b = (as_leases (redis_abs rd val ctr r) i = Some \<lparr> ld_version = v, ld_server_id = sid \<rparr>))"
  proof (cases "val r ?k")
    case None
    with run pool get r1 r2 show ?thesis
      by (cases p) (auto simp: redis_renew_lease_def renew_script_def redis_abs_def)
  next
    case (Some cur)
    from redis_leased[OF L inv Some] obtain n owner where n: "0 \<le> n" "n < 2 ^ 53"
      and dec: "rd_cjson_decode rd cur = Inr (n, owner)"
      and lease: "as_leases (redis_abs rd val ctr r) i = Some \<lparr> ld_version = word_of_int n, ld_server_id = owner \<rparr>"
      by metis
    have "n = int (unat v) \<longleftrightarrow> word_of_int n = v"
      using n unat_word_of_int_small[OF n] by (metis int_nat_eq of_nat_inverse of_nat_unat word_of_int_uint)
    with Some run pool get exp r1 r2 r3 dec lease redis_tonumber[OF L v] show ?thesis
      by (cases p) (auto simp: redis_renew_lease_def renew_script_def split: if_splits)
  qed
  with redis_same[of val r' r ctr rd] inv show ?thesis by auto
qed

lemma redis_scan_step:
  assumes L: "redis_laws rd val ctr" and inv: "redis_inv rd val ctr r" and some: "val r (state_key i) \<noteq> None"
  shows "\<exists>r'. val r' = val r \<and> ctr r' = ctr r \<and>
    State_Monad.run_state (scan_runs rd want found (state_key i # ks)) r =
    State_Monad.run_state (scan_runs rd want
      (if i \<in> spec_unleased want (redis_abs rd val ctr r) then found @ [i] else found) ks) r'"
proof -
  from some obtain cur where cur: "val r (state_key i) = Some cur" by blast
  with inv have "CHR '':'' \<notin> set i" unfolding redis_inv_def by blast
  note parts = split_state_key[OF this]
  from redis_stored[OF L inv cur] obtain t where t: "redis_run rd cur = Some t" by metis
  then have dec: "rd_from_json rd cur = Inr t" by (auto simp: redis_run_def split: sum.splits)
  from redis_getE[OF L, of "state_key i" r] obtain r1 where
    get: "State_Monad.run_state (rd_get rd (state_key i)) r = (Inr (Some cur), r1)"
    and r1: "val r1 = val r" "ctr r1 = ctr r" using cur by metis
  from redis_existsE[OF L, of "lease_key i" r1] obtain n r2 where
    ex: "State_Monad.run_state (rd_exists rd (lease_key i)) r1 = (Inr n, r2)" "0 < n \<longleftrightarrow> val r1 (lease_key i) \<noteq> None"
    and r2: "val r2 = val r1" "ctr r2 = ctr r1" .
  have lease: "as_leases (redis_abs rd val ctr r) i = None \<longleftrightarrow> val r (lease_key i) = None"
  proof (cases "val r (lease_key i)")
    case None
    then show ?thesis by (simp add: redis_abs_def)
  next
    case (Some c)
    with redis_leased[OF L inv Some] show ?thesis by auto
  qed
  have run: "as_runs (redis_abs rd val ctr r) i = Some t" using cur t by (simp add: redis_abs_def)
  show ?thesis
  proof (cases "run_state_is_terminal t = want")
    case True
    with parts get dec ex r1 r2 run lease show ?thesis
      by (intro exI[of _ r2]) (simp add: spec_unleased_def)
  next
    case False
    with parts get dec r1 run show ?thesis
      by (intro exI[of _ r1]) (simp add: spec_unleased_def)
  qed
qed

lemma redis_scan:
  assumes L: "redis_laws rd val ctr"
    and "redis_inv rd val ctr r" "\<forall>k\<in>set ks. val r k \<noteq> None \<and> (\<exists>i. k = state_key i)"
  shows "\<exists>xs r'. State_Monad.run_state (scan_runs rd want found ks) r = (Inr xs, r') \<and>
    set xs = set found \<union> {i \<in> spec_unleased want (redis_abs rd val ctr r). state_key i \<in> set ks} \<and>
    val r' = val r \<and> ctr r' = ctr r"
  using assms(2,3)
proof (induction ks arbitrary: r found)
  case Nil
  then show ?case by simp
next
  case (Cons k ks)
  then obtain i where k: "k = state_key i" and some: "val r (state_key i) \<noteq> None" by auto
  let ?f = "if i \<in> spec_unleased want (redis_abs rd val ctr r) then found @ [i] else found"
  from redis_scan_step[OF L Cons.prems(1) some] obtain r1 where
    r1: "val r1 = val r" "ctr r1 = ctr r" and step: "State_Monad.run_state (scan_runs rd want found (k # ks)) r =
      State_Monad.run_state (scan_runs rd want ?f ks) r1" unfolding k by blast
  note same = redis_same[of val r1 r ctr rd, OF r1]
  from Cons.IH[of r1 ?f] Cons.prems r1 same obtain xs r2 where
    "State_Monad.run_state (scan_runs rd want ?f ks) r1 = (Inr xs, r2)" "val r2 = val r" "ctr r2 = ctr r"
    "set xs = set ?f \<union> {i \<in> spec_unleased want (redis_abs rd val ctr r). state_key i \<in> set ks}" by auto
  with step show ?case by (auto simp: k split: if_splits)
qed

lemma redis_scan_all:
  assumes L: "redis_laws rd val ctr" and inv: "redis_inv rd val ctr r"
    and run: "State_Monad.run_state (bind_ok (rd_pool_get rd) (\<lambda>_.
      bind_ok (rd_keys rd ''jefferies:run:*:state'') (\<lambda>ks. scan_runs rd want [] ks))) r = (q, r')"
  shows "redis_inv rd val ctr r' \<and> redis_abs rd val ctr r' = redis_abs rd val ctr r \<and>
    (\<forall>xs. q = Inr xs \<longrightarrow> set xs = spec_unleased want (redis_abs rd val ctr r))"
proof -
  obtain p r1 where pool: "State_Monad.run_state (rd_pool_get rd) r = (p, r1)" by force
  note r1 = redis_poolD[OF L pool]
  from redis_keysE[OF L, of r1] obtain ks r2 where
    keys: "State_Monad.run_state (rd_keys rd ''jefferies:run:*:state'') r1 = (Inr ks, r2)"
    "set ks = {k. val r1 k \<noteq> None \<and> (\<exists>i. k = state_key i)}" and r2: "val r2 = val r1" "ctr r2 = ctr r1" .
  have same: "redis_abs rd val ctr r2 = redis_abs rd val ctr r" "redis_inv rd val ctr r2"
    using redis_same[of val r2 r ctr rd] r1 r2 inv by auto
  have all: "i \<in> spec_unleased want (redis_abs rd val ctr r) \<Longrightarrow> state_key i \<in> set ks" for i
    using keys(2) r1 by (auto simp: spec_unleased_def redis_abs_def)
  from redis_scan[OF L same(2), of ks want "[]"] keys(2) r2 same(1) obtain xs r3 where
    "State_Monad.run_state (scan_runs rd want [] ks) r2 = (Inr xs, r3)"
    "set xs = {i \<in> spec_unleased want (redis_abs rd val ctr r). state_key i \<in> set ks}"
    "val r3 = val r2" "ctr r3 = ctr r2" by auto
  with run pool keys(1) r1 r2 all redis_same[of val r' r ctr rd] inv show ?thesis
    by (cases p) auto
qed

lemma redis_contract:
  assumes "redis_laws rd val ctr"
  shows "state_store (redis_state_store rd) (redis_abs rd val ctr) (redis_inv rd val ctr)
    (\<lambda>v. unat v < 2 ^ 53) (\<lambda>i. CHR '':'' \<notin> set i) (redis_room ctr)"
  by (unfold_locales; unfold redis_state_store_def state_store_ops.simps redis_get_orphaned_runs_def
      redis_list_terminal_unleased_runs_def;
      (rule redis_save[OF assms] redis_load[OF assms] redis_delete[OF assms] redis_acquire[OF assms]
        redis_renew[OF assms] redis_release[OF assms] redis_scan_all[OF assms]; assumption))

section \<open>Properties\<close>

lemma mem_perform_counter:
  assumes "State_Monad.run_state (perform mem_state_store x) w = (r, w')" "unat (mem_lease_counter w) + n < 2 ^ 64" "0 < n"
  shows "unat (mem_lease_counter w') + (n - 1) < 2 ^ 64"
  using assms
  by (cases x) (auto simp: mem_state_store_def mem_op_defs Let_def unat_word_ariths split: if_splits option.splits)

lemma mem_has_room:
  "unat (mem_lease_counter w) + length xs < 2 ^ 64 \<Longrightarrow> has_room mem_state_store mem_room xs w"
proof (induction xs arbitrary: w)
  case Nil
  then show ?case by simp
next
  case (Cons x xs)
  obtain r w1 where run: "State_Monad.run_state (perform mem_state_store x) w = (r, w1)" by force
  from mem_perform_counter[OF run Cons.prems] Cons.IH[of w1] Cons.prems run show ?case
    by (auto simp: mem_room_def)
qed

fun positive_ttl :: "store_op \<Rightarrow> bool" where
  "positive_ttl (AcquireOp i sid ttl) \<longleftrightarrow> 0 < ttl"
| "positive_ttl (RenewOp i sid v ttl) \<longleftrightarrow> 0 < ttl"
| "positive_ttl _ \<longleftrightarrow> True"

lemma positive_ttl_op_ok: "op_ok (\<lambda>_. True) (\<lambda>_. True) x = positive_ttl x"
  by (cases x) simp_all


text \<open>
  Claim C6. Leases are exclusive. After any interleaving of operations of any number of servers,
  a renewal succeeds exactly for the server and version of the last grant of the run that was
  not released since, and a run is free to be acquired exactly when there is none; the versions
  granted for a run are strictly increasing, so a server that lost its lease cannot renew it.
\<close>

theorem lease_exclusive:
  assumes "mem_inv w" and "\<forall>x\<in>set xs. positive_ttl x"
    and "unat (mem_lease_counter w) + length xs < 2 ^ 64"
    and "perform_all mem_state_store xs w = (h, w')"
  shows "fst (State_Monad.run_state (mem_renew_lease i sid v ttl) w') =
      Inr (holder i (hm_get (mem_leases w) i) h = Some \<lparr> ld_version = v, ld_server_id = sid \<rparr>) \<and>
    (fst (State_Monad.run_state (mem_try_acquire_lease i sid ttl) w') = Inr None \<longleftrightarrow>
      holder i (hm_get (mem_leases w) i) h \<noteq> None) \<and>
    sorted_wrt (<) (map unat (granted i h))"
proof -
  have "hm_get (mem_leases w') i = holder i (hm_get (mem_leases w) i) h"
    "sorted_wrt (<) (map unat (granted i h))"
    using memstore.leases_follow_history[OF assms(1) _ mem_has_room assms(4), of i] assms(2,3)
    by (simp_all add: positive_ttl_op_ok mem_abs_def)
  then show ?thesis
    by (auto simp: mem_renew_lease_def mem_try_acquire_lease_def Let_def hm_contains_key_get
        split: option.splits)
qed


text \<open>
  The two scans of the reaper split the runs without a lease: the orphaned runs are the
  unleased runs that still have a running or a dispatchable node, the terminal ones are the rest,
  no run is in both and a run with a lease is in neither.
\<close>

theorem unleased_runs_partition:
  assumes "mem_inv w"
  shows "\<exists>orphaned terminal.
    State_Monad.run_state mem_get_orphaned_runs w = (Inr orphaned, w) \<and>
    State_Monad.run_state mem_list_terminal_unleased_runs w = (Inr terminal, w) \<and>
    distinct (orphaned @ terminal) \<and>
    set (orphaned @ terminal) =
      {i. hm_contains_key (mem_runs w) i \<and> \<not> hm_contains_key (mem_leases w) i}"
proof -
  let ?f = "\<lambda>t. map fst (filter (\<lambda>(i, s). run_state_is_terminal s = t \<and>
    \<not> hm_contains_key (mem_leases w) i) (mem_runs w))"
  from assms have wf: "hm_wf (mem_runs w)" by (simp add: mem_inv_def)
  note sets = mem_scan[OF wf, of _ "mem_leases w"]
  have "distinct (?f t)" for t using wf by (simp add: hm_wf_def distinct_map_filter)
  moreover have "set (?f False) \<inter> set (?f True) = {}" unfolding sets by auto
  ultimately have "distinct (?f False @ ?f True)" unfolding distinct_append by blast
  moreover have "set (?f False @ ?f True) =
      {i. hm_contains_key (mem_runs w) i \<and> \<not> hm_contains_key (mem_leases w) i}"
    unfolding set_append sets by (auto simp: hm_contains_key_get)
  ultimately show ?thesis
    by (intro exI[of _ "?f False"] exI[of _ "?f True"])
      (simp add: mem_get_orphaned_runs_def mem_list_terminal_unleased_runs_def)
qed

section \<open>Witnesses\<close>

abbreviation demo_state :: "u64 \<Rightarrow> run_state" where
  "demo_state v \<equiv> \<lparr> rs_version = v, rs_statuses = [(''a'', Pending)], rs_dependencies = [(''a'', [])],
    rs_pipeline = plain_pipeline [plain_node ''a'' []] \<rparr>"


theorem lease_exclusive_witness:
  "fst (State_Monad.run_state (mem_renew_lease ''r'' ''s1'' 1 30) (snd (perform_all mem_state_store
      [AcquireOp ''r'' ''s1'' 30, AcquireOp ''r'' ''s2'' 30] mem_new))) = Inr True"
proof -
  let ?xs = "[AcquireOp ''r'' ''s1'' 30, AcquireOp ''r'' ''s2'' 30]"
  have h: "perform_all mem_state_store ?xs mem_new =
      ([(AcquireOp ''r'' ''s1'' 30, Leased (Some 1)), (AcquireOp ''r'' ''s2'' 30, Leased None)],
       snd (perform_all mem_state_store ?xs mem_new))"
    by (simp add: mem_state_store_def mem_op_defs mem_new_def Let_def reply_of_def hm_contains_key_get)
  show ?thesis
    using lease_exclusive[OF _ _ _ h, of "''r''" "''s1''" 1 30]
    by (simp add: mem_new_def mem_inv_def holder_def)
qed

datatype demo_value = StateVal run_state | LeaseVal int string

definition is_state_key :: "string \<Rightarrow> bool" where
  "is_state_key k \<longleftrightarrow> starts_with k ''jefferies:run:'' \<and> ends_with k '':state'' \<and> 20 \<le> length k"

definition demo_redis ::
  "((string, demo_value) hashmap \<times> (string, int) hashmap, demo_value) redis_server" where
  "demo_redis =
    \<lparr> rd_pool_get = State_Monad.return (Inr ()),
      rd_get = (\<lambda>k. State (\<lambda>r. (Inr (hm_get (fst r) k), r))),
      rd_set = (\<lambda>k v. State (\<lambda>(m, c). (Inr (), (hm_insert k v m, c)))),
      rd_del = (\<lambda>k. State (\<lambda>(m, c). (Inr 1, (hm_remove k m, c)))),
      rd_incr = (\<lambda>k. State (\<lambda>(m, c). let n = (case hm_get c k of None \<Rightarrow> 0 | Some n \<Rightarrow> n) + 1
        in (Inr n, (m, hm_insert k n c)))),
      rd_expire = (\<lambda>k ttl. State_Monad.return (Inr 1)),
      rd_exists = (\<lambda>k. State (\<lambda>r. (Inr (of_bool (hm_contains_key (fst r) k)), r))),
      rd_keys = (\<lambda>p. State (\<lambda>r. (Inr (filter is_state_key (hm_keys (fst r))), r))),
      rd_ping = State_Monad.return (Inr ''PONG''),
      rd_to_json = (\<lambda>s. Inr (StateVal s)),
      rd_from_json = (\<lambda>v. case v of StateVal s \<Rightarrow> Inr s | LeaseVal _ _ \<Rightarrow> Inl (SerializationFailure [])),
      rd_tonumber = uint,
      rd_cjson_encode = LeaseVal,
      rd_cjson_decode = (\<lambda>v. case v of StateVal s \<Rightarrow> Inr (uint (rs_version s), [])
        | LeaseVal n sid \<Rightarrow> Inr (n, sid)) \<rparr>"

abbreviation demo_val :: "(string, demo_value) hashmap \<times> (string, int) hashmap \<Rightarrow> string \<Rightarrow> demo_value option" where
  "demo_val r \<equiv> hm_get (fst r)"

abbreviation demo_ctr :: "(string, demo_value) hashmap \<times> (string, int) hashmap \<Rightarrow> string \<Rightarrow> int" where
  "demo_ctr r \<equiv> \<lambda>k. (case hm_get (snd r) k of None \<Rightarrow> 0 | Some n \<Rightarrow> n)"

lemma is_state_key_iff: "is_state_key k \<longleftrightarrow> (\<exists>i. k = state_key i)"
proof
  assume "is_state_key k"
  then obtain t where t: "k = ''jefferies:run:'' @ t" and e: "ends_with k '':state''" "20 \<le> length k"
    unfolding is_state_key_def starts_with_iff by blast
  have "drop (length (p @ t) - 6) (p @ t) = drop (length t - 6) t" if "6 \<le> length t" for p :: string
    using that by simp
  from this[of "''jefferies:run:''"] t e have "drop (length t - 6) t = '':state''"
    by (simp only: ends_with_def) simp
  then have "t = take (length t - 6) t @ '':state''" by (metis append_take_drop_id)
  with t show "\<exists>i. k = state_key i" unfolding state_key_def by blast
qed (auto simp: is_state_key_def state_key_def starts_with_def ends_with_def)

lemma demo_redis_laws: "redis_laws demo_redis demo_val demo_ctr"
  unfolding redis_laws_def redis_pool_law_def redis_get_law_def redis_set_law_def redis_del_law_def
    redis_incr_law_def redis_expire_law_def redis_exists_law_def redis_keys_law_def redis_json_law_def
    redis_cjson_state_law_def redis_cjson_lease_law_def redis_tonumber_law_def
  by (auto simp: demo_redis_def Let_def hm_get_fun_insert hm_get_fun_remove hm_contains_key_get
      hm_keys_get is_state_key_iff)


theorem unleased_runs_partition_witness:
  "\<exists>orphaned terminal.
    State_Monad.run_state mem_get_orphaned_runs (mem_new\<lparr>mem_runs := [(''r'', demo_state 1)]\<rparr>) =
      (Inr orphaned, mem_new\<lparr>mem_runs := [(''r'', demo_state 1)]\<rparr>) \<and>
    State_Monad.run_state mem_list_terminal_unleased_runs (mem_new\<lparr>mem_runs := [(''r'', demo_state 1)]\<rparr>) =
      (Inr terminal, mem_new\<lparr>mem_runs := [(''r'', demo_state 1)]\<rparr>) \<and>
    distinct (orphaned @ terminal) \<and> set (orphaned @ terminal) = {''r''}"
proof -
  let ?w = "mem_new\<lparr>mem_runs := [(''r'', demo_state 1)]\<rparr>"
  have "mem_inv ?w" by (simp add: mem_inv_def mem_new_def hm_wf_def)
  moreover have "{i. hm_contains_key (mem_runs ?w) i \<and> \<not> hm_contains_key (mem_leases ?w) i} = {''r''}"
    by (auto simp: mem_new_def hm_contains_key_def hm_keys_def)
  ultimately show ?thesis using unleased_runs_partition[of ?w] by simp
qed

end
