(* ===== verification/PipelineRun.thy ===== *)
theory PipelineRun
  imports StateStore
begin

text \<open>
  The dependency graph of a run, \<open>src/coordinator/src/run.rs\<close>: the status of every node and the
  set of nodes each one waits for. The theory shows that statuses only move forward, that the
  completion test of the coordinator agrees with the one of the state store, that a run survives
  being saved and loaded, and that a complete run of an acyclic graph is a finished run.
\<close>

section \<open>Data and operations\<close>

record pipeline_run =
  pr_statuses :: "(string, node_status) hashmap"
  pr_dependencies :: "(string, string hashset) hashmap"

definition pr_new :: "node_info list \<Rightarrow> pipeline_run" where
  "pr_new nodes =
    \<lparr> pr_statuses = hm_collect (map (\<lambda>n. (ni_name n, Pending)) nodes),
      pr_dependencies = hm_collect (map (\<lambda>n. (ni_name n, remdups (ni_dependencies n))) nodes) \<rparr>"

definition deps_satisfied :: "pipeline_run \<Rightarrow> string \<Rightarrow> bool" where
  "deps_satisfied r node =
    (case hm_get (pr_dependencies r) node of
       Some deps \<Rightarrow> list_all (\<lambda>dep. hm_get (pr_statuses r) dep = Some Success) deps
     | None \<Rightarrow> True)"

definition ready_nodes :: "pipeline_run \<Rightarrow> string list" where
  "ready_nodes r =
    map fst (filter (\<lambda>(name, status). status = Pending \<and> deps_satisfied r name) (pr_statuses r))"

definition pr_set :: "string \<Rightarrow> node_status \<Rightarrow> pipeline_run \<Rightarrow> pipeline_run" where
  "pr_set node s r = r\<lparr>pr_statuses := hm_insert node s (pr_statuses r)\<rparr>"

definition mark_running :: "string \<Rightarrow> pipeline_run \<Rightarrow> bool \<times> pipeline_run" where
  "mark_running node r =
    (if hm_get (pr_statuses r) node = Some Pending then (True, pr_set node Running r) else (False, r))"

definition mark_success :: "string \<Rightarrow> pipeline_run \<Rightarrow> bool \<times> pipeline_run" where
  "mark_success node r =
    (if hm_get (pr_statuses r) node \<in> {Some Running, Some Pending}
     then (True, pr_set node Success r) else (False, r))"

definition mark_failed :: "string \<Rightarrow> pipeline_run \<Rightarrow> bool \<times> pipeline_run" where
  "mark_failed node r =
    (if hm_get (pr_statuses r) node \<in> {Some Running, Some Pending}
     then (True, pr_set node Failed r) else (False, r))"

definition mark_dispatch_failed :: "string \<Rightarrow> pipeline_run \<Rightarrow> bool \<times> pipeline_run" where
  "mark_dispatch_failed node r =
    (if hm_get (pr_statuses r) node = Some Pending then (True, pr_set node Failed r) else (False, r))"

definition is_complete :: "pipeline_run \<Rightarrow> bool" where
  "is_complete r =
    (if list_ex (\<lambda>s. s = Running) (hm_values (pr_statuses r)) then False else ready_nodes r = [])"

definition from_run_state :: "run_state \<Rightarrow> pipeline_run" where
  "from_run_state s =
    \<lparr> pr_statuses = rs_statuses s,
      pr_dependencies = hm_collect (map (\<lambda>(k, v). (k, remdups v)) (rs_dependencies s)) \<rparr>"

definition to_run_state :: "pipeline_run \<Rightarrow> u64 \<Rightarrow> pipeline \<Rightarrow> run_state" where
  "to_run_state r version p =
    \<lparr> rs_version = version, rs_statuses = pr_statuses r,
      rs_dependencies = hm_collect (map (\<lambda>(k, v). (k, v)) (pr_dependencies r)), rs_pipeline = p \<rparr>"

section \<open>The order of statuses\<close>

text \<open>A node is pending, then possibly running, then a success or a failure for good.\<close>

instantiation node_status :: order
begin

definition less_eq_node_status :: "node_status \<Rightarrow> node_status \<Rightarrow> bool" where
  "s \<le> t \<longleftrightarrow> s = t \<or> s = Pending \<or> s = Running \<and> t \<in> {Success, Failed}"

definition less_node_status :: "node_status \<Rightarrow> node_status \<Rightarrow> bool" where
  "s < t \<longleftrightarrow> s \<le> t \<and> s \<noteq> (t :: node_status)"

instance
  by standard (auto simp: less_eq_node_status_def less_node_status_def)

end

lemma Pending_least [simp]: "Pending \<le> s"
  by (simp add: less_eq_node_status_def)

lemma final_maximal:
  "Success \<le> s \<longleftrightarrow> s = Success" "Failed \<le> s \<longleftrightarrow> s = Failed" "Running \<le> s \<longleftrightarrow> s \<noteq> Pending"
  by (cases s; simp add: less_eq_node_status_def)+

text \<open>\<open>advances r r'\<close>: the same graph, and every status stays or moves forward.\<close>

definition advances :: "pipeline_run \<Rightarrow> pipeline_run \<Rightarrow> bool" where
  "advances r r' \<longleftrightarrow> pr_dependencies r' = pr_dependencies r \<and>
    hm_keys (pr_statuses r') = hm_keys (pr_statuses r) \<and>
    (\<forall>n s t. hm_get (pr_statuses r) n = Some s \<longrightarrow> hm_get (pr_statuses r') n = Some t \<longrightarrow> s \<le> t)"

lemma advances_refl [simp]: "advances r r"
  by (auto simp: advances_def)

lemma advances_trans: "advances r s \<Longrightarrow> advances s t \<Longrightarrow> advances r t"
proof -
  assume a: "advances r s" "advances s t"
  have "x \<le> z" if x: "hm_get (pr_statuses r) n = Some x" and z: "hm_get (pr_statuses t) n = Some z" for n x z
  proof -
    from a(1) x have "hm_get (pr_statuses s) n \<noteq> None"
      by (metis advances_def hm_keys_get option.discI)
    then obtain y where "hm_get (pr_statuses s) n = Some y" by auto
    with a x z show ?thesis unfolding advances_def by (meson order_trans)
  qed
  with a show ?thesis by (simp add: advances_def)
qed

lemma advances_pr_set:
  "hm_get (pr_statuses r) n = Some s \<Longrightarrow> s \<le> t \<Longrightarrow> advances r (pr_set n t r)"
  by (auto simp: advances_def pr_set_def hm_keys_insert_present split: if_splits)

lemmas mark_defs = mark_running_def mark_success_def mark_failed_def mark_dispatch_failed_def

lemma mark_advances:
  "advances r (snd (mark_running n r))" "advances r (snd (mark_success n r))"
  "advances r (snd (mark_failed n r))" "advances r (snd (mark_dispatch_failed n r))"
  by (auto simp: mark_defs intro!: advances_pr_set simp: less_eq_node_status_def)

section \<open>Well-formed runs\<close>

text \<open>Both maps have the nodes of the run as their keys, and the sets of dependencies are sets.\<close>

definition pr_wf :: "pipeline_run \<Rightarrow> bool" where
  "pr_wf r \<longleftrightarrow> hm_wf (pr_statuses r) \<and> hm_wf (pr_dependencies r) \<and>
    (\<forall>n. hm_get (pr_statuses r) n = None \<longleftrightarrow> hm_get (pr_dependencies r) n = None) \<and>
    (\<forall>n ds. hm_get (pr_dependencies r) n = Some ds \<longrightarrow> distinct ds)"

lemma map_of_rev_map: "map_of (rev (map (\<lambda>x. (f x, g x)) xs)) k = map_option g (find (\<lambda>x. f x = k) (rev xs))"
proof (induction xs rule: rev_induct)
  case (snoc x xs)
  then show ?case by simp
qed simp

lemma pr_new_wf: "pr_wf (pr_new nodes)"
  by (auto simp: pr_wf_def pr_new_def hm_get_collect map_of_rev_map)

lemma pr_set_wf: "pr_wf r \<Longrightarrow> hm_get (pr_statuses r) n \<noteq> None \<Longrightarrow> pr_wf (pr_set n s r)"
  by (auto simp: pr_wf_def pr_set_def)

lemma mark_wf:
  assumes "pr_wf r"
  shows "pr_wf (snd (mark_running n r))" "pr_wf (snd (mark_success n r))"
    "pr_wf (snd (mark_failed n r))" "pr_wf (snd (mark_dispatch_failed n r))"
  using assms by (auto simp: mark_defs intro!: pr_set_wf)

lemma hm_insert_new: "k \<notin> fst ` set m \<Longrightarrow> hm_insert k v m = m @ [(k, v)]"
  unfolding hm_insert_def by (induction m) auto

lemma hm_collect_id: "hm_wf m \<Longrightarrow> hm_collect m = m"
proof -
  have "hm_extend a m = a @ m" if "distinct (map fst (a @ m))" for a
    using that
  proof (induction m arbitrary: a)
    case (Cons x m)
    obtain k v where x: "x = (k, v)" by force
    from Cons.prems x have "hm_insert k v a = a @ [(k, v)]" by (intro hm_insert_new) auto
    with Cons x show ?case by (simp add: hm_extend_Cons)
  qed simp
  from this[of "[]"] show "hm_wf m \<Longrightarrow> hm_collect m = m" by (simp add: hm_wf_def hm_collect_def)
qed

lemma to_from_run_state:
  assumes "pr_wf r"
  shows "from_run_state (to_run_state r v p) = r"
proof -
  have "map (\<lambda>(k, v). (k, remdups v)) (pr_dependencies r) = pr_dependencies r"
    using assms by (intro map_idI) (auto simp: pr_wf_def hm_get_in_set)
  with assms show ?thesis
    by (simp add: from_run_state_def to_run_state_def hm_collect_id pr_wf_def)
qed

section \<open>Completion\<close>

lemma ready_nodes_iff:
  "hm_wf (pr_statuses r) \<Longrightarrow>
    n \<in> set (ready_nodes r) \<longleftrightarrow> hm_get (pr_statuses r) n = Some Pending \<and> deps_satisfied r n"
  by (force simp: ready_nodes_def hm_get_in_set)

lemma any_running_iff:
  "hm_wf m \<Longrightarrow> list_ex (\<lambda>s. s = Running) (hm_values m) \<longleftrightarrow> (\<exists>n. hm_get m n = Some Running)"
  by (force simp: list_ex_iff hm_values_def hm_get_in_set)

lemma running_value_iff: "hm_wf m \<Longrightarrow> Running \<in> set (hm_values m) \<longleftrightarrow> (\<exists>n. hm_get m n = Some Running)"
  using any_running_iff[of m] by (simp add: list_ex_iff)

lemma is_complete_iff:
  "hm_wf (pr_statuses r) \<Longrightarrow> is_complete r \<longleftrightarrow>
    (\<forall>n. hm_get (pr_statuses r) n \<noteq> Some Running) \<and>
    (\<forall>n. hm_get (pr_statuses r) n = Some Pending \<longrightarrow> \<not> deps_satisfied r n)"
proof -
  assume wf: "hm_wf (pr_statuses r)"
  have "ready_nodes r = [] \<longleftrightarrow> (\<forall>n. n \<notin> set (ready_nodes r))"
    by (cases "ready_nodes r") (simp, force)
  then show ?thesis unfolding ready_nodes_iff[OF wf] by (auto simp: is_complete_def any_running_iff[OF wf])
qed

lemma terminal_iff_complete:
  assumes "pr_wf r"
  shows "run_state_is_terminal (to_run_state r v p) \<longleftrightarrow> is_complete r"
proof -
  have wf: "hm_wf (pr_statuses r)" "hm_wf (pr_dependencies r)" using assms by (auto simp: pr_wf_def)
  have "(\<exists>(node, deps)\<in>set (pr_dependencies r). hm_get (pr_statuses r) node = Some Pending \<and>
      (\<forall>d\<in>set deps. hm_get (pr_statuses r) d = Some Success)) \<longleftrightarrow>
    (\<exists>n. hm_get (pr_statuses r) n = Some Pending \<and> deps_satisfied r n)"
  proof -
    have "hm_get (pr_dependencies r) n \<noteq> None" if "hm_get (pr_statuses r) n = Some Pending" for n
      using assms that by (metis option.discI pr_wf_def)
    then show ?thesis
      using wf(2) by (fastforce simp: deps_satisfied_def list_all_iff hm_get_in_set[symmetric] split: option.splits)
  qed
  with wf show ?thesis
    by (auto simp: run_state_is_terminal_def to_run_state_def hm_collect_id running_value_iff
        is_complete_iff list_ex_iff list_all_iff)
qed

text \<open>The dependency edges of a run, from a dependency to the node that waits for it.\<close>

definition dep_edges :: "pipeline_run \<Rightarrow> (string \<times> string) set" where
  "dep_edges r = {(d, n). \<exists>ds. hm_get (pr_dependencies r) n = Some ds \<and> d \<in> set ds}"

definition deps_closed :: "pipeline_run \<Rightarrow> bool" where
  "deps_closed r \<longleftrightarrow> (\<forall>(d, n)\<in>dep_edges r. hm_get (pr_statuses r) d \<noteq> None)"

lemma finite_dep_edges: "finite (dep_edges r)"
proof -
  have "dep_edges r \<subseteq> (\<Union>(n, ds)\<in>set (pr_dependencies r). (\<lambda>d. (d, n)) ` set ds)"
    by (force simp: dep_edges_def dest: hm_get_SomeD)
  then show ?thesis by (rule finite_subset) auto
qed

lemma complete_pending_blocked:
  assumes wf: "pr_wf r" "deps_closed r" and acyclic: "acyclic (dep_edges r)" and c: "is_complete r"
    and "hm_get (pr_statuses r) n = Some Pending"
  shows "\<exists>f. (f, n) \<in> (dep_edges r)\<^sup>+ \<and> hm_get (pr_statuses r) f = Some Failed"
  using assms(5)
proof (induction n rule: wf_induct_rule[OF finite_acyclic_wf[OF finite_dep_edges acyclic]])
  case (1 n)
  from c wf 1(2) have "\<not> deps_satisfied r n" by (simp add: is_complete_iff pr_wf_def)
  then obtain d where edge: "(d, n) \<in> dep_edges r" and d: "hm_get (pr_statuses r) d \<noteq> Some Success"
    by (auto simp: deps_satisfied_def dep_edges_def list_all_iff split: option.splits)
  with wf(2) obtain s where s: "hm_get (pr_statuses r) d = Some s" "s \<noteq> Success"
    by (fastforce simp: deps_closed_def)
  from c wf s have "s \<noteq> Running" by (auto simp: is_complete_iff pr_wf_def)
  with s consider "s = Pending" | "s = Failed" by (cases s) auto
  then show ?case
  proof cases
    case 1
    with "1.IH"[OF edge] s obtain f where "(f, d) \<in> (dep_edges r)\<^sup>+" "hm_get (pr_statuses r) f = Some Failed"
      by auto
    with edge show ?thesis by (meson trancl_into_trancl)
  next
    case 2
    with edge s show ?thesis by auto
  qed
qed

section \<open>Properties\<close>

text \<open>
  Every history of a run: it starts with every node pending, and the coordinator calls the four
  marking operations, in any order and on any name.
\<close>

inductive run_step :: "pipeline_run \<Rightarrow> pipeline_run \<Rightarrow> bool" where
  step_running: "run_step r (snd (mark_running n r))"
| step_success: "run_step r (snd (mark_success n r))"
| step_failed: "run_step r (snd (mark_failed n r))"
| step_dispatch_failed: "run_step r (snd (mark_dispatch_failed n r))"

inductive_cases run_stepE: "run_step r r'"

lemma run_step_advances: "run_step r r' \<Longrightarrow> advances r r'"
  by (erule run_stepE) (auto intro: mark_advances)

lemma run_step_wf: "run_step r r' \<Longrightarrow> pr_wf r \<Longrightarrow> pr_wf r'"
  by (erule run_stepE) (auto intro: mark_wf)

lemma run_steps_advance: "run_step\<^sup>*\<^sup>* r r' \<Longrightarrow> advances r r'"
  by (induction rule: rtranclp_induct) (auto intro: advances_trans run_step_advances)

lemma run_steps_wf: "run_step\<^sup>*\<^sup>* r r' \<Longrightarrow> pr_wf r \<Longrightarrow> pr_wf r'"
  by (induction rule: rtranclp_induct) (auto intro: run_step_wf)

text \<open>
  Claim C2. Statuses only move forward: along every history the nodes and their dependencies stay
  the same, no node returns to pending, a node leaves running only to succeed or fail, and a
  success or a failure is final. Every state of the history is well formed, and a node is handed
  out as ready only while it is pending and all its dependencies have succeeded.
\<close>

theorem run_statuses_monotone:
  assumes "run_step\<^sup>*\<^sup>* (pr_new nodes) r" and "run_step\<^sup>*\<^sup>* r r'"
  shows "advances r r' \<and> pr_wf r' \<and>
    (\<forall>n. n \<in> set (ready_nodes r') \<longleftrightarrow> hm_get (pr_statuses r') n = Some Pending \<and>
      (\<forall>ds d. hm_get (pr_dependencies r') n = Some ds \<longrightarrow> d \<in> set ds \<longrightarrow> hm_get (pr_statuses r') d = Some Success))"
proof -
  from assms have "run_step\<^sup>*\<^sup>* (pr_new nodes) r'" by simp
  with pr_new_wf run_steps_wf have wf: "pr_wf r'" by blast
  then have "hm_wf (pr_statuses r')" by (simp add: pr_wf_def)
  with wf run_steps_advance[OF assms(2)] show ?thesis
    by (auto simp: ready_nodes_iff deps_satisfied_def list_all_iff split: option.splits)
qed

text \<open>
  Claim C34. The coordinator and the state store agree on when a run is over: the state that the
  coordinator saves is terminal for the store, and so claimed by the garbage collector and not
  by another server, exactly when the coordinator considers the run complete.
\<close>

theorem terminal_agrees_with_complete:
  assumes "run_step\<^sup>*\<^sup>* (pr_new nodes) r"
  shows "run_state_is_terminal (to_run_state r v p) \<longleftrightarrow> is_complete r"
  using run_steps_wf[OF assms pr_new_wf] by (rule terminal_iff_complete)

text \<open>
  Claim C35. A server that takes over a run continues where the other stopped: reading back a saved
  run gives the same statuses and dependencies, and the saved state carries the version and the
  pipeline it was saved with.
\<close>

theorem run_state_roundtrip:
  assumes "run_step\<^sup>*\<^sup>* (pr_new nodes) r"
  shows "from_run_state (to_run_state r v p) = r \<and>
    rs_version (to_run_state r v p) = v \<and> rs_pipeline (to_run_state r v p) = p"
  using to_from_run_state[OF run_steps_wf[OF assms pr_new_wf]] by (simp add: to_run_state_def)

text \<open>
  Claim C17. A complete run is a finished run: when the dependencies are nodes of the run and have
  no cycle, then in a complete run every node has succeeded, has failed, or is pending behind a
  failed node it depends on, directly or not. So a complete run without failures has succeeded.
\<close>

theorem complete_run_finished:
  assumes "run_step\<^sup>*\<^sup>* (pr_new nodes) r" and "deps_closed r" and "acyclic (dep_edges r)"
    and "is_complete r" and "hm_get (pr_statuses r) n = Some s"
  shows "s = Success \<or> s = Failed \<or>
    s = Pending \<and> (\<exists>f. (f, n) \<in> (dep_edges r)\<^sup>+ \<and> hm_get (pr_statuses r) f = Some Failed)"
proof -
  have wf: "pr_wf r" using run_steps_wf[OF assms(1) pr_new_wf] .
  with assms(4,5) have "s \<noteq> Running" by (auto simp: is_complete_iff pr_wf_def)
  then show ?thesis
    using complete_pending_blocked[OF wf assms(2-4)] assms(5) by (cases s) auto
qed

text \<open>
  Validation does not look for cycles: a pipeline with two nodes that wait for each other
  is accepted, and its run is complete before anything was dispatched, with both nodes pending.
\<close>

theorem cyclic_pipeline_accepted:
  "from_yaml (\<lambda>_. Inr (plain_pipeline [plain_node ''a'' [''b''], plain_node ''b'' [''a'']])) yaml =
      Inr (plain_pipeline [plain_node ''a'' [''b''], plain_node ''b'' [''a'']]) \<and>
   is_complete (pr_new (pipeline_node_info (plain_pipeline [plain_node ''a'' [''b''], plain_node ''b'' [''a'']]))) \<and>
   hm_values (pr_statuses (pr_new (pipeline_node_info (plain_pipeline [plain_node ''a'' [''b''], plain_node ''b'' [''a'']])))) =
     [Pending, Pending]"
  by code_simp

section \<open>Witnesses\<close>

abbreviation demo_nodes :: "node_info list" where
  "demo_nodes \<equiv> pipeline_node_info (plain_pipeline [plain_node ''a'' [], plain_node ''b'' [''a'']])"

abbreviation demo_run :: pipeline_run where
  "demo_run \<equiv> snd (mark_failed ''a'' (pr_new demo_nodes))"

lemma demo_run_reachable: "run_step\<^sup>*\<^sup>* (pr_new demo_nodes) demo_run"
  by (intro r_into_rtranclp step_failed)

lemma demo_run_value:
  "demo_run = \<lparr> pr_statuses = [(''a'', Failed), (''b'', Pending)],
     pr_dependencies = [(''a'', []), (''b'', [''a''])] \<rparr>"
  by (simp add: pr_new_def pipeline_node_info_def node_info_of_def mark_failed_def pr_set_def hm_collect_def
      hm_extend_def hm_insert_def hm_get_def)

theorem run_statuses_monotone_witness: "advances (pr_new demo_nodes) demo_run"
  using run_statuses_monotone[OF rtranclp.rtrancl_refl demo_run_reachable] by blast

theorem terminal_agrees_with_complete_witness:
  "run_state_is_terminal (to_run_state demo_run 1 (plain_pipeline []))"
  using terminal_agrees_with_complete[OF demo_run_reachable, of 1 "plain_pipeline []"] unfolding demo_run_value
  by (simp add: is_complete_def hm_values_def ready_nodes_def deps_satisfied_def hm_get_def)

theorem run_state_roundtrip_witness: "from_run_state (to_run_state demo_run 1 (plain_pipeline [])) = demo_run"
  using run_state_roundtrip[OF demo_run_reachable, of 1 "plain_pipeline []"] by blast

theorem complete_run_finished_witness:
  "\<exists>f. (f, ''b'') \<in> (dep_edges demo_run)\<^sup>+ \<and> hm_get (pr_statuses demo_run) f = Some Failed"
proof -
  have edges: "dep_edges demo_run = {(''a'', ''b'')}"
    unfolding demo_run_value by (auto simp: dep_edges_def hm_get_def split: if_splits)
  moreover have "acyclic {(''a'', ''b'')}" by (rule acyclic_insert[THEN iffD2]) (simp add: wf_acyclic)
  moreover have "deps_closed demo_run" by (simp add: deps_closed_def edges) (simp add: demo_run_value hm_get_def)
  moreover have "is_complete demo_run" unfolding demo_run_value
    by (simp add: is_complete_def hm_values_def ready_nodes_def deps_satisfied_def hm_get_def)
  moreover have "hm_get (pr_statuses demo_run) ''b'' = Some Pending" by (simp add: demo_run_value hm_get_def)
  ultimately show ?thesis using complete_run_finished[OF demo_run_reachable, of "''b''" Pending] by simp
qed

end
