(* ===== verification/RunHistory.thy ===== *)
theory RunHistory
  imports PipelineRun
begin

text \<open>
  The history of runs, \<open>src/run_history/src/lib.rs\<close>. The trait \<open>RunHistory\<close> is the record
  \<open>run_history_ops\<close>. \<open>PostgresRunHistory\<close> is modelled by its SQL statements on the two tables of
  \<open>src/run_history/migrations\<close>, with primary keys, the unique constraint, foreign keys and the
  serial of \<open>node_runs\<close>; \<open>pg_down\<close> is the error that a query gets while the database cannot be
  reached. UUID parsing and the collation of text columns are parameters. \<open>NoOpRunHistory\<close> is
  \<open>noop_run_history\<close>.
\<close>

section \<open>Data\<close>

type_synonym uuid = "128 word"

datatype run_history_error = Database string | Migration string | InvalidRunId string

datatype run_status = InProgress | RunSuccess | RunFailure | RunCancelled

fun run_status_as_str :: "run_status \<Rightarrow> string" where
  "run_status_as_str InProgress = ''in_progress''"
| "run_status_as_str RunSuccess = ''success''"
| "run_status_as_str RunFailure = ''failure''"
| "run_status_as_str RunCancelled = ''cancelled''"

definition run_status_from_db_str :: "string \<Rightarrow> string + run_status" where
  "run_status_from_db_str s =
    (if s = ''in_progress'' then Inr InProgress
     else if s = ''success'' then Inr RunSuccess
     else if s = ''failure'' then Inr RunFailure
     else if s = ''cancelled'' then Inr RunCancelled
     else Inl (''Unknown run status: '' @ s))"

record pipeline_start_record =
  ps_run_id :: string
  ps_pipeline_name :: string
  ps_owner :: string
  ps_repo :: string
  ps_sha :: string
  ps_branch :: "string option"
  ps_target_branch :: "string option"
  ps_tag :: "string option"
  ps_pr_number :: "i64 option"
  ps_trigger :: string
  ps_pipeline_definition :: string
  ps_created_at :: datetime
  ps_retry_of :: "string option"
  ps_tenant_slug :: "string option"
  ps_github_check_run_id :: "i64 option"

text \<open>\<open>PipelineRunRecord\<close> has the same fields and two more.\<close>

record pipeline_run_record = pipeline_start_record +
  pe_status :: run_status
  pe_completed_at :: "datetime option"

record node_dispatch_record =
  nd_run_id :: string
  nd_node_name :: string
  nd_node_definition :: string
  nd_created_at :: datetime

record node_run_record =
  nr_run_id :: string
  nr_node_name :: string
  nr_node_definition :: string
  nr_success :: bool
  nr_created_at :: datetime
  nr_started_at :: "datetime option"
  nr_completed_at :: "datetime option"
  nr_output_log :: "string option"
  nr_failure_reason :: "string option"

record pipeline_run_row =
  row_run_id :: uuid
  row_pipeline_name :: string
  row_owner :: string
  row_repo :: string
  row_sha :: string
  row_branch :: "string option"
  row_target_branch :: "string option"
  row_tag :: "string option"
  row_pr_number :: "i64 option"
  row_trigger :: string
  row_pipeline_definition :: string
  row_status :: run_status
  row_created_at :: datetime
  row_completed_at :: "datetime option"
  row_retry_of :: "uuid option"
  row_tenant_slug :: "string option"
  row_github_check_run_id :: "i64 option"

text \<open>A row of \<open>node_runs\<close>; \<open>NodeRunRow\<close> is such a row without the output log.\<close>

record node_run_row =
  node_id :: i64
  node_run_id :: uuid
  node_node_name :: string
  node_definition :: string
  node_success :: "bool option"
  node_created_at :: datetime
  node_started_at :: "datetime option"
  node_completed_at :: "datetime option"
  node_failure_reason :: "string option"

record node_table_row = node_run_row +
  node_output_log :: "string option"

datatype sort_column = CreatedAt | CompletedAt | PipelineName | Owner | StatusColumn

definition sort_column_parse :: "string \<Rightarrow> sort_column option" where
  "sort_column_parse s =
    (if s = ''created_at'' then Some CreatedAt
     else if s = ''completed_at'' then Some CompletedAt
     else if s = ''pipeline_name'' then Some PipelineName
     else if s = ''owner'' then Some Owner
     else if s = ''status'' then Some StatusColumn
     else None)"

fun sort_column_as_sql :: "sort_column \<Rightarrow> string" where
  "sort_column_as_sql CreatedAt = ''created_at''"
| "sort_column_as_sql CompletedAt = ''completed_at''"
| "sort_column_as_sql PipelineName = ''pipeline_name''"
| "sort_column_as_sql Owner = ''owner''"
| "sort_column_as_sql StatusColumn = ''status''"

datatype sort_order = Asc | Desc

definition sort_order_parse :: "string \<Rightarrow> sort_order option" where
  "sort_order_parse s = (if s = ''asc'' then Some Asc else if s = ''desc'' then Some Desc else None)"

fun sort_order_as_sql :: "sort_order \<Rightarrow> string" where
  "sort_order_as_sql Asc = ''ASC''"
| "sort_order_as_sql Desc = ''DESC''"

record run_filters =
  rf_owner :: "string option"
  rf_repo :: "string option"
  rf_pipeline_name :: "string option"
  rf_sha :: "string option"

record list_runs_query =
  lq_limit :: i64
  lq_offset :: i64
  lq_sort_by :: sort_column
  lq_order :: sort_order
  lq_filters :: run_filters

text \<open>The trait object \<open>Arc<dyn RunHistory>\<close>.\<close>

type_synonym ('w, 'a) history_io = "('w, run_history_error + 'a) state"

record 'w run_history_ops =
  rh_record_pipeline_started :: "pipeline_start_record \<Rightarrow> ('w, unit) history_io"
  rh_record_pipeline_run :: "pipeline_run_record \<Rightarrow> ('w, unit) history_io"
  rh_finalize_pipeline_run_status :: "string \<Rightarrow> run_status \<Rightarrow> datetime \<Rightarrow> ('w, bool) history_io"
  rh_list_in_progress_runs :: "('w, pipeline_run_row list) history_io"
  rh_record_node_dispatched :: "node_dispatch_record \<Rightarrow> ('w, unit) history_io"
  rh_record_node_run :: "node_run_record \<Rightarrow> ('w, unit) history_io"
  rh_list_pipeline_runs :: "list_runs_query \<Rightarrow> ('w, pipeline_run_row list) history_io"
  rh_count_pipeline_runs :: "run_filters \<Rightarrow> ('w, i64) history_io"
  rh_get_pipeline_run :: "string \<Rightarrow> ('w, pipeline_run_row option) history_io"
  rh_list_originating_runs_for_sha ::
    "string \<Rightarrow> string \<Rightarrow> string \<Rightarrow> string \<Rightarrow> ('w, pipeline_run_row list) history_io"
  rh_list_node_runs :: "string \<Rightarrow> ('w, node_run_row list) history_io"
  rh_get_node_run :: "string \<Rightarrow> string \<Rightarrow> ('w, node_run_row option) history_io"
  rh_get_node_log :: "string \<Rightarrow> string \<Rightarrow> ('w, string option) history_io"
  rh_ping :: "('w, unit) history_io"

section \<open>The Postgres history\<close>

record postgres =
  pg_pipeline_runs :: "pipeline_run_row list"
  pg_node_runs :: "node_table_row list"
  pg_next_node_id :: i64
  pg_down :: "string option"

type_synonym 'a pg_io = "(postgres, run_history_error + 'a) state"

definition parse_run_id :: "(string \<Rightarrow> string + uuid) \<Rightarrow> string \<Rightarrow> run_history_error + uuid" where
  "parse_run_id uuid_parse s = (case uuid_parse s of Inl e \<Rightarrow> Inl (InvalidRunId e) | Inr u \<Rightarrow> Inr u)"

text \<open>\<open>r.retry_of.as_deref().map(parse_run_id).transpose()\<close>\<close>

definition parse_retry_of :: "(string \<Rightarrow> string + uuid) \<Rightarrow> string option \<Rightarrow> run_history_error + uuid option" where
  "parse_retry_of uuid_parse r =
    (case r of None \<Rightarrow> Inr None | Some s \<Rightarrow> and_then (parse_run_id uuid_parse s) (\<lambda>u. Inr (Some u)))"

text \<open>A statement on a reachable database.\<close>

definition query :: "(postgres \<Rightarrow> (run_history_error + 'a) \<times> postgres) \<Rightarrow> 'a pg_io" where
  "query stmt = State (\<lambda>db. case pg_down db of Some e \<Rightarrow> (Inl (Database e), db) | None \<Rightarrow> stmt db)"

definition run_present :: "uuid \<Rightarrow> postgres \<Rightarrow> bool" where
  "run_present u db \<longleftrightarrow> list_ex (\<lambda>row. row_run_id row = u) (pg_pipeline_runs db)"

definition row_of_start :: "uuid \<Rightarrow> uuid option \<Rightarrow> run_status \<Rightarrow> datetime option \<Rightarrow>
    'a pipeline_start_record_scheme \<Rightarrow> pipeline_run_row" where
  "row_of_start u retry st completed r =
    \<lparr> row_run_id = u, row_pipeline_name = ps_pipeline_name r, row_owner = ps_owner r,
      row_repo = ps_repo r, row_sha = ps_sha r, row_branch = ps_branch r,
      row_target_branch = ps_target_branch r, row_tag = ps_tag r, row_pr_number = ps_pr_number r,
      row_trigger = ps_trigger r, row_pipeline_definition = ps_pipeline_definition r,
      row_status = st, row_created_at = ps_created_at r, row_completed_at = completed,
      row_retry_of = retry, row_tenant_slug = ps_tenant_slug r,
      row_github_check_run_id = ps_github_check_run_id r \<rparr>"

text \<open>
  \<open>INSERT INTO pipeline_runs ... ON CONFLICT (run_id) DO UPDATE SET upd\<close>. The foreign key
  \<open>retry_of\<close> is checked for the row that is inserted.
\<close>

definition upsert_run ::
  "pipeline_run_row \<Rightarrow> (pipeline_run_row \<Rightarrow> pipeline_run_row) \<Rightarrow> postgres \<Rightarrow> (run_history_error + unit) \<times> postgres" where
  "upsert_run row upd db =
    (if run_present (row_run_id row) db
     then (Inr (), db\<lparr>pg_pipeline_runs :=
        map (\<lambda>x. if row_run_id x = row_run_id row then upd x else x) (pg_pipeline_runs db)\<rparr>)
     else if (case row_retry_of row of None \<Rightarrow> True | Some p \<Rightarrow> p = row_run_id row \<or> run_present p db)
     then (Inr (), db\<lparr>pg_pipeline_runs := pg_pipeline_runs db @ [row]\<rparr>)
     else (Inl (Database ''foreign key violation: retry_of''), db))"

definition pg_record_pipeline_started ::
  "(string \<Rightarrow> string + uuid) \<Rightarrow> pipeline_start_record \<Rightarrow> unit pg_io" where
  "pg_record_pipeline_started uuid_parse r =
    (case parse_run_id uuid_parse (ps_run_id r) of
       Inl e \<Rightarrow> State_Monad.return (Inl e)
     | Inr u \<Rightarrow>
        (case parse_retry_of uuid_parse (ps_retry_of r) of
           Inl e \<Rightarrow> State_Monad.return (Inl e)
         | Inr retry \<Rightarrow>
            query (upsert_run (row_of_start u retry InProgress None r)
              (\<lambda>x. x\<lparr>row_github_check_run_id :=
                 (case row_github_check_run_id x of Some c \<Rightarrow> Some c | None \<Rightarrow> ps_github_check_run_id r)\<rparr>))))"

definition pg_record_pipeline_run ::
  "(string \<Rightarrow> string + uuid) \<Rightarrow> pipeline_run_record \<Rightarrow> unit pg_io" where
  "pg_record_pipeline_run uuid_parse r =
    (case parse_run_id uuid_parse (ps_run_id r) of
       Inl e \<Rightarrow> State_Monad.return (Inl e)
     | Inr u \<Rightarrow>
        (case parse_retry_of uuid_parse (ps_retry_of r) of
           Inl e \<Rightarrow> State_Monad.return (Inl e)
         | Inr retry \<Rightarrow>
            query (upsert_run (row_of_start u retry (pe_status r) (pe_completed_at r) r)
              (\<lambda>x. x\<lparr>row_status := pe_status r, row_completed_at := pe_completed_at r\<rparr>))))"

definition pg_finalize_pipeline_run_status ::
  "(string \<Rightarrow> string + uuid) \<Rightarrow> string \<Rightarrow> run_status \<Rightarrow> datetime \<Rightarrow> bool pg_io" where
  "pg_finalize_pipeline_run_status uuid_parse run_id st completed_at =
    (case parse_run_id uuid_parse run_id of
       Inl e \<Rightarrow> State_Monad.return (Inl e)
     | Inr u \<Rightarrow> query (\<lambda>db.
        let hit = (\<lambda>x. row_run_id x = u \<and> row_status x = InProgress);
            rows_affected = length (filter hit (pg_pipeline_runs db))
        in (Inr (0 < rows_affected), db\<lparr>pg_pipeline_runs :=
              map (\<lambda>x. if hit x then x\<lparr>row_status := st, row_completed_at := Some completed_at\<rparr> else x)
                (pg_pipeline_runs db)\<rparr>)))"

text \<open>
  \<open>INSERT INTO node_runs ... ON CONFLICT (run_id, node_name) DO upd\<close>: the serial advances on
  every attempt, also when the row is there already or the foreign key fails.
\<close>

definition upsert_node ::
  "node_table_row \<Rightarrow> (node_table_row \<Rightarrow> node_table_row) \<Rightarrow> postgres \<Rightarrow> (run_history_error + unit) \<times> postgres" where
  "upsert_node row upd db0 =
    (let db = db0\<lparr>pg_next_node_id := pg_next_node_id db0 + 1\<rparr>;
         same = (\<lambda>x. node_run_id x = node_run_id row \<and> node_node_name x = node_node_name row)
     in if list_ex same (pg_node_runs db)
        then (Inr (), db\<lparr>pg_node_runs := map (\<lambda>x. if same x then upd x else x) (pg_node_runs db)\<rparr>)
        else if run_present (node_run_id row) db
        then (Inr (), db\<lparr>pg_node_runs := pg_node_runs db @ [row\<lparr>node_id := pg_next_node_id db0\<rparr>]\<rparr>)
        else (Inl (Database ''foreign key violation: run_id''), db))"

definition pg_record_node_dispatched ::
  "(string \<Rightarrow> string + uuid) \<Rightarrow> node_dispatch_record \<Rightarrow> unit pg_io" where
  "pg_record_node_dispatched uuid_parse r =
    (case parse_run_id uuid_parse (nd_run_id r) of
       Inl e \<Rightarrow> State_Monad.return (Inl e)
     | Inr u \<Rightarrow> query (upsert_node
        \<lparr> node_id = 0, node_run_id = u, node_node_name = nd_node_name r,
          node_definition = nd_node_definition r, node_success = None,
          node_created_at = nd_created_at r, node_started_at = None, node_completed_at = None,
          node_failure_reason = None, node_output_log = None \<rparr> (\<lambda>x. x)))"

definition pg_record_node_run :: "(string \<Rightarrow> string + uuid) \<Rightarrow> node_run_record \<Rightarrow> unit pg_io" where
  "pg_record_node_run uuid_parse r =
    (case parse_run_id uuid_parse (nr_run_id r) of
       Inl e \<Rightarrow> State_Monad.return (Inl e)
     | Inr u \<Rightarrow> query (upsert_node
        \<lparr> node_id = 0, node_run_id = u, node_node_name = nr_node_name r,
          node_definition = nr_node_definition r, node_success = Some (nr_success r),
          node_created_at = nr_created_at r, node_started_at = nr_started_at r,
          node_completed_at = nr_completed_at r, node_failure_reason = nr_failure_reason r,
          node_output_log = nr_output_log r \<rparr>
        (\<lambda>x. x\<lparr>node_success := Some (nr_success r), node_started_at := nr_started_at r,
          node_completed_at := nr_completed_at r, node_output_log := nr_output_log r,
          node_failure_reason := nr_failure_reason r\<rparr>)))"

definition filter_where :: "run_filters \<Rightarrow> pipeline_run_row \<Rightarrow> bool" where
  "filter_where f x \<longleftrightarrow>
    (rf_owner f = None \<or> rf_owner f = Some (row_owner x)) \<and>
    (rf_repo f = None \<or> rf_repo f = Some (row_repo x)) \<and>
    (rf_pipeline_name f = None \<or> rf_pipeline_name f = Some (row_pipeline_name x)) \<and>
    (rf_sha f = None \<or> rf_sha f = Some (row_sha x))"

text \<open>
  The value of the sort column: a number or the collation key of a text, and \<open>None\<close> for NULL.
\<close>

fun sort_value :: "(string \<Rightarrow> string) \<Rightarrow> sort_column \<Rightarrow> pipeline_run_row \<Rightarrow> (int \<times> string) option" where
  "sort_value collate CreatedAt x = Some (row_created_at x, [])"
| "sort_value collate CompletedAt x = map_option (\<lambda>t. (t, [])) (row_completed_at x)"
| "sort_value collate PipelineName x = Some (0, collate (row_pipeline_name x))"
| "sort_value collate Owner x = Some (0, collate (row_owner x))"
| "sort_value collate StatusColumn x = Some (0, collate (run_status_as_str (row_status x)))"

fun insert_by :: "('a \<Rightarrow> 'a \<Rightarrow> bool) \<Rightarrow> 'a \<Rightarrow> 'a list \<Rightarrow> 'a list" where
  "insert_by before x [] = [x]"
| "insert_by before x (y # ys) = (if before y x then y # insert_by before x ys else x # y # ys)"

definition sort_by :: "('a \<Rightarrow> 'a \<Rightarrow> bool) \<Rightarrow> 'a list \<Rightarrow> 'a list" where
  "sort_by before xs = foldr (insert_by before) xs []"

fun key_before :: "sort_order \<Rightarrow> (int \<times> string) option \<Rightarrow> (int \<times> string) option \<Rightarrow> bool" where
  "key_before ord None y \<longleftrightarrow> False"
| "key_before ord (Some a) None \<longleftrightarrow> True"
| "key_before Asc (Some a) (Some b) \<longleftrightarrow> fst a < fst b \<or> fst a = fst b \<and> snd a < snd b"
| "key_before Desc (Some a) (Some b) \<longleftrightarrow> fst b < fst a \<or> fst a = fst b \<and> snd b < snd a"

text \<open>\<open>ORDER BY col ord NULLS LAST LIMIT l OFFSET o\<close>; a negative limit or offset is an error.\<close>

definition pg_list_pipeline_runs ::
  "(string \<Rightarrow> string) \<Rightarrow> list_runs_query \<Rightarrow> pipeline_run_row list pg_io" where
  "pg_list_pipeline_runs collate q = query (\<lambda>db.
    if lq_limit q < 0 \<or> lq_offset q < 0 then (Inl (Database ''LIMIT and OFFSET must not be negative''), db)
    else (Inr (take (nat (lq_limit q)) (drop (nat (lq_offset q))
      (sort_by (\<lambda>x y. key_before (lq_order q) (sort_value collate (lq_sort_by q) x)
          (sort_value collate (lq_sort_by q) y))
        (filter (filter_where (lq_filters q)) (pg_pipeline_runs db))))), db))"

definition pg_list_in_progress_runs :: "pipeline_run_row list pg_io" where
  "pg_list_in_progress_runs =
    query (\<lambda>db. (Inr (filter (\<lambda>x. row_status x = InProgress) (pg_pipeline_runs db)), db))"

definition pg_count_pipeline_runs :: "run_filters \<Rightarrow> i64 pg_io" where
  "pg_count_pipeline_runs f =
    query (\<lambda>db. (Inr (int (length (filter (filter_where f) (pg_pipeline_runs db)))), db))"

definition pg_get_pipeline_run :: "(string \<Rightarrow> string + uuid) \<Rightarrow> string \<Rightarrow> pipeline_run_row option pg_io" where
  "pg_get_pipeline_run uuid_parse run_id =
    (case parse_run_id uuid_parse run_id of
       Inl e \<Rightarrow> State_Monad.return (Inl e)
     | Inr u \<Rightarrow> query (\<lambda>db. (Inr (find (\<lambda>x. row_run_id x = u) (pg_pipeline_runs db)), db)))"

definition pg_list_originating_runs_for_sha ::
  "string \<Rightarrow> string \<Rightarrow> string \<Rightarrow> string \<Rightarrow> pipeline_run_row list pg_io" where
  "pg_list_originating_runs_for_sha tenant_slug owner repo sha = query (\<lambda>db.
    (Inr (sort_by (\<lambda>x y. row_created_at x < row_created_at y)
      (filter (\<lambda>x. row_tenant_slug x = Some tenant_slug \<and> row_owner x = owner \<and> row_repo x = repo \<and>
         row_sha x = sha \<and> row_retry_of x = None) (pg_pipeline_runs db))), db))"

definition pg_list_node_runs :: "(string \<Rightarrow> string + uuid) \<Rightarrow> string \<Rightarrow> node_run_row list pg_io" where
  "pg_list_node_runs uuid_parse run_id =
    (case parse_run_id uuid_parse run_id of
       Inl e \<Rightarrow> State_Monad.return (Inl e)
     | Inr u \<Rightarrow> query (\<lambda>db.
        (Inr (sort_by (\<lambda>x y. node_id x < node_id y)
          (map node_run_row.truncate (filter (\<lambda>x. node_run_id x = u) (pg_node_runs db)))), db)))"

definition pg_get_node_run ::
  "(string \<Rightarrow> string + uuid) \<Rightarrow> string \<Rightarrow> string \<Rightarrow> node_run_row option pg_io" where
  "pg_get_node_run uuid_parse run_id node_name =
    (case parse_run_id uuid_parse run_id of
       Inl e \<Rightarrow> State_Monad.return (Inl e)
     | Inr u \<Rightarrow> query (\<lambda>db.
        (Inr (map_option node_run_row.truncate
          (find (\<lambda>x. node_run_id x = u \<and> node_node_name x = node_name) (pg_node_runs db))), db)))"

definition pg_get_node_log ::
  "(string \<Rightarrow> string + uuid) \<Rightarrow> string \<Rightarrow> string \<Rightarrow> string option pg_io" where
  "pg_get_node_log uuid_parse run_id node_name =
    (case parse_run_id uuid_parse run_id of
       Inl e \<Rightarrow> State_Monad.return (Inl e)
     | Inr u \<Rightarrow> query (\<lambda>db.
        (Inr (map_option (\<lambda>x. case node_output_log x of None \<Rightarrow> [] | Some log \<Rightarrow> log)
          (find (\<lambda>x. node_run_id x = u \<and> node_node_name x = node_name) (pg_node_runs db))), db)))"

definition pg_ping :: "unit pg_io" where
  "pg_ping = query (\<lambda>db. (Inr (), db))"

definition postgres_run_history ::
  "(string \<Rightarrow> string + uuid) \<Rightarrow> (string \<Rightarrow> string) \<Rightarrow> postgres run_history_ops" where
  "postgres_run_history uuid_parse collate =
    \<lparr> rh_record_pipeline_started = pg_record_pipeline_started uuid_parse,
      rh_record_pipeline_run = pg_record_pipeline_run uuid_parse,
      rh_finalize_pipeline_run_status = pg_finalize_pipeline_run_status uuid_parse,
      rh_list_in_progress_runs = pg_list_in_progress_runs,
      rh_record_node_dispatched = pg_record_node_dispatched uuid_parse,
      rh_record_node_run = pg_record_node_run uuid_parse,
      rh_list_pipeline_runs = pg_list_pipeline_runs collate,
      rh_count_pipeline_runs = pg_count_pipeline_runs,
      rh_get_pipeline_run = pg_get_pipeline_run uuid_parse,
      rh_list_originating_runs_for_sha = pg_list_originating_runs_for_sha,
      rh_list_node_runs = pg_list_node_runs uuid_parse,
      rh_get_node_run = pg_get_node_run uuid_parse,
      rh_get_node_log = pg_get_node_log uuid_parse,
      rh_ping = pg_ping \<rparr>"

definition noop_run_history :: "'w run_history_ops" where
  "noop_run_history =
    \<lparr> rh_record_pipeline_started = (\<lambda>_. State_Monad.return (Inr ())),
      rh_record_pipeline_run = (\<lambda>_. State_Monad.return (Inr ())),
      rh_finalize_pipeline_run_status = (\<lambda>_ _ _. State_Monad.return (Inr False)),
      rh_list_in_progress_runs = State_Monad.return (Inr []),
      rh_record_node_dispatched = (\<lambda>_. State_Monad.return (Inr ())),
      rh_record_node_run = (\<lambda>_. State_Monad.return (Inr ())),
      rh_list_pipeline_runs = (\<lambda>_. State_Monad.return (Inr [])),
      rh_count_pipeline_runs = (\<lambda>_. State_Monad.return (Inr 0)),
      rh_get_pipeline_run = (\<lambda>_. State_Monad.return (Inr None)),
      rh_list_originating_runs_for_sha = (\<lambda>_ _ _ _. State_Monad.return (Inr [])),
      rh_list_node_runs = (\<lambda>_. State_Monad.return (Inr [])),
      rh_get_node_run = (\<lambda>_ _. State_Monad.return (Inr None)),
      rh_get_node_log = (\<lambda>_ _. State_Monad.return (Inr None)),
      rh_ping = State_Monad.return (Inr ()) \<rparr>"

section \<open>The invariant of the tables\<close>

definition node_key :: "'a node_run_row_scheme \<Rightarrow> uuid \<times> string" where
  "node_key x = (node_run_id x, node_node_name x)"

definition pg_wf :: "postgres \<Rightarrow> bool" where
  "pg_wf db \<longleftrightarrow>
    distinct (map row_run_id (pg_pipeline_runs db)) \<and>
    distinct (map node_key (pg_node_runs db)) \<and>
    sorted_wrt (<) (map node_id (pg_node_runs db)) \<and>
    (\<forall>x\<in>set (pg_node_runs db). node_id x < pg_next_node_id db \<and>
      node_run_id x \<in> row_run_id ` set (pg_pipeline_runs db)) \<and>
    (\<forall>x\<in>set (pg_pipeline_runs db). \<forall>p. row_retry_of x = Some p \<longrightarrow>
      p \<in> row_run_id ` set (pg_pipeline_runs db))"

text \<open>What a row never loses: all its columns but status and completion time.\<close>

definition run_core :: "pipeline_run_row \<Rightarrow> pipeline_run_row" where
  "run_core x = x\<lparr>row_status := InProgress, row_completed_at := None, row_github_check_run_id := None\<rparr>"

definition node_core :: "node_table_row \<Rightarrow> i64 \<times> uuid \<times> string \<times> string \<times> datetime" where
  "node_core x = (node_id x, node_run_id x, node_node_name x, node_definition x, node_created_at x)"

definition keeps_rows :: "postgres \<Rightarrow> postgres \<Rightarrow> bool" where
  "keeps_rows db db' \<longleftrightarrow>
    prefix (map run_core (pg_pipeline_runs db)) (map run_core (pg_pipeline_runs db')) \<and>
    prefix (map node_core (pg_node_runs db)) (map node_core (pg_node_runs db')) \<and>
    (\<forall>x\<in>set (pg_pipeline_runs db). \<forall>c. row_github_check_run_id x = Some c \<longrightarrow>
      (\<exists>y\<in>set (pg_pipeline_runs db'). row_run_id y = row_run_id x \<and> row_github_check_run_id y = Some c))"

lemma keeps_rows_refl [simp]: "keeps_rows db db"
  by (auto simp: keeps_rows_def)

lemma keeps_rows_trans: "keeps_rows a b \<Longrightarrow> keeps_rows b c \<Longrightarrow> keeps_rows a c"
  unfolding keeps_rows_def by (elim conjE, intro conjI) (erule (1) prefix_order.trans, erule (1) prefix_order.trans, fastforce)

lemma run_present_iff: "run_present u db \<longleftrightarrow> u \<in> row_run_id ` set (pg_pipeline_runs db)"
  by (auto simp: run_present_def list_ex_iff)

text \<open>An update of rows that keeps the core of each row, on either table.\<close>

lemma update_runs_ok:
  assumes wf: "pg_wf db" and core: "\<And>x. run_core (g x) = run_core x"
    and check: "\<And>x c. row_github_check_run_id x = Some c \<Longrightarrow> row_github_check_run_id (g x) = Some c"
  shows "pg_wf (db\<lparr>pg_pipeline_runs := map g (pg_pipeline_runs db)\<rparr>) \<and>
    keeps_rows db (db\<lparr>pg_pipeline_runs := map g (pg_pipeline_runs db)\<rparr>)"
proof
  have ids: "row_run_id (g x) = row_run_id x" "row_retry_of (g x) = row_retry_of x" for x
    using arg_cong[OF core[of x], of row_run_id] arg_cong[OF core[of x], of row_retry_of]
    by (simp_all add: run_core_def)
  have img: "row_run_id ` g ` A = row_run_id ` A" for A by (simp add: image_image ids)
  show "pg_wf (db\<lparr>pg_pipeline_runs := map g (pg_pipeline_runs db)\<rparr>)"
    using wf by (simp add: pg_wf_def img ids o_def)
  show "keeps_rows db (db\<lparr>pg_pipeline_runs := map g (pg_pipeline_runs db)\<rparr>)"
    using check ids(1) by (auto simp: keeps_rows_def core o_def)
qed

lemma update_nodes_ok:
  assumes wf: "pg_wf db" and core: "\<And>x. node_core (g x) = node_core x"
  shows "pg_wf (db\<lparr>pg_next_node_id := pg_next_node_id db + 1, pg_node_runs := map g (pg_node_runs db)\<rparr>) \<and>
    keeps_rows db (db\<lparr>pg_next_node_id := pg_next_node_id db + 1, pg_node_runs := map g (pg_node_runs db)\<rparr>)"
proof -
  have ids: "node_id (g x) = node_id x" "node_key (g x) = node_key x" "node_run_id (g x) = node_run_id x" for x
    using core[of x] by (auto simp: node_core_def node_key_def)
  with wf show ?thesis
    by (auto simp: pg_wf_def keeps_rows_def core o_def intro: less_imp_le)
qed

lemma upsert_run_ok:
  assumes "pg_wf db" "upsert_run row upd db = (r, db')" "\<And>x. run_core (upd x) = run_core x"
    and "\<And>x c. row_github_check_run_id x = Some c \<Longrightarrow> row_github_check_run_id (upd x) = Some c"
  shows "pg_wf db' \<and> keeps_rows db db'"
proof (cases "run_present (row_run_id row) db")
  case True
  with assms update_runs_ok[OF assms(1), of "\<lambda>x. if row_run_id x = row_run_id row then upd x else x"]
  show ?thesis by (auto simp: upsert_run_def)
next
  case False
  with assms(1,2) show ?thesis
    by (auto simp: upsert_run_def pg_wf_def keeps_rows_def run_present_iff split: if_splits option.splits)
qed

lemma upsert_node_ok:
  assumes "pg_wf db" "upsert_node row upd db = (r, db')" "\<And>x. node_core (upd x) = node_core x"
  shows "pg_wf db' \<and> keeps_rows db db'"
proof (cases "list_ex (\<lambda>x. node_run_id x = node_run_id row \<and> node_node_name x = node_node_name row) (pg_node_runs db)")
  case True
  with assms(2,3) update_nodes_ok[OF assms(1), of
      "\<lambda>x. if node_run_id x = node_run_id row \<and> node_node_name x = node_node_name row then upd x else x"]
  show ?thesis by (auto simp: upsert_node_def Let_def)
next
  case False
  then have "node_key row \<notin> node_key ` set (pg_node_runs db)"
    by (auto simp: list_ex_iff node_key_def)
  with False assms(1,2) show ?thesis
    by (auto simp: upsert_node_def Let_def pg_wf_def keeps_rows_def run_present_iff node_key_def
        sorted_wrt_append less_imp_le split: if_splits)
qed

text \<open>The statements that write, as steps of the database.\<close>

inductive pg_step :: "(string \<Rightarrow> string + uuid) \<Rightarrow> postgres \<Rightarrow> postgres \<Rightarrow> bool"
  for up :: "string \<Rightarrow> string + uuid" where
  "pg_step up db (snd (State_Monad.run_state (pg_record_pipeline_started up r) db))"
| "pg_step up db (snd (State_Monad.run_state (pg_record_pipeline_run up q) db))"
| "pg_step up db (snd (State_Monad.run_state (pg_finalize_pipeline_run_status up i st t) db))"
| "pg_step up db (snd (State_Monad.run_state (pg_record_node_dispatched up d) db))"
| "pg_step up db (snd (State_Monad.run_state (pg_record_node_run up n) db))"

inductive_cases pg_stepE: "pg_step up db db'"

lemma query_ok:
  assumes "\<And>r db'. stmt db = (r, db') \<Longrightarrow> pg_wf db' \<and> keeps_rows db db'" "pg_wf db"
  shows "pg_wf (snd (State_Monad.run_state (query stmt) db)) \<and>
    keeps_rows db (snd (State_Monad.run_state (query stmt) db))"
  using assms by (cases "stmt db") (auto simp: query_def split: option.splits)

lemma pg_step_ok:
  assumes "pg_step up db db'" "pg_wf db"
  shows "pg_wf db' \<and> keeps_rows db db'"
  using assms(1)
proof (rule pg_stepE)
  fix r
  assume eq: "db' = snd (State_Monad.run_state (pg_record_pipeline_started up r) db)"
  let ?s = "\<lambda>u retry. upsert_run (row_of_start u retry InProgress None r)
    (\<lambda>x. x\<lparr>row_github_check_run_id :=
       (case row_github_check_run_id x of Some c \<Rightarrow> Some c | None \<Rightarrow> ps_github_check_run_id r)\<rparr>)"
  have "pg_wf (snd (State_Monad.run_state (query (?s u retry)) db)) \<and>
    keeps_rows db (snd (State_Monad.run_state (query (?s u retry)) db))" for u retry
  proof (rule query_ok[OF _ assms(2)])
    fix p d
    assume "?s u retry db = (p, d)"
    then show "pg_wf d \<and> keeps_rows db d" by (rule upsert_run_ok[OF assms(2)]) (auto simp: run_core_def)
  qed
  then show ?thesis
    using assms(2) by (simp add: eq pg_record_pipeline_started_def split: sum.split)
next
  fix q
  assume eq: "db' = snd (State_Monad.run_state (pg_record_pipeline_run up q) db)"
  let ?s = "\<lambda>u retry. upsert_run (row_of_start u retry (pe_status q) (pe_completed_at q) q)
    (\<lambda>x. x\<lparr>row_status := pe_status q, row_completed_at := pe_completed_at q\<rparr>)"
  have "pg_wf (snd (State_Monad.run_state (query (?s u retry)) db)) \<and>
    keeps_rows db (snd (State_Monad.run_state (query (?s u retry)) db))" for u retry
  proof (rule query_ok[OF _ assms(2)])
    fix p d
    assume "?s u retry db = (p, d)"
    then show "pg_wf d \<and> keeps_rows db d" by (rule upsert_run_ok[OF assms(2)]) (auto simp: run_core_def)
  qed
  then show ?thesis
    using assms(2) by (simp add: eq pg_record_pipeline_run_def split: sum.split)
next
  fix i st t
  assume eq: "db' = snd (State_Monad.run_state (pg_finalize_pipeline_run_status up i st t) db)"
  have "pg_wf (db\<lparr>pg_pipeline_runs := map (\<lambda>x. if P x then x\<lparr>row_status := st, row_completed_at := Some t\<rparr> else x)
      (pg_pipeline_runs db)\<rparr>) \<and> keeps_rows db (db\<lparr>pg_pipeline_runs :=
      map (\<lambda>x. if P x then x\<lparr>row_status := st, row_completed_at := Some t\<rparr> else x) (pg_pipeline_runs db)\<rparr>)" for P
    by (rule update_runs_ok[OF assms(2)]) (auto simp: run_core_def)
  then show ?thesis
    using assms(2) by (auto simp: eq pg_finalize_pipeline_run_status_def query_def Let_def split: sum.splits option.splits)
next
  fix n
  assume eq: "db' = snd (State_Monad.run_state (pg_record_node_dispatched up n) db)"
  let ?s = "\<lambda>row. upsert_node row (\<lambda>x. x)"
  have "pg_wf (snd (State_Monad.run_state (query (?s row)) db)) \<and>
    keeps_rows db (snd (State_Monad.run_state (query (?s row)) db))" for row
  proof (rule query_ok[OF _ assms(2)])
    fix p d
    assume "?s row db = (p, d)"
    then show "pg_wf d \<and> keeps_rows db d" by (rule upsert_node_ok[OF assms(2)]) (auto simp: node_core_def)
  qed
  then show ?thesis
    using assms(2) by (simp add: eq pg_record_node_dispatched_def split: sum.split)
next
  fix n
  assume eq: "db' = snd (State_Monad.run_state (pg_record_node_run up n) db)"
  let ?s = "\<lambda>row. upsert_node row
    (\<lambda>x. x\<lparr>node_success := Some (nr_success n), node_started_at := nr_started_at n,
      node_completed_at := nr_completed_at n, node_output_log := nr_output_log n,
      node_failure_reason := nr_failure_reason n\<rparr>)"
  have "pg_wf (snd (State_Monad.run_state (query (?s row)) db)) \<and>
    keeps_rows db (snd (State_Monad.run_state (query (?s row)) db))" for row
  proof (rule query_ok[OF _ assms(2)])
    fix p d
    assume "?s row db = (p, d)"
    then show "pg_wf d \<and> keeps_rows db d" by (rule upsert_node_ok[OF assms(2)]) (auto simp: node_core_def)
  qed
  then show ?thesis
    using assms(2) by (simp add: eq pg_record_node_run_def split: sum.split)
qed

lemma pg_steps_ok: "(pg_step up)\<^sup>*\<^sup>* db db' \<Longrightarrow> pg_wf db \<Longrightarrow> pg_wf db' \<and> keeps_rows db db'"
  by (induction rule: rtranclp_induct) (auto dest: pg_step_ok intro: keeps_rows_trans)

lemma insert_by_set: "set (insert_by b x xs) = insert x (set xs)"
  by (induction xs) auto

lemma sort_by_set: "set (sort_by b xs) = set xs"
  unfolding sort_by_def by (induction xs) (auto simp: insert_by_set)

lemma insert_by_sorted:
  assumes "\<And>x y z. \<not> b y x \<Longrightarrow> \<not> b z y \<Longrightarrow> \<not> b z x" "\<And>x y. b x y \<Longrightarrow> \<not> b y x"
    and "sorted_wrt (\<lambda>x y. \<not> b y x) xs"
  shows "sorted_wrt (\<lambda>x y. \<not> b y x) (insert_by b x xs)"
  using assms(3)
proof (induction xs)
  case (Cons y ys)
  show ?case
  proof (cases "b y x")
    case True
    with assms(2)[of y x] Cons show ?thesis by (simp add: insert_by_set)
  next
    case False
    have "\<not> b z x" if "z \<in> set ys" for z
      using Cons.prems that by (intro assms(1)[OF False]) simp
    with False Cons show ?thesis by simp
  qed
qed simp

lemma sort_by_sorted:
  assumes "\<And>x y z. \<not> b y x \<Longrightarrow> \<not> b z y \<Longrightarrow> \<not> b z x" "\<And>x y. b x y \<Longrightarrow> \<not> b y x"
  shows "sorted_wrt (\<lambda>x y. \<not> b y x) (sort_by b xs)"
  unfolding sort_by_def by (induction xs) (simp_all add: insert_by_sorted[OF assms])

lemma key_before_order:
  "\<not> key_before ord y x \<Longrightarrow> \<not> key_before ord z y \<Longrightarrow> \<not> key_before ord z x"
  "key_before ord x y \<Longrightarrow> \<not> key_before ord y x"
  by (cases ord; cases x; cases y; cases z; auto)+

section \<open>Properties\<close>

text \<open>
  Claim C20. The history is append-only: whatever the servers write, in any order and with any
  failures, run ids stay unique, a run has at most one row per node, node rows and retries refer
  to recorded runs, and every row stays with all its columns except the status and completion of
  a run, a check-run id that was missing, and the outcome of a node.
\<close>

theorem history_append_only:
  assumes "(pg_step uuid_parse)\<^sup>*\<^sup>* db db'" and "pg_wf db"
  shows "pg_wf db' \<and> keeps_rows db db'"
  using pg_steps_ok[OF assms] .

text \<open>
  \<open>finalize_pipeline_run_status\<close> closes a run exactly once: on a reachable database it
  reports true exactly when the run is in progress, then the run has the given status and
  completion time; a run that already ended, and every other run, is left as it was.
\<close>

theorem finalize_closes_once:
  assumes "uuid_parse i = Inr u" and "pg_down db = None"
    and "State_Monad.run_state (pg_finalize_pipeline_run_status uuid_parse i st t) db = (r, db')"
  shows "r = Inr (\<exists>x\<in>set (pg_pipeline_runs db). row_run_id x = u \<and> row_status x = InProgress) \<and>
    pg_node_runs db' = pg_node_runs db \<and> length (pg_pipeline_runs db') = length (pg_pipeline_runs db) \<and>
    (\<forall>k<length (pg_pipeline_runs db). pg_pipeline_runs db' ! k =
      (let x = pg_pipeline_runs db ! k in
       if row_run_id x = u \<and> row_status x = InProgress
       then x\<lparr>row_status := st, row_completed_at := Some t\<rparr> else x))"
  using assms
  by (auto simp: pg_finalize_pipeline_run_status_def parse_run_id_def query_def Let_def filter_empty_conv)

text \<open>
  A page of the run list has at most \<open>limit\<close> rows, only rows that pass the filters, and is
  ordered by the requested column and direction with missing values last.
\<close>

theorem list_runs_page:
  assumes "State_Monad.run_state (pg_list_pipeline_runs collate q) db = (Inr rows, db')"
  shows "db' = db \<and> int (length rows) \<le> lq_limit q \<and>
    (\<forall>x\<in>set rows. x \<in> set (pg_pipeline_runs db) \<and> filter_where (lq_filters q) x) \<and>
    sorted_wrt (\<lambda>x y. \<not> key_before (lq_order q) (sort_value collate (lq_sort_by q) y)
      (sort_value collate (lq_sort_by q) x)) rows"
proof -
  let ?b = "\<lambda>x y. key_before (lq_order q) (sort_value collate (lq_sort_by q) x) (sort_value collate (lq_sort_by q) y)"
  let ?all = "sort_by ?b (filter (filter_where (lq_filters q)) (pg_pipeline_runs db))"
  from assms have rows: "rows = take (nat (lq_limit q)) (drop (nat (lq_offset q)) ?all)" "db' = db" "0 \<le> lq_limit q"
    by (auto simp: pg_list_pipeline_runs_def query_def split: option.splits if_splits)
  have "sorted_wrt (\<lambda>x y. \<not> ?b y x) ?all"
    by (rule sort_by_sorted) (rule key_before_order; assumption)+
  then have "sorted_wrt (\<lambda>x y. \<not> ?b y x) rows"
    unfolding rows by (intro sorted_wrt_take sorted_wrt_drop)
  moreover have "set rows \<subseteq> set ?all"
    unfolding rows by (meson in_set_dropD in_set_takeD subsetI)
  ultimately show ?thesis using rows(2,3) by (auto simp: rows(1) sort_by_set)
qed

section \<open>Witnesses\<close>

abbreviation demo_db :: postgres where
  "demo_db \<equiv> \<lparr> pg_pipeline_runs = [], pg_node_runs = [], pg_next_node_id = 1, pg_down = None \<rparr>"

abbreviation demo_start :: pipeline_start_record where
  "demo_start \<equiv>
    \<lparr> ps_run_id = ''r'', ps_pipeline_name = ''p'', ps_owner = ''o'', ps_repo = ''r'', ps_sha = ''s'',
      ps_branch = None, ps_target_branch = None, ps_tag = None, ps_pr_number = None,
      ps_trigger = ''push'', ps_pipeline_definition = [], ps_created_at = 0, ps_retry_of = None,
      ps_tenant_slug = None, ps_github_check_run_id = None \<rparr>"

definition demo_db1 :: postgres where
  "demo_db1 = snd (State_Monad.run_state (pg_record_pipeline_started (\<lambda>_. Inr 7) demo_start) demo_db)"

lemma demo_db1_value:
  "demo_db1 = demo_db\<lparr>pg_pipeline_runs := [row_of_start 7 None InProgress None demo_start]\<rparr>"
  by (simp add: demo_db1_def pg_record_pipeline_started_def parse_run_id_def parse_retry_of_def query_def
      upsert_run_def run_present_def row_of_start_def)

theorem history_append_only_witness: "pg_wf demo_db1 \<and> keeps_rows demo_db demo_db1"
  by (rule history_append_only[of "\<lambda>_. Inr 7"])
    (auto simp: demo_db1_def pg_wf_def intro: pg_step.intros(1))

theorem finalize_closes_once_witness:
  "fst (State_Monad.run_state (pg_finalize_pipeline_run_status (\<lambda>_. Inr 7) ''r'' RunFailure 9) demo_db1) = Inr True"
  using finalize_closes_once[of "\<lambda>_. Inr 7" "''r''" 7 demo_db1 RunFailure 9, OF refl _ prod.collapse[symmetric]]
  by (simp add: demo_db1_value row_of_start_def)

theorem list_runs_page_witness:
  "\<exists>rows. State_Monad.run_state (pg_list_pipeline_runs (\<lambda>s. s)
      \<lparr> lq_limit = 1, lq_offset = 0, lq_sort_by = Owner, lq_order = Desc,
        lq_filters = \<lparr> rf_owner = None, rf_repo = None, rf_pipeline_name = None, rf_sha = None \<rparr> \<rparr>) demo_db1 =
      (Inr rows, demo_db1) \<and> int (length rows) \<le> 1"
proof -
  let ?q = "\<lparr> lq_limit = 1, lq_offset = 0, lq_sort_by = Owner, lq_order = Desc,
    lq_filters = \<lparr> rf_owner = None, rf_repo = None, rf_pipeline_name = None, rf_sha = None \<rparr> \<rparr>"
  have "\<exists>rows. State_Monad.run_state (pg_list_pipeline_runs (\<lambda>s. s) ?q) demo_db1 = (Inr rows, demo_db1)"
    by (simp add: pg_list_pipeline_runs_def query_def demo_db1_value)
  then obtain rows where r: "State_Monad.run_state (pg_list_pipeline_runs (\<lambda>s. s) ?q) demo_db1 = (Inr rows, demo_db1)" ..
  from list_runs_page[OF r] r show ?thesis by auto
qed

end
