(* ===== verification/SourceManager.thy ===== *)
theory SourceManager
  imports Prelude
begin

text \<open>
  Run artifacts in S3, \<open>src/coordinator/src/source_manager.rs\<close>: the source tarball of a run, the
  status and log of every node, and their removal. The S3 client, the GitHub download and the
  decoders are parameters (record \<open>s3_client\<close>); the code around them, the multipart loop in
  particular, is modelled. Set-up of the client (\<open>SourceManager::new\<close>) is not.
\<close>

section \<open>Data\<close>

datatype source_error = Download string | S3Failure string | Presign string | SourceNotFound string

fun source_error_to_string :: "source_error \<Rightarrow> string" where
  "source_error_to_string (Download e) = ''GitHub tarball download failed: '' @ e"
| "source_error_to_string (S3Failure e) = ''S3 operation failed: '' @ e"
| "source_error_to_string (Presign e) = ''Presign configuration error: '' @ e"
| "source_error_to_string (SourceNotFound e) = ''Status not found: '' @ e"

record node_outcome =
  no_success :: "bool option"
  no_started_at :: "u128 option"
  no_finished_at :: "u128 option"

datatype reconcile_result =
    Completed bool "u128 option" u128
  | NodeInProgress u128
  | StillRunning
  | TransientReadError string

definition reconcile_from :: "node_outcome \<Rightarrow> reconcile_result" where
  "reconcile_from outcome =
    (case (no_success outcome, no_finished_at outcome, no_started_at outcome) of
       (Some success, Some finished_at_ms, started_at_ms) \<Rightarrow> Completed success started_at_ms finished_at_ms
     | (_, _, Some started_at_ms) \<Rightarrow> NodeInProgress started_at_ms
     | _ \<Rightarrow> StillRunning)"

text \<open>A frame of the response body: data, trailers, or an error of the stream.\<close>

datatype body_frame = DataFrame string | OtherFrame | FrameError string

text \<open>\<open>get_object\<close>: no such key, another error, or an object whose body may fail to load.\<close>

datatype s3_object = NoSuchKey | GetFailed string | GotObject "string + string"

datatype head_result = HeadOk | HeadNotFound | HeadFailed string

record 'w s3_client =
  s3_get_object :: "string \<Rightarrow> ('w, s3_object) state"
  s3_list_objects_v2 :: "string \<Rightarrow> ('w, string + string option list) state"
  s3_delete_objects :: "string list \<Rightarrow> ('w, string + unit) state"
  s3_create_multipart_upload :: "string \<Rightarrow> ('w, string + string option) state"
  s3_upload_part :: "string \<Rightarrow> string \<Rightarrow> int \<Rightarrow> string \<Rightarrow> ('w, string + string option) state"
  s3_complete_multipart_upload :: "string \<Rightarrow> string \<Rightarrow> (string \<times> int) list \<Rightarrow> ('w, string + unit) state"
  s3_abort_multipart_upload :: "string \<Rightarrow> string \<Rightarrow> ('w, string + unit) state"
  s3_head_bucket :: "('w, head_result) state"
  s3_create_bucket :: "('w, string + unit) state"
  s3_put_lifecycle :: "string \<Rightarrow> int \<Rightarrow> ('w, string + unit) state"
  s3_presign_get :: "string \<Rightarrow> ('w, string + string) state"
  s3_presign_put :: "string \<Rightarrow> string option \<Rightarrow> ('w, string + string) state"
  s3_presign_config :: "u64 \<Rightarrow> string + unit"
  gh_download_tarball :: "string \<Rightarrow> string \<Rightarrow> string \<Rightarrow> ('w, string + body_frame list) state"
  outcome_from_json :: "string \<Rightarrow> string + node_outcome"
  from_utf8_lossy :: "string \<Rightarrow> string"

definition PRESIGN_EXPIRES_SECS :: u64 where
  "PRESIGN_EXPIRES_SECS = 43200"

definition PART_SIZE :: nat where
  "PART_SIZE = 8 * 1024 * 1024"

definition source_key :: "string \<Rightarrow> string" where
  "source_key run_id = ''runs/'' @ run_id @ ''/source.tar.gz''"

definition status_key :: "string \<Rightarrow> string \<Rightarrow> string" where
  "status_key run_id node_name = ''runs/'' @ run_id @ ''/nodes/'' @ node_name @ ''/status.json''"

definition logs_key :: "string \<Rightarrow> string \<Rightarrow> string" where
  "logs_key run_id node_name = ''runs/'' @ run_id @ ''/nodes/'' @ node_name @ ''/output.log''"

text \<open>\<open>.map_err(|e| SourceError::S3(e.to_string()))\<close>\<close>

definition s3_err :: "('w, string + 'a) state \<Rightarrow> ('w, source_error + 'a) state" where
  "s3_err m = do { r \<leftarrow> m; State_Monad.return (map_sum S3Failure id r) }"

section \<open>Upload of the source\<close>

text \<open>The inner loop: fill the buffer up to a part; true when the body ended.\<close>

fun fill_buffer :: "nat \<Rightarrow> string \<Rightarrow> body_frame list \<Rightarrow> source_error + (bool \<times> string \<times> body_frame list)" where
  "fill_buffer part_size buffer frames =
    (if part_size \<le> length buffer then Inr (False, buffer, frames)
     else case frames of
       [] \<Rightarrow> Inr (True, buffer, [])
     | DataFrame chunk # rest \<Rightarrow> fill_buffer part_size (buffer @ chunk) rest
     | OtherFrame # rest \<Rightarrow> fill_buffer part_size buffer rest
     | FrameError e # rest \<Rightarrow> Inl (Download e))"

declare fill_buffer.simps [simp del]

fun body_bytes :: "body_frame list \<Rightarrow> string" where
  "body_bytes [] = []"
| "body_bytes (DataFrame c # fs) = c @ body_bytes fs"
| "body_bytes (_ # fs) = body_bytes fs"

lemma fill_buffer_ok:
  "fill_buffer n buffer frames = Inr (eof, b, rest) \<Longrightarrow>
    b @ body_bytes rest = buffer @ body_bytes frames \<and> (eof \<longleftrightarrow> length b < n) \<and> (eof \<longrightarrow> rest = [])"
  by (induction n buffer frames rule: fill_buffer.induct)
    (subst (asm) (3) fill_buffer.simps; auto split: if_splits list.splits body_frame.splits)

function upload_parts_loop ::
  "'w s3_client \<Rightarrow> nat \<Rightarrow> string \<Rightarrow> string \<Rightarrow> (string \<times> int) list \<Rightarrow> int \<Rightarrow> string \<Rightarrow> body_frame list \<Rightarrow>
    ('w, source_error + (string \<times> int) list) state"
where
  "upload_parts_loop s3 part_size key upload_id parts part_number buffer frames =
    (if part_size = 0 then State_Monad.return (Inr parts)
     else case fill_buffer part_size buffer frames of
       Inl e \<Rightarrow> State_Monad.return (Inl e)
     | Inr (body_done, buf, rest) \<Rightarrow>
        if buf = [] then State_Monad.return (Inr parts)
        else
          let part_vec = (if part_size < length buf then take part_size buf else buf);
              buf' = (if part_size < length buf then drop part_size buf else [])
          in bind_ok (s3_err (s3_upload_part s3 key upload_id part_number part_vec)) (\<lambda>e_tag.
            let parts' = parts @ [(case e_tag of None \<Rightarrow> [] | Some t \<Rightarrow> t, part_number)] in
            if body_done then State_Monad.return (Inr parts')
            else upload_parts_loop s3 part_size key upload_id parts' (part_number + 1) buf' rest))"
  by pat_completeness auto

termination
proof (relation "measure (\<lambda>(_, _, _, _, _, _, buffer, frames). length (buffer @ body_bytes frames))", goal_cases)
  case (2 s3 n key upload_id parts part_number buffer frames)
  show ?case
    using 2 by (auto dest!: fill_buffer_ok arg_cong[of "_ @ _" "_ @ _" length])
qed simp

declare upload_parts_loop.simps [simp del]

definition upload_parts ::
  "'w s3_client \<Rightarrow> string \<Rightarrow> string \<Rightarrow> body_frame list \<Rightarrow> ('w, source_error + (string \<times> int) list) state" where
  "upload_parts s3 key upload_id body = upload_parts_loop s3 PART_SIZE key upload_id [] 1 [] body"

definition upload_source ::
  "'w s3_client \<Rightarrow> string \<Rightarrow> string \<Rightarrow> string \<Rightarrow> string \<Rightarrow> ('w, source_error + unit) state" where
  "upload_source s3 run_id owner repo sha = do {
    dl \<leftarrow> gh_download_tarball s3 owner repo sha;
    (case dl of
       Inl e \<Rightarrow> State_Monad.return (Inl (Download e))
     | Inr body \<Rightarrow>
        let key = source_key run_id in
        bind_ok (s3_err (s3_create_multipart_upload s3 key)) (\<lambda>upload.
          case upload of
            None \<Rightarrow> State_Monad.return (Inl (S3Failure ''S3 did not return an upload ID''))
          | Some upload_id \<Rightarrow> do {
              r \<leftarrow> upload_parts s3 key upload_id body;
              (case r of
                 Inr parts \<Rightarrow> s3_err (s3_complete_multipart_upload s3 key upload_id parts)
               | Inl e \<Rightarrow> do {
                   _ \<leftarrow> s3_abort_multipart_upload s3 key upload_id;
                   State_Monad.return (Inl e) }) }))
  }"

section \<open>Status, logs and clean-up\<close>

definition presign_config :: "'w s3_client \<Rightarrow> source_error + unit" where
  "presign_config s3 = map_sum Presign id (s3_presign_config s3 PRESIGN_EXPIRES_SECS)"

definition presigned :: "'w s3_client \<Rightarrow> ('w, string + string) state \<Rightarrow> ('w, source_error + string) state" where
  "presigned s3 req =
    (case presign_config s3 of
       Inl e \<Rightarrow> State_Monad.return (Inl e)
     | Inr _ \<Rightarrow> do { r \<leftarrow> req; State_Monad.return (map_sum Presign id r) })"

definition get_source_url :: "'w s3_client \<Rightarrow> string \<Rightarrow> ('w, source_error + string) state" where
  "get_source_url s3 run_id = presigned s3 (s3_presign_get s3 (source_key run_id))"

definition put_status_url :: "'w s3_client \<Rightarrow> string \<Rightarrow> string \<Rightarrow> ('w, source_error + string) state" where
  "put_status_url s3 run_id node_name = presigned s3 (s3_presign_put s3 (status_key run_id node_name) None)"

definition put_logs_url :: "'w s3_client \<Rightarrow> string \<Rightarrow> string \<Rightarrow> ('w, source_error + string) state" where
  "put_logs_url s3 run_id node_name =
    presigned s3 (s3_presign_put s3 (logs_key run_id node_name) (Some ''text/plain''))"

definition apply_lifecycle_policy :: "'w s3_client \<Rightarrow> ('w, source_error + unit) state" where
  "apply_lifecycle_policy s3 =
    s3_err (s3_put_lifecycle s3 ''runs/'' (int ((unat PRESIGN_EXPIRES_SECS + 86400 - 1) div 86400)))"

definition source_ping :: "'w s3_client \<Rightarrow> ('w, source_error + unit) state" where
  "source_ping s3 = do {
    h \<leftarrow> s3_head_bucket s3;
    (case h of
       HeadOk \<Rightarrow> apply_lifecycle_policy s3
     | HeadNotFound \<Rightarrow> bind_ok (s3_err (s3_create_bucket s3)) (\<lambda>_. apply_lifecycle_policy s3)
     | HeadFailed e \<Rightarrow> State_Monad.return (Inl (S3Failure e)))
  }"

definition get_node_status :: "'w s3_client \<Rightarrow> string \<Rightarrow> string \<Rightarrow> ('w, source_error + node_outcome) state" where
  "get_node_status s3 run_id node_name = do {
    r \<leftarrow> s3_get_object s3 (status_key run_id node_name);
    State_Monad.return (case r of
       NoSuchKey \<Rightarrow> Inl (SourceNotFound (''run='' @ run_id @ '' node='' @ node_name))
     | GetFailed e \<Rightarrow> Inl (S3Failure e)
     | GotObject (Inl e) \<Rightarrow> Inl (S3Failure e)
     | GotObject (Inr bytes) \<Rightarrow> map_sum S3Failure id (outcome_from_json s3 bytes))
  }"

definition source_get_node_log :: "'w s3_client \<Rightarrow> string \<Rightarrow> string \<Rightarrow> ('w, source_error + string option) state" where
  "source_get_node_log s3 run_id node_name = do {
    r \<leftarrow> s3_get_object s3 (logs_key run_id node_name);
    State_Monad.return (case r of
       NoSuchKey \<Rightarrow> Inr None
     | GetFailed e \<Rightarrow> Inl (S3Failure e)
     | GotObject (Inl e) \<Rightarrow> Inl (S3Failure e)
     | GotObject (Inr bytes) \<Rightarrow> Inr (Some (from_utf8_lossy s3 bytes)))
  }"

text \<open>
  The reads of the nodes are independent; they are made in the order given here, and \<open>order\<close>
  permutes the results as \<open>buffer_unordered\<close> may.
\<close>

fun read_each :: "'w s3_client \<Rightarrow> string \<Rightarrow> string list \<Rightarrow> ('w, (string \<times> reconcile_result) list) state" where
  "read_each s3 run_id [] = State_Monad.return []"
| "read_each s3 run_id (node_name # ns) = do {
    r \<leftarrow> get_node_status s3 run_id node_name;
    let result = (case r of
       Inr outcome \<Rightarrow> reconcile_from outcome
     | Inl (SourceNotFound _) \<Rightarrow> StillRunning
     | Inl e \<Rightarrow> TransientReadError (source_error_to_string e));
    rest \<leftarrow> read_each s3 run_id ns;
    State_Monad.return ((node_name, result) # rest)
  }"

definition source_read_outcomes ::
  "((string \<times> reconcile_result) list \<Rightarrow> (string \<times> reconcile_result) list) \<Rightarrow> 'w s3_client \<Rightarrow> string \<Rightarrow>
    string list \<Rightarrow> ('w, (string, reconcile_result) hashmap) state" where
  "source_read_outcomes order s3 run_id nodes = do {
    results \<leftarrow> read_each s3 run_id nodes;
    State_Monad.return (hm_collect (order results))
  }"

definition source_cleanup_run :: "'w s3_client \<Rightarrow> string \<Rightarrow> ('w, source_error + unit) state" where
  "source_cleanup_run s3 run_id =
    bind_ok (s3_err (s3_list_objects_v2 s3 (''runs/'' @ run_id @ ''/''))) (\<lambda>listed.
      let identifiers = List.map_filter id listed in
      if identifiers = [] then State_Monad.return (Inr ())
      else s3_err (s3_delete_objects s3 identifiers))"

section \<open>The multipart loop against its reference\<close>

text \<open>The parts of a body, and the plain loop that uploads a list of parts.\<close>

function chunks :: "nat \<Rightarrow> 'a list \<Rightarrow> 'a list list" where
  "chunks n xs = (if xs = [] \<or> n = 0 then [] else take n xs # chunks n (drop n xs))"
  by pat_completeness auto

termination
  by (relation "measure (\<lambda>(n, xs). length xs)") auto

declare chunks.simps [simp del]

fun upload_each ::
  "'w s3_client \<Rightarrow> string \<Rightarrow> string \<Rightarrow> (string \<times> int) list \<Rightarrow> int \<Rightarrow> string list \<Rightarrow>
    ('w, source_error + (string \<times> int) list) state"
where
  "upload_each s3 key upload_id parts pn [] = State_Monad.return (Inr parts)"
| "upload_each s3 key upload_id parts pn (c # cs) =
    bind_ok (s3_err (s3_upload_part s3 key upload_id pn c)) (\<lambda>e_tag.
      upload_each s3 key upload_id (parts @ [(case e_tag of None \<Rightarrow> [] | Some t \<Rightarrow> t, pn)]) (pn + 1) cs)"

lemma chunks_concat: "0 < n \<Longrightarrow> concat (chunks n xs) = xs"
  by (induction n xs rule: chunks.induct) (subst chunks.simps; auto)

lemma chunks_sizes:
  "0 < n \<Longrightarrow> xs \<noteq> [] \<Longrightarrow> chunks n xs \<noteq> [] \<and> (\<forall>c\<in>set (butlast (chunks n xs)). length c = n) \<and>
    0 < length (last (chunks n xs)) \<and> length (last (chunks n xs)) \<le> n"
proof (induction n xs rule: chunks.induct)
  case (1 n xs)
  show ?case
  proof (cases "drop n xs = []")
    case True
    with 1(2,3) show ?thesis by (subst (1 2 3 4) chunks.simps) (simp add: chunks.simps[of n "[]"])
  next
    case False
    have c: "chunks n xs = take n xs # chunks n (drop n xs)" using 1(2,3) by (subst chunks.simps) simp
    from 1 False have "chunks n (drop n xs) \<noteq> []" "\<forall>c\<in>set (butlast (chunks n (drop n xs))). length c = n"
      "0 < length (last (chunks n (drop n xs)))" "length (last (chunks n (drop n xs))) \<le> n" by auto
    with False c show ?thesis by auto
  qed
qed

definition frames_ok :: "body_frame list \<Rightarrow> bool" where
  "frames_ok fs \<longleftrightarrow> (\<forall>e. FrameError e \<notin> set fs)"

lemma fill_buffer_no_error:
  "frames_ok frames \<Longrightarrow> \<exists>eof b rest. fill_buffer n buffer frames = Inr (eof, b, rest) \<and> frames_ok rest"
  by (induction n buffer frames rule: fill_buffer.induct)
    (subst fill_buffer.simps; auto simp: frames_ok_def split: list.splits body_frame.splits)

lemma upload_parts_loop_eq:
  assumes "0 < n" "frames_ok frames"
  shows "upload_parts_loop s3 n key upload_id parts pn buffer frames =
    upload_each s3 key upload_id parts pn (chunks n (buffer @ body_bytes frames))"
  using assms
proof (induction s3 n key upload_id parts pn buffer frames rule: upload_parts_loop.induct)
  case (1 s3 n key upload_id parts pn buffer frames)
  from fill_buffer_no_error[OF 1(3)] obtain eof b rest where
    fill: "fill_buffer n buffer frames = Inr (eof, b, rest)" and rest: "frames_ok rest" by blast
  from fill_buffer_ok[OF fill] have b: "buffer @ body_bytes frames = b @ body_bytes rest" "eof \<longleftrightarrow> length b < n"
    "eof \<longrightarrow> rest = []" by auto
  show ?case
  proof (cases "b = []")
    case True
    with b 1(2) show ?thesis using fill
      by (subst upload_parts_loop.simps) (simp add: chunks.simps)
  next
    case nonempty: False
    show ?thesis
    proof (cases eof)
      case True
      with nonempty b 1(2) have "chunks n (buffer @ body_bytes frames) = [b]"
        by (subst chunks.simps) (simp add: chunks.simps)
      with True nonempty b fill 1(2) show ?thesis
        by (subst upload_parts_loop.simps) (simp add: Let_def)
    next
      case False
      with b have len: "n \<le> length b" by simp
      let ?v = "if n < length b then take n b else b" and ?w = "if n < length b then drop n b else []"
      have "chunks n (buffer @ body_bytes frames) = ?v # chunks n (?w @ body_bytes rest)"
        using len nonempty 1(2) by (subst b(1), subst chunks.simps) auto
      with 1(1)[OF _ fill refl refl nonempty refl refl refl _ 1(2) rest] False nonempty fill 1(2)
      show ?thesis by (subst upload_parts_loop.simps) (simp add: Let_def)
    qed
  qed
qed

lemma PART_SIZE_pos: "0 < PART_SIZE"
  by (simp add: PART_SIZE_def)

lemma slash_prefix_eq:
  assumes "CHR ''/'' \<notin> set i" "CHR ''/'' \<notin> set j" "i @ CHR ''/'' # x = j @ CHR ''/'' # y"
  shows "i = j"
  using assms
proof (induction i arbitrary: j)
  case Nil
  then show ?case by (cases j) auto
next
  case (Cons c i)
  then show ?case by (cases j) auto
qed

section \<open>Properties\<close>

text \<open>
  Claim C30. The streaming upload sends the tarball, whatever frames it arrives in: when the stream
  has no error, the loop behaves exactly as uploading the parts of the body one after the other
  with numbers from 1, the parts concatenate to the body, and every part but the last has exactly
  the part size, as S3 demands.
\<close>

theorem upload_parts_complete:
  assumes "frames_ok body"
  shows "upload_parts s3 key upload_id body =
      upload_each s3 key upload_id [] 1 (chunks PART_SIZE (body_bytes body)) \<and>
    concat (chunks PART_SIZE (body_bytes body)) = body_bytes body \<and>
    (body_bytes body \<noteq> [] \<longrightarrow>
      (\<forall>c\<in>set (butlast (chunks PART_SIZE (body_bytes body))). length c = PART_SIZE) \<and>
      0 < length (last (chunks PART_SIZE (body_bytes body))) \<and>
      length (last (chunks PART_SIZE (body_bytes body))) \<le> PART_SIZE)"
  using upload_parts_loop_eq[OF PART_SIZE_pos assms, of s3 key upload_id "[]" 1 "[]"]
    chunks_concat[OF PART_SIZE_pos, of "body_bytes body"] chunks_sizes[OF PART_SIZE_pos, of "body_bytes body"]
  by (simp add: upload_parts_def)

text \<open>
  Clean-up of a run reaches every object of that run and none of another: for run ids
  without a slash, the source, status and log keys of a run start with the prefix that
  \<open>cleanup_run\<close> lists exactly for that run.
\<close>

theorem cleanup_prefix_separates:
  assumes "CHR ''/'' \<notin> set i" and "CHR ''/'' \<notin> set j"
  shows "(starts_with (source_key i) (''runs/'' @ j @ ''/'') \<longleftrightarrow> i = j) \<and>
    (starts_with (status_key i n) (''runs/'' @ j @ ''/'') \<longleftrightarrow> i = j) \<and>
    (starts_with (logs_key i n) (''runs/'' @ j @ ''/'') \<longleftrightarrow> i = j)"
  using assms
  by (auto simp: starts_with_iff source_key_def status_key_def logs_key_def dest: slash_prefix_eq)

section \<open>Witnesses\<close>

theorem upload_parts_complete_witness:
  "\<forall>s3 :: unit s3_client. upload_parts s3 ''k'' ''u'' [DataFrame ''ab'', OtherFrame, DataFrame ''c''] =
      upload_each s3 ''k'' ''u'' [] 1 (chunks PART_SIZE ''abc'')"
proof
  fix s3 :: "unit s3_client"
  show "upload_parts s3 ''k'' ''u'' [DataFrame ''ab'', OtherFrame, DataFrame ''c''] =
      upload_each s3 ''k'' ''u'' [] 1 (chunks PART_SIZE ''abc'')"
    using upload_parts_complete[of "[DataFrame ''ab'', OtherFrame, DataFrame ''c'']" s3 "''k''" "''u''"]
    by (simp add: frames_ok_def)
qed

theorem cleanup_prefix_separates_witness:
  "starts_with (status_key ''r1'' ''a'') (''runs/'' @ ''r1'' @ ''/'') \<and>
   \<not> starts_with (status_key ''r2'' ''a'') (''runs/'' @ ''r1'' @ ''/'')"
  using cleanup_prefix_separates[of "''r1''" "''r1''" "''a''"] cleanup_prefix_separates[of "''r2''" "''r1''" "''a''"]
  by simp

end
