(* ===== verification/PodWatcher.thy ===== *)
theory PodWatcher
  imports Prelude
begin

text \<open>
  The pod watcher, \<open>src/coordinator/src/pod_watcher.rs\<close>: it classifies the status of the pods of a
  run into signals for the coordinator, reports each of them once, and detects pods that vanish.
  Pods and watch events are the records of the Kubernetes API, with the fields the code reads.
  The stream of events and commands is the input of \<open>watcher_run\<close>; the signals sent to the
  coordinator are its output. Set-up of the streams (\<open>PodWatcher::new\<close>, the select) is not
  modelled.
\<close>

section \<open>Data\<close>

datatype infra_failure_reason =
    ImagePullFailed string string
  | OOMKilled
  | InitContainerFailed string string
  | ContainerCreateError string
  | ContainerTerminated int string string
  | PodStartTimeout
  | PodDeletedUnexpectedly
  | NodeLost
  | DispatchFailed string

fun stable_code :: "infra_failure_reason \<Rightarrow> string" where
  "stable_code (ImagePullFailed _ _) = ''ImagePullFailed''"
| "stable_code OOMKilled = ''OOMKilled''"
| "stable_code (InitContainerFailed _ _) = ''InitContainerFailed''"
| "stable_code (ContainerCreateError _) = ''ContainerCreateError''"
| "stable_code (ContainerTerminated _ _ _) = ''ContainerTerminated''"
| "stable_code PodStartTimeout = ''PodStartTimeout''"
| "stable_code PodDeletedUnexpectedly = ''PodDeletedUnexpectedly''"
| "stable_code NodeLost = ''NodeLost''"
| "stable_code (DispatchFailed _) = ''DispatchFailed''"

fun full_message :: "infra_failure_reason \<Rightarrow> string" where
  "full_message (ImagePullFailed img message) = ''Image '' @ quoted img @ '' could not be pulled: '' @ message"
| "full_message OOMKilled = ''Container was killed for exceeding its memory limit (OOMKilled)''"
| "full_message (InitContainerFailed name message) = ''Init container '' @ quoted name @ '' failed: '' @ message"
| "full_message (ContainerCreateError msg) = ''Container could not be created: '' @ msg"
| "full_message (ContainerTerminated exit_code reason message) =
    ''Container exited with code '' @ show_int exit_code @
    (if reason = [] then [] else '' ('' @ reason @ '')'') @
    (if message = [] then [] else '': '' @ message)"
| "full_message PodStartTimeout =
    ''Pod did not enter the Running phase within the configured startup timeout''"
| "full_message PodDeletedUnexpectedly = ''Pod was deleted while running''"
| "full_message NodeLost = ''Cluster node was lost while the pod was running''"
| "full_message (DispatchFailed msg) = ''Failed to dispatch node to Kubernetes: '' @ msg"

definition user_message_from_code :: "string \<Rightarrow> string option" where
  "user_message_from_code code =
    (if code = ''ImagePullFailed'' then
       Some ''Failed to pull the container image. Verify the image name, tag, and registry permissions.''
     else if code = ''OOMKilled'' then
       Some ''The container ran out of memory. Increase its memory limit or reduce its memory usage.''
     else if code = ''ContainerCreateError'' then
       Some ''The container could not be created. Check the pod configuration for invalid mounts, environment variables, or security settings.''
     else if code = ''ContainerTerminated'' then
       Some (''The container exited unexpectedly before reporting completion. Check the container'' @
         [CHR 0x27] @ ''s logs for the failure cause.'')
     else if code = ''PodStartTimeout'' then
       Some ''The pod did not start in time. The cluster may be out of capacity, or the image may be very large.''
     else if code = ''DispatchFailed'' then
       Some (''Kubernetes rejected the Pod for this node. Check the node'' @ [CHR 0x27] @
         ''s resource limits, image, and any cluster admission policies (SCC, ResourceQuota, LimitRange).'')
     else None)"

fun user_message :: "infra_failure_reason \<Rightarrow> string option" where
  "user_message (ImagePullFailed img _) =
    Some (''Failed to pull image '' @ quoted img @
      ''. Verify the image name, tag, and registry permissions.'')"
| "user_message (DispatchFailed msg) =
    Some (''Kubernetes rejected the Pod for this node: '' @ msg @ ''. Check the node'' @ [CHR 0x27] @
      ''s resource limits, image, and any cluster admission policies (SCC, ResourceQuota, LimitRange).'')"
| "user_message OOMKilled = user_message_from_code (stable_code OOMKilled)"
| "user_message (ContainerCreateError m) = user_message_from_code (stable_code (ContainerCreateError m))"
| "user_message PodStartTimeout = user_message_from_code (stable_code PodStartTimeout)"
| "user_message (ContainerTerminated exit_code _ _) =
    Some (''The container exited unexpectedly with code '' @ show_int exit_code @
      '' before reporting completion. Check the container'' @ [CHR 0x27] @ ''s logs for the failure cause.'')"
| "user_message (InitContainerFailed _ _) = None"
| "user_message PodDeletedUnexpectedly = None"
| "user_message NodeLost = None"

datatype pod_signal =
    PodRunning string string
  | InfraFailure string string infra_failure_reason

fun signal_node_name :: "pod_signal \<Rightarrow> string" where
  "signal_node_name (PodRunning node_name _) = node_name"
| "signal_node_name (InfraFailure node_name _ _) = node_name"

fun signal_pod_uid :: "pod_signal \<Rightarrow> string" where
  "signal_pod_uid (PodRunning _ pod_uid) = pod_uid"
| "signal_pod_uid (InfraFailure _ pod_uid _) = pod_uid"

datatype watcher_command = ExpectDeletion string | Shutdown

text \<open>The fields of a Kubernetes pod that the watcher reads.\<close>

record waiting_state =
  wt_reason :: "string option"
  wt_message :: "string option"

record terminated_state =
  tm_exit_code :: int
  tm_reason :: "string option"
  tm_message :: "string option"

record container_state =
  cst_waiting :: "waiting_state option"
  cst_running :: bool
  cst_terminated :: "terminated_state option"

record container_status =
  cs_name :: string
  cs_image :: string
  cs_state :: "container_state option"

record pod_status =
  pst_init_container_statuses :: "container_status list option"
  pst_container_statuses :: "container_status list option"

record pod =
  pod_annotations :: "(string, string) hashmap option"
  pod_uid :: "string option"
  pod_pod_status :: "pod_status option"

datatype watch_event = InitApply pod | Apply pod | Delete pod | Init | InitDone

definition NODE_NAME_ANNOTATION :: string where
  "NODE_NAME_ANNOTATION = ''the-conn.com/node-name''"

section \<open>Classification\<close>

definition node_name_for :: "pod \<Rightarrow> string option" where
  "node_name_for p = Option.bind (pod_annotations p) (\<lambda>a. hm_get a NODE_NAME_ANNOTATION)"

definition unwrap_str :: "string option \<Rightarrow> string" where
  "unwrap_str s = (case s of None \<Rightarrow> [] | Some x \<Rightarrow> x)"

text \<open>
  The loops over containers: \<open>state.as_ref()?\<close> leaves the function, a container that decides
  nothing passes on to the next one.
\<close>

fun classify_init_containers :: "container_status list \<Rightarrow> infra_failure_reason option" where
  "classify_init_containers [] = None"
| "classify_init_containers (cs # css) =
    (case cs_state cs of
       None \<Rightarrow> None
     | Some st \<Rightarrow>
        let waiting_failure =
          (case cst_waiting st of
             None \<Rightarrow> None
           | Some w \<Rightarrow>
              let reason = unwrap_str (wt_reason w) in
              if reason \<in> {''ImagePullBackOff'', ''ErrImagePull''}
              then Some (InitContainerFailed (cs_name cs) (reason @ '': '' @ unwrap_str (wt_message w)))
              else None)
        in case waiting_failure of
             Some f \<Rightarrow> Some f
           | None \<Rightarrow>
              (case cst_terminated st of
                 Some t \<Rightarrow>
                   if tm_exit_code t \<noteq> 0
                   then Some (InitContainerFailed (cs_name cs)
                     (''exit code '' @ show_int (tm_exit_code t) @ '': '' @ unwrap_str (tm_message t)))
                   else classify_init_containers css
               | None \<Rightarrow> classify_init_containers css))"

definition classify_init_container_statuses :: "pod_status \<Rightarrow> infra_failure_reason option" where
  "classify_init_container_statuses st =
    (case pst_init_container_statuses st of None \<Rightarrow> None | Some css \<Rightarrow> classify_init_containers css)"

fun classify_main_containers :: "string \<Rightarrow> string \<Rightarrow> container_status list \<Rightarrow> pod_signal option" where
  "classify_main_containers node_name uid [] = None"
| "classify_main_containers node_name uid (cs # css) =
    (case cs_state cs of
       None \<Rightarrow> None
     | Some st \<Rightarrow>
        let waiting_failure =
          (case cst_waiting st of
             None \<Rightarrow> None
           | Some w \<Rightarrow>
              let reason = unwrap_str (wt_reason w); message = unwrap_str (wt_message w) in
              if reason \<in> {''ImagePullBackOff'', ''ErrImagePull''}
              then Some (ImagePullFailed (cs_image cs) message)
              else if reason \<in> {''CreateContainerConfigError'', ''CreateContainerError''}
              then Some (ContainerCreateError (reason @ '': '' @ message))
              else None);
          terminated_failure =
          (case cst_terminated st of
             None \<Rightarrow> None
           | Some t \<Rightarrow>
              if tm_reason t = Some ''OOMKilled'' then Some OOMKilled
              else if tm_exit_code t \<noteq> 0
              then Some (ContainerTerminated (tm_exit_code t) (unwrap_str (tm_reason t)) (unwrap_str (tm_message t)))
              else None)
        in case waiting_failure of
             Some f \<Rightarrow> Some (InfraFailure node_name uid f)
           | None \<Rightarrow>
              (case terminated_failure of
                 Some f \<Rightarrow> Some (InfraFailure node_name uid f)
               | None \<Rightarrow>
                  if cst_running st then Some (PodRunning node_name uid)
                  else classify_main_containers node_name uid css))"

definition classify_main_container_statuses :: "pod_status \<Rightarrow> string \<Rightarrow> string \<Rightarrow> pod_signal option" where
  "classify_main_container_statuses st node_name uid =
    (case pst_container_statuses st of None \<Rightarrow> None | Some css \<Rightarrow> classify_main_containers node_name uid css)"

definition classify_pod :: "pod \<Rightarrow> pod_signal option" where
  "classify_pod p =
    (case node_name_for p of
       None \<Rightarrow> None
     | Some node_name \<Rightarrow>
        (case pod_uid p of
           None \<Rightarrow> None
         | Some uid \<Rightarrow>
            (case pod_pod_status p of
               None \<Rightarrow> None
             | Some st \<Rightarrow>
                (case classify_init_container_statuses st of
                   Some reason \<Rightarrow> Some (InfraFailure node_name uid reason)
                 | None \<Rightarrow> classify_main_container_statuses st node_name uid))))"

section \<open>The state of the watcher\<close>

definition REHYDRATION_SENTINEL_UID :: string where
  "REHYDRATION_SENTINEL_UID = ''__rehydrated__''"

record watcher_state =
  ws_reported_failure_uids :: "(string, string hashset) hashmap"
  ws_reported_running_uids :: "(string, string hashset) hashmap"
  ws_expected_deletions :: "string hashset"
  ws_seed_running :: "string hashset"
  ws_observed_during_init :: "string hashset"
  ws_presence_diff_emitted :: bool

definition seeded :: "string hashset \<Rightarrow> watcher_state" where
  "seeded running =
    \<lparr> ws_reported_failure_uids = [],
      ws_reported_running_uids = fold (\<lambda>node. hm_insert node [REHYDRATION_SENTINEL_UID]) running [],
      ws_expected_deletions = [], ws_seed_running = running, ws_observed_during_init = [],
      ws_presence_diff_emitted = False \<rparr>"

text \<open>\<open>map.entry(k).or_default().insert(x)\<close>, with the set insertion's boolean.\<close>

definition entry_insert :: "string \<Rightarrow> string \<Rightarrow> (string, string hashset) hashmap \<Rightarrow>
    bool \<times> (string, string hashset) hashmap" where
  "entry_insert k x mp =
    (let s = (case hm_get mp k of None \<Rightarrow> [] | Some s \<Rightarrow> s)
     in (x \<notin> set s, hm_insert k (List.insert x s) mp))"

fun should_emit :: "pod_signal \<Rightarrow> watcher_state \<Rightarrow> bool \<times> watcher_state" where
  "should_emit (PodRunning node_name uid) w =
    (let (fresh, mp) = entry_insert node_name uid (ws_reported_running_uids w)
     in (fresh, w\<lparr>ws_reported_running_uids := mp\<rparr>))"
| "should_emit (InfraFailure node_name uid _) w =
    (let (fresh, mp) = entry_insert node_name uid (ws_reported_failure_uids w)
     in (fresh, w\<lparr>ws_reported_failure_uids := mp\<rparr>))"

definition was_running :: "watcher_state \<Rightarrow> string \<Rightarrow> bool" where
  "was_running w node_name =
    (case hm_get (ws_reported_running_uids w) node_name of None \<Rightarrow> False | Some s \<Rightarrow> s \<noteq> [])"

definition expect_deletion :: "string \<Rightarrow> watcher_state \<Rightarrow> watcher_state" where
  "expect_deletion node_name w = w\<lparr>ws_expected_deletions := List.insert node_name (ws_expected_deletions w)\<rparr>"

definition deletion_was_expected :: "watcher_state \<Rightarrow> string \<Rightarrow> bool" where
  "deletion_was_expected w node_name \<longleftrightarrow> node_name \<in> set (ws_expected_deletions w)"

definition record_init_observation :: "string \<Rightarrow> watcher_state \<Rightarrow> watcher_state" where
  "record_init_observation node_name w =
    (if node_name \<in> set (ws_seed_running w)
     then w\<lparr>ws_observed_during_init := List.insert node_name (ws_observed_during_init w)\<rparr> else w)"

definition take_missing_after_init :: "watcher_state \<Rightarrow> string list \<times> watcher_state" where
  "take_missing_after_init w =
    (if ws_presence_diff_emitted w then ([], w)
     else (filter (\<lambda>n. n \<notin> set (ws_observed_during_init w)) (ws_seed_running w),
           w\<lparr>ws_presence_diff_emitted := True\<rparr>))"

section \<open>Events\<close>

text \<open>The handlers return the signals they send, in order.\<close>

definition emit_if_fresh :: "pod_signal \<Rightarrow> watcher_state \<Rightarrow> pod_signal list \<times> watcher_state" where
  "emit_if_fresh sig w = (let (fresh, w') = should_emit sig w in (if fresh then [sig] else [], w'))"

definition emit_classified :: "pod \<Rightarrow> watcher_state \<Rightarrow> pod_signal list \<times> watcher_state" where
  "emit_classified p w = (case classify_pod p of None \<Rightarrow> ([], w) | Some sig \<Rightarrow> emit_if_fresh sig w)"

fun emit_missing :: "string list \<Rightarrow> watcher_state \<Rightarrow> pod_signal list \<times> watcher_state" where
  "emit_missing [] w = ([], w)"
| "emit_missing (n # ns) w =
    (let (s1, w1) = emit_if_fresh (InfraFailure n REHYDRATION_SENTINEL_UID PodDeletedUnexpectedly) w;
         (s2, w2) = emit_missing ns w1
     in (s1 @ s2, w2))"

definition emit_presence_diff :: "watcher_state \<Rightarrow> pod_signal list \<times> watcher_state" where
  "emit_presence_diff w = (let (missing, w') = take_missing_after_init w in emit_missing missing w')"

definition handle_delete :: "pod \<Rightarrow> watcher_state \<Rightarrow> pod_signal list \<times> watcher_state" where
  "handle_delete p w =
    (case node_name_for p of
       None \<Rightarrow> ([], w)
     | Some node_name \<Rightarrow>
        if deletion_was_expected w node_name then ([], w)
        else if \<not> was_running w node_name then ([], w)
        else emit_if_fresh (InfraFailure node_name (unwrap_str (pod_uid p)) PodDeletedUnexpectedly) w)"

fun handle_event :: "watch_event \<Rightarrow> watcher_state \<Rightarrow> pod_signal list \<times> watcher_state" where
  "handle_event (InitApply p) w =
    emit_classified p (case node_name_for p of None \<Rightarrow> w | Some n \<Rightarrow> record_init_observation n w)"
| "handle_event (Apply p) w = emit_classified p w"
| "handle_event (Delete p) w = handle_delete p w"
| "handle_event Init w = ([], w)"
| "handle_event InitDone w = emit_presence_diff w"

text \<open>
  What the select of \<open>run\<close> receives: a command (\<open>None\<close> when the channel is closed), an event, an
  error of the stream, or its end.
\<close>

datatype watcher_input =
    CommandIn "watcher_command option"
  | EventIn watch_event
  | StreamErrorIn
  | StreamEndIn

text \<open>The signals sent, the final state, and whether the watcher still runs.\<close>

fun watcher_loop :: "watcher_input list \<Rightarrow> watcher_state \<Rightarrow> pod_signal list \<times> watcher_state \<times> bool" where
  "watcher_loop [] w = ([], w, True)"
| "watcher_loop (CommandIn (Some (ExpectDeletion n)) # xs) w = watcher_loop xs (expect_deletion n w)"
| "watcher_loop (CommandIn (Some Shutdown) # xs) w = ([], w, False)"
| "watcher_loop (CommandIn None # xs) w = ([], w, False)"
| "watcher_loop (EventIn e # xs) w =
    (let (s1, w1) = handle_event e w; (s2, rest) = watcher_loop xs w1 in (s1 @ s2, rest))"
| "watcher_loop (StreamErrorIn # xs) w = watcher_loop xs w"
| "watcher_loop (StreamEndIn # xs) w = ([], w, False)"

definition watcher_run :: "string hashset \<Rightarrow> watcher_input list \<Rightarrow> pod_signal list \<times> watcher_state \<times> bool" where
  "watcher_run seed_running inputs = watcher_loop inputs (seeded seed_running)"

section \<open>Lemmas: what has been reported\<close>

fun sig_key :: "pod_signal \<Rightarrow> bool \<times> string \<times> string" where
  "sig_key (PodRunning n u) = (False, n, u)"
| "sig_key (InfraFailure n u _) = (True, n, u)"

definition uids :: "(string, string hashset) hashmap \<Rightarrow> string \<Rightarrow> string set" where
  "uids mp n = (case hm_get mp n of None \<Rightarrow> {} | Some s \<Rightarrow> set s)"

definition reported :: "watcher_state \<Rightarrow> (bool \<times> string \<times> string) set" where
  "reported w = {(f, n, u). u \<in> uids (if f then ws_reported_failure_uids w else ws_reported_running_uids w) n}"

lemma reported_cong:
  "\<lbrakk> ws_reported_failure_uids w' = ws_reported_failure_uids w;
     ws_reported_running_uids w' = ws_reported_running_uids w \<rbrakk> \<Longrightarrow> reported w' = reported w"
  by (auto simp: reported_def split: if_splits)

text \<open>A handler sends only new signals, each once, and remembers exactly what it sent.\<close>

definition sends_fresh :: "watcher_state \<Rightarrow> pod_signal list \<times> watcher_state \<Rightarrow> bool" where
  "sends_fresh w r \<longleftrightarrow> distinct (map sig_key (fst r)) \<and> sig_key ` set (fst r) \<inter> reported w = {} \<and>
    reported (snd r) = reported w \<union> sig_key ` set (fst r)"

lemma entry_insert_uids:
  "entry_insert k x mp = (fresh, mp') \<Longrightarrow>
    fresh = (x \<notin> uids mp k) \<and> uids mp' = (\<lambda>n. if n = k then insert x (uids mp k) else uids mp n)"
  by (auto simp: entry_insert_def uids_def Let_def fun_eq_iff split: option.splits)

lemma should_emit_reported:
  "should_emit sig w = (fresh, w') \<Longrightarrow>
    fresh = (sig_key sig \<notin> reported w) \<and> reported w' = insert (sig_key sig) (reported w)"
  by (cases sig) (auto simp: reported_def split: prod.splits if_splits dest!: entry_insert_uids)

lemma should_emit_other:
  "should_emit sig w = (fresh, w') \<Longrightarrow> ws_expected_deletions w' = ws_expected_deletions w \<and>
    ws_seed_running w' = ws_seed_running w \<and> ws_presence_diff_emitted w' = ws_presence_diff_emitted w"
  by (cases sig) (auto split: prod.splits)

lemma sends_fresh_emit: "sends_fresh w (emit_if_fresh sig w)"
  by (auto simp: emit_if_fresh_def sends_fresh_def split: prod.splits dest!: should_emit_reported)

lemma sends_fresh_Nil: "reported w' = reported w \<Longrightarrow> sends_fresh w ([], w')"
  by (simp add: sends_fresh_def)

lemma sends_fresh_append:
  assumes "sends_fresh w (s1, w1)" "sends_fresh w1 (s2, w2)"
  shows "sends_fresh w (s1 @ s2, w2)"
  using assms by (auto simp: sends_fresh_def)

lemma sends_fresh_emit_missing: "sends_fresh w (emit_missing ns w)"
proof (induction ns arbitrary: w)
  case Nil
  then show ?case by (simp add: sends_fresh_Nil)
next
  case (Cons n ns)
  obtain s1 w1 where e: "emit_if_fresh (InfraFailure n REHYDRATION_SENTINEL_UID PodDeletedUnexpectedly) w = (s1, w1)"
    by force
  obtain s2 w2 where m: "emit_missing ns w1 = (s2, w2)" by force
  from sends_fresh_append[of w s1 w1 s2 w2] sends_fresh_emit[of w] Cons[of w1] e m show ?case
    by (metis emit_missing.simps(2) case_prod_conv)
qed

lemma sends_fresh_classified: "sends_fresh w (emit_classified p w)"
  by (auto simp: emit_classified_def sends_fresh_Nil sends_fresh_emit split: option.splits)

lemma sends_fresh_event: "sends_fresh w (handle_event e w)"
proof (cases e)
  case (InitApply p)
  let ?w = "case node_name_for p of None \<Rightarrow> w | Some n \<Rightarrow> record_init_observation n w"
  have "reported ?w = reported w"
    by (rule reported_cong) (auto simp: record_init_observation_def split: option.splits)
  with sends_fresh_classified[of ?w p] InitApply show ?thesis by (simp add: sends_fresh_def)
next
  case (Delete p)
  then show ?thesis
    by (auto simp: handle_delete_def sends_fresh_Nil sends_fresh_emit split: option.splits)
next
  case InitDone
  obtain ns w' where t: "take_missing_after_init w = (ns, w')" by force
  then have "reported w' = reported w"
    by (intro reported_cong) (auto simp: take_missing_after_init_def split: if_splits)
  with sends_fresh_emit_missing[of w' ns] t InitDone show ?thesis
    by (simp add: emit_presence_diff_def sends_fresh_def)
qed (simp_all add: sends_fresh_classified sends_fresh_Nil)

lemma sends_fresh_loop:
  "\<exists>r. watcher_loop xs w = (fst r, snd r) \<and> sends_fresh w (fst r, fst (snd r))"
proof (induction xs w rule: watcher_loop.induct)
  case (2 n xs w)
  have "reported (expect_deletion n w) = reported w" by (rule reported_cong) (simp_all add: expect_deletion_def)
  with 2 show ?case by (auto simp: sends_fresh_def)
next
  case (5 e xs w)
  obtain s1 w1 where e: "handle_event e w = (s1, w1)" by force
  obtain s2 rest where l: "watcher_loop xs w1 = (s2, rest)" by (cases "watcher_loop xs w1") auto
  from 5[of "(s1, w1)" s1 w1] e l have "sends_fresh w1 (s2, fst rest)" by auto
  with sends_fresh_append[of w s1 w1 s2 "fst rest"] sends_fresh_event[of w e] e l show ?case by auto
qed (auto simp: sends_fresh_Nil)

lemma emit_if_fresh_other:
  "emit_if_fresh sig w = (s, w') \<Longrightarrow> ws_expected_deletions w' = ws_expected_deletions w"
  by (auto simp: emit_if_fresh_def split: prod.splits dest!: should_emit_other)

lemma emit_missing_other: "emit_missing ns w = (s, w') \<Longrightarrow> ws_expected_deletions w' = ws_expected_deletions w"
  by (induction ns arbitrary: w s) (auto split: prod.splits dest!: emit_if_fresh_other)

lemma handle_event_expected:
  "handle_event e w = (s, w') \<Longrightarrow> ws_expected_deletions w' = ws_expected_deletions w"
  by (cases e)
    (auto simp: emit_classified_def handle_delete_def emit_presence_diff_def take_missing_after_init_def
      record_init_observation_def split: option.splits if_splits prod.splits
      dest!: emit_if_fresh_other emit_missing_other)

lemma loop_expected:
  "watcher_loop xs w = (s, w', True) \<Longrightarrow>
    set (ws_expected_deletions w') = set (ws_expected_deletions w) \<union> {n. CommandIn (Some (ExpectDeletion n)) \<in> set xs}"
proof (induction xs w arbitrary: s rule: watcher_loop.induct)
  case (2 n xs w)
  then show ?case by (auto simp: expect_deletion_def)
next
  case (5 e xs w)
  then show ?case by (auto split: prod.splits dest!: handle_event_expected)
qed auto

lemma seeded_uids: "uids (fold (\<lambda>node. hm_insert node [u]) ns mp) n = (if n \<in> set ns then {u} else uids mp n)"
  by (induction ns arbitrary: mp) (auto simp: uids_def)

lemma reported_seeded: "reported (seeded ns) = {(False, n, REHYDRATION_SENTINEL_UID) |n. n \<in> set ns}"
proof -
  have "uids [] n = {}" for n by (simp add: uids_def)
  then show ?thesis by (auto simp: reported_def seeded_def seeded_uids split: if_splits)
qed

lemma was_running_reported: "was_running w n \<longleftrightarrow> (\<exists>u. (False, n, u) \<in> reported w)"
  by (auto simp: was_running_def reported_def uids_def split: option.splits) (metis list.set_intros(1) neq_Nil_conv)

section \<open>Properties\<close>

text \<open>
  Claim C21. The coordinator hears each fact about a pod once: whatever events, errors and commands
  the watcher receives, it sends at most one running signal and at most one failure signal per
  node and pod uid.
\<close>

theorem watcher_signals_once:
  "distinct (map sig_key (fst (watcher_run seed_running inputs)))"
  using sends_fresh_loop[of inputs "seeded seed_running"] by (auto simp: watcher_run_def sends_fresh_def)

text \<open>
  Claim C39. A deleted pod is reported as a failure only when it should be: while the watcher runs, a
  delete event leads to a signal only if the coordinator did not announce the deletion of that
  node before, and only for a node that was running, because the watcher reported it as running
  or it was running when the watcher started; the signal is \<open>PodDeletedUnexpectedly\<close> for that pod.
\<close>

theorem deletion_reported_only_if_unexpected:
  assumes "watcher_run seed_running inputs = (sent, w, True)"
    and "handle_event (Delete p) w = (sigs, w')" and "sigs \<noteq> []"
  shows "\<exists>n. node_name_for p = Some n \<and> sigs = [InfraFailure n (unwrap_str (pod_uid p)) PodDeletedUnexpectedly] \<and>
    CommandIn (Some (ExpectDeletion n)) \<notin> set inputs \<and>
    (n \<in> set seed_running \<or> (\<exists>u. PodRunning n u \<in> set sent))"
proof -
  from assms(2,3) obtain n where n: "node_name_for p = Some n" "\<not> deletion_was_expected w n" "was_running w n"
      "sigs = [InfraFailure n (unwrap_str (pod_uid p)) PodDeletedUnexpectedly]"
    by (auto simp: handle_delete_def emit_if_fresh_def split: option.splits if_splits prod.splits)
  from assms(1) have l: "watcher_loop inputs (seeded seed_running) = (sent, w, True)"
    by (simp add: watcher_run_def)
  from loop_expected[OF l] n(2) have "CommandIn (Some (ExpectDeletion n)) \<notin> set inputs"
    by (auto simp: deletion_was_expected_def)
  moreover from sends_fresh_loop[of inputs "seeded seed_running"] l
  have "reported w = reported (seeded seed_running) \<union> sig_key ` set sent" by (auto simp: sends_fresh_def)
  with n(3) obtain u where "(False, n, u) \<in> reported (seeded seed_running) \<union> sig_key ` set sent"
    by (auto simp: was_running_reported)
  then have "n \<in> set seed_running \<or> (\<exists>u. PodRunning n u \<in> set sent)"
  proof
    assume "(False, n, u) \<in> sig_key ` set sent"
    then obtain x where "x \<in> set sent" "sig_key x = (False, n, u)" by auto
    moreover have "x = PodRunning n u" if "sig_key x = (False, n, u)" using that by (cases x) auto
    ultimately show ?thesis by blast
  qed (auto simp: reported_seeded)
  ultimately show ?thesis using n by blast
qed

abbreviation running_pod :: "string \<Rightarrow> string \<Rightarrow> pod" where
  "running_pod n u \<equiv> \<lparr> pod_annotations = Some [(''the-conn.com/node-name'', n)], pod_uid = Some u,
    pod_pod_status = Some \<lparr> pst_init_container_statuses = None, pst_container_statuses =
      Some [\<lparr> cs_name = ''main'', cs_image = ''img'', cs_state =
        Some \<lparr> cst_waiting = None, cst_running = True, cst_terminated = None \<rparr> \<rparr>] \<rparr> \<rparr>"

text \<open>
  The presence check runs at the end of the first initial listing, but a watcher over
  several namespaces has one listing per namespace: a node whose healthy pod is listed by the
  second namespace is reported as deleted as soon as the first namespace is done.
\<close>

theorem presence_check_before_second_namespace:
  "fst (watcher_run [''b''] [EventIn Init, EventIn InitDone, EventIn Init, EventIn (InitApply (running_pod ''b'' ''u1'')),
      EventIn InitDone]) =
    [InfraFailure ''b'' REHYDRATION_SENTINEL_UID PodDeletedUnexpectedly, PodRunning ''b'' ''u1'']"
  by code_simp

section \<open>Witnesses\<close>

theorem deletion_reported_only_if_unexpected_witness:
  "\<exists>n. node_name_for (running_pod ''a'' ''u'') = Some n \<and>
    (n \<in> set [''a''] \<or> (\<exists>u. PodRunning n u \<in> set (fst (watcher_run [''a''] []))))"
proof -
  have 1: "watcher_run [''a''] [] = ([], seeded [''a''], True)" by (simp add: watcher_run_def)
  have 2: "fst (handle_event (Delete (running_pod ''a'' ''u'')) (seeded [''a''])) \<noteq> []" by code_simp
  from deletion_reported_only_if_unexpected[OF 1 prod.collapse[symmetric] 2] 1 show ?thesis by auto
qed

end
