(* ===== verification/Backplane.thy ===== *)
theory Backplane
  imports Prelude
begin

text \<open>
  The event bus, \<open>src/backplane/src/lib.rs\<close>. The trait \<open>Backplane\<close> is the record \<open>backplane_ops\<close>;
  a subscription is a number, and \<open>next_event\<close> polls it. \<open>InMemoryBackplane\<close> is modelled on the
  broadcast channel of its run: the values sent while there are receivers, and the position of
  every receiver, which skips what fell out of the ring of 128 values. \<open>RabbitmqBackplane\<close> is
  modelled as the sequence of requests it makes to an AMQP client (a parameter).
\<close>

section \<open>Data\<close>

datatype backplane_event = NodeCompleted string bool | Cancel

datatype backplane_error = AmqpError string | BpPoolError string | BpSerialization string | BpOther string

text \<open>The result of polling \<open>next_event\<close>: an event, nothing yet, or the end.\<close>

datatype poll = EventReady backplane_event | EventPending | EventClosed

record 'w backplane_ops =
  bp_publish_node_completed :: "string \<Rightarrow> string \<Rightarrow> bool \<Rightarrow> ('w, backplane_error + unit) state"
  bp_publish_cancel :: "string \<Rightarrow> ('w, backplane_error + unit) state"
  bp_ping :: "('w, backplane_error + unit) state"
  bp_subscribe_run :: "string \<Rightarrow> ('w, backplane_error + nat) state"
  bp_next_event :: "nat \<Rightarrow> ('w, poll) state"

section \<open>The in-memory backplane\<close>

definition BROADCAST_CAPACITY :: nat where
  "BROADCAST_CAPACITY = 128"

record broadcast =
  bc_sent :: "backplane_event list"
  bc_receivers :: "(nat, nat) hashmap"

record in_memory_backplane =
  ib_channels :: "(string, broadcast) hashmap"
  ib_next_receiver :: nat

definition ib_new :: in_memory_backplane where
  "ib_new = \<lparr> ib_channels = [], ib_next_receiver = 0 \<rparr>"

text \<open>\<open>channels.entry(run_id).or_insert_with(|| broadcast::channel(128).0)\<close>\<close>

definition channel_of :: "string \<Rightarrow> in_memory_backplane \<Rightarrow> broadcast" where
  "channel_of run_id b =
    (case hm_get (ib_channels b) run_id of Some c \<Rightarrow> c | None \<Rightarrow> \<lparr> bc_sent = [], bc_receivers = [] \<rparr>)"

definition ib_put :: "string \<Rightarrow> broadcast \<Rightarrow> in_memory_backplane \<Rightarrow> in_memory_backplane" where
  "ib_put run_id c b = b\<lparr>ib_channels := hm_insert run_id c (ib_channels b)\<rparr>"

definition ib_publish_event :: "string \<Rightarrow> backplane_event \<Rightarrow> (in_memory_backplane, backplane_error + unit) state" where
  "ib_publish_event run_id event = State (\<lambda>b.
    let c = channel_of run_id b;
        c' = (if bc_receivers c = [] then c else c\<lparr>bc_sent := bc_sent c @ [event]\<rparr>)
    in (Inr (), ib_put run_id c' b))"

definition ib_publish_node_completed ::
  "string \<Rightarrow> string \<Rightarrow> bool \<Rightarrow> (in_memory_backplane, backplane_error + unit) state" where
  "ib_publish_node_completed run_id node_name success = ib_publish_event run_id (NodeCompleted node_name success)"

definition ib_publish_cancel :: "string \<Rightarrow> (in_memory_backplane, backplane_error + unit) state" where
  "ib_publish_cancel run_id = ib_publish_event run_id Cancel"

definition ib_subscribe_run :: "string \<Rightarrow> (in_memory_backplane, backplane_error + nat) state" where
  "ib_subscribe_run run_id = State (\<lambda>b.
    let c = channel_of run_id b; r = ib_next_receiver b
    in (Inr r, (ib_put run_id (c\<lparr>bc_receivers := hm_insert r (length (bc_sent c)) (bc_receivers c)\<rparr>) b)
          \<lparr>ib_next_receiver := r + 1\<rparr>))"

text \<open>\<open>recv\<close>: a receiver that lags continues with the oldest value still in the ring.\<close>

definition bc_recv :: "nat \<Rightarrow> broadcast \<Rightarrow> (poll \<times> broadcast) option" where
  "bc_recv r c =
    (case hm_get (bc_receivers c) r of
       None \<Rightarrow> None
     | Some pos \<Rightarrow>
        let pos' = max pos (length (bc_sent c) - BROADCAST_CAPACITY) in
        Some (if pos' < length (bc_sent c)
              then (EventReady (bc_sent c ! pos'), c\<lparr>bc_receivers := hm_insert r (pos' + 1) (bc_receivers c)\<rparr>)
              else (EventPending, c)))"

fun ib_recv :: "nat \<Rightarrow> (string, broadcast) hashmap \<Rightarrow> poll \<times> (string, broadcast) hashmap" where
  "ib_recv r [] = (EventClosed, [])"
| "ib_recv r ((k, c) # cs) =
    (case bc_recv r c of
       Some (p, c') \<Rightarrow> (p, (k, c') # cs)
     | None \<Rightarrow> (case ib_recv r cs of (p, cs') \<Rightarrow> (p, (k, c) # cs')))"

definition ib_next_event :: "nat \<Rightarrow> (in_memory_backplane, poll) state" where
  "ib_next_event r = State (\<lambda>b. case ib_recv r (ib_channels b) of (p, cs) \<Rightarrow> (p, b\<lparr>ib_channels := cs\<rparr>))"

definition in_memory_backplane_ops :: "in_memory_backplane backplane_ops" where
  "in_memory_backplane_ops =
    \<lparr> bp_publish_node_completed = ib_publish_node_completed, bp_publish_cancel = ib_publish_cancel,
      bp_ping = State_Monad.return (Inr ()), bp_subscribe_run = ib_subscribe_run,
      bp_next_event = ib_next_event \<rparr>"

section \<open>The RabbitMQ backplane\<close>

definition JEFFERIES_EXCHANGE :: string where
  "JEFFERIES_EXCHANGE = ''jefferies.events''"

text \<open>
  The AMQP client. A connection is taken from the pool, a channel created on it, and requests are
  made; \<open>am_next\<close> is the consumer stream, \<open>am_ack\<close> and \<open>am_nack\<close> settle a delivery.
\<close>

datatype delivery = Delivery nat string | ConsumerError string | ConsumerEnd

record 'w amqp =
  am_pool_get :: "('w, string + unit) state"
  am_create_channel :: "('w, string + unit) state"
  am_exchange_declare :: "string \<Rightarrow> ('w, string + unit) state"
  am_queue_declare :: "string \<Rightarrow> ('w, string + unit) state"
  am_queue_bind :: "string \<Rightarrow> string \<Rightarrow> string \<Rightarrow> ('w, string + unit) state"
  am_basic_consume :: "string \<Rightarrow> ('w, string + nat) state"
  am_basic_publish :: "string \<Rightarrow> string \<Rightarrow> string \<Rightarrow> ('w, string + unit) state"
  am_next :: "nat \<Rightarrow> ('w, delivery option) state"
  am_ack :: "nat \<Rightarrow> ('w, unit) state"
  am_nack :: "nat \<Rightarrow> ('w, unit) state"
  am_to_json :: "backplane_event \<Rightarrow> string + string"
  am_from_json :: "string \<Rightarrow> backplane_event option"

definition amqp_err :: "('w, string + 'a) state \<Rightarrow> ('w, backplane_error + 'a) state" where
  "amqp_err m = do { r \<leftarrow> m; State_Monad.return (map_sum AmqpError id r) }"

definition pool_err :: "('w, string + 'a) state \<Rightarrow> ('w, backplane_error + 'a) state" where
  "pool_err m = do { r \<leftarrow> m; State_Monad.return (map_sum BpPoolError id r) }"

definition run_routing_key :: "string \<Rightarrow> string" where
  "run_routing_key run_id = ''run.'' @ run_id"

definition rabbit_publish_event :: "'w amqp \<Rightarrow> string \<Rightarrow> backplane_event \<Rightarrow> ('w, backplane_error + unit) state" where
  "rabbit_publish_event am run_id event =
    bind_ok (pool_err (am_pool_get am)) (\<lambda>_.
    bind_ok (amqp_err (am_create_channel am)) (\<lambda>_.
    bind_ok (amqp_err (am_exchange_declare am JEFFERIES_EXCHANGE)) (\<lambda>_.
      case am_to_json am event of
        Inl e \<Rightarrow> State_Monad.return (Inl (BpSerialization e))
      | Inr payload \<Rightarrow> amqp_err (am_basic_publish am JEFFERIES_EXCHANGE (run_routing_key run_id) payload))))"

definition rabbit_subscribe_run :: "'w amqp \<Rightarrow> string \<Rightarrow> ('w, backplane_error + nat) state" where
  "rabbit_subscribe_run am run_id =
    (let queue_name = ''jefferies.coordinator.'' @ run_id in
     bind_ok (pool_err (am_pool_get am)) (\<lambda>_.
     bind_ok (amqp_err (am_create_channel am)) (\<lambda>_.
     bind_ok (amqp_err (am_exchange_declare am JEFFERIES_EXCHANGE)) (\<lambda>_.
     bind_ok (amqp_err (am_queue_declare am queue_name)) (\<lambda>_.
     bind_ok (amqp_err (am_queue_bind am queue_name JEFFERIES_EXCHANGE (run_routing_key run_id))) (\<lambda>_.
       amqp_err (am_basic_consume am queue_name)))))))"

text \<open>
  The loop of \<open>RabbitmqSubscription::next_event\<close> on the deliveries that have arrived: payloads
  that do not decode are rejected and skipped. \<open>fuel\<close> bounds the deliveries looked at in one
  poll; when it runs out the poll is pending.
\<close>

fun rabbit_next_event :: "'w amqp \<Rightarrow> nat \<Rightarrow> nat \<Rightarrow> ('w, poll) state" where
  "rabbit_next_event am 0 consumer = State_Monad.return EventPending"
| "rabbit_next_event am (Suc fuel) consumer = do {
    d \<leftarrow> am_next am consumer;
    (case d of
       None \<Rightarrow> State_Monad.return EventPending
     | Some (Delivery tag data) \<Rightarrow>
        (case am_from_json am data of
           Some event \<Rightarrow> do { am_ack am tag; State_Monad.return (EventReady event) }
         | None \<Rightarrow> do { am_nack am tag; rabbit_next_event am fuel consumer })
     | Some (ConsumerError e) \<Rightarrow> State_Monad.return EventClosed
     | Some ConsumerEnd \<Rightarrow> State_Monad.return EventClosed)
  }"

definition rabbitmq_backplane_ops :: "'w amqp \<Rightarrow> nat \<Rightarrow> 'w backplane_ops" where
  "rabbitmq_backplane_ops am fuel =
    \<lparr> bp_publish_node_completed = (\<lambda>run_id node_name success.
        rabbit_publish_event am run_id (NodeCompleted node_name success)),
      bp_publish_cancel = (\<lambda>run_id. rabbit_publish_event am run_id Cancel),
      bp_ping = bind_ok (pool_err (am_pool_get am)) (\<lambda>_. State_Monad.return (Inr ())),
      bp_subscribe_run = rabbit_subscribe_run am,
      bp_next_event = rabbit_next_event am fuel \<rparr>"

section \<open>Delivery\<close>

fun publish_all :: "string \<Rightarrow> backplane_event list \<Rightarrow> in_memory_backplane \<Rightarrow> in_memory_backplane" where
  "publish_all run_id [] b = b"
| "publish_all run_id (e # es) b =
    publish_all run_id es (snd (State_Monad.run_state (ib_publish_event run_id e) b))"

fun poll_times :: "nat \<Rightarrow> nat \<Rightarrow> in_memory_backplane \<Rightarrow> poll list \<times> in_memory_backplane" where
  "poll_times r 0 b = ([], b)"
| "poll_times r (Suc n) b =
    (case State_Monad.run_state (ib_next_event r) b of (p, b1) \<Rightarrow>
      case poll_times r n b1 of (ps, b2) \<Rightarrow> (p # ps, b2))"

text \<open>Receivers are numbered in the order of subscription, over all channels.\<close>

definition ib_wf :: "in_memory_backplane \<Rightarrow> bool" where
  "ib_wf b \<longleftrightarrow> hm_wf (ib_channels b) \<and>
    (\<forall>(k, c)\<in>set (ib_channels b). \<forall>r pos. hm_get (bc_receivers c) r = Some pos \<longrightarrow>
      r < ib_next_receiver b \<and> pos \<le> length (bc_sent c))"

lemma channel_of_publish:
  "channel_of i (snd (State_Monad.run_state (ib_publish_event run_id e) b)) =
    (if i = run_id \<and> bc_receivers (channel_of run_id b) \<noteq> []
     then (channel_of run_id b)\<lparr>bc_sent := bc_sent (channel_of run_id b) @ [e]\<rparr> else channel_of i b)"
  by (auto simp: ib_publish_event_def Let_def ib_put_def channel_of_def)

lemma channel_of_publish_all:
  "bc_receivers (channel_of run_id b) \<noteq> [] \<Longrightarrow>
    channel_of run_id (publish_all run_id es b) =
      (channel_of run_id b)\<lparr>bc_sent := bc_sent (channel_of run_id b) @ es\<rparr>"
  by (induction es arbitrary: b) (auto simp: channel_of_publish)

text \<open>Receiver \<open>r\<close> is on the channel of the run, at a position, and on no other channel.\<close>

definition listening :: "nat \<Rightarrow> string \<Rightarrow> nat \<Rightarrow> backplane_event list \<Rightarrow> in_memory_backplane \<Rightarrow> bool" where
  "listening r run_id pos sent b \<longleftrightarrow> hm_wf (ib_channels b) \<and>
    (\<exists>c. hm_get (ib_channels b) run_id = Some c \<and> hm_get (bc_receivers c) r = Some pos \<and> bc_sent c = sent) \<and>
    (\<forall>(k, c)\<in>set (ib_channels b). k \<noteq> run_id \<longrightarrow> hm_get (bc_receivers c) r = None)"

lemma set_hm_insert: "hm_wf m \<Longrightarrow> (k', v') \<in> set (hm_insert k v m) \<longleftrightarrow> k' = k \<and> v' = v \<or> k' \<noteq> k \<and> (k', v') \<in> set m"
  by (auto simp: hm_get_in_set[symmetric] split: if_splits)

lemma bc_recv_None: "hm_get (bc_receivers c) r = None \<Longrightarrow> bc_recv r c = None"
  by (simp add: bc_recv_def)

lemma ib_recv_at:
  assumes "hm_wf cs" "hm_get cs k = Some c" "bc_recv r c = Some (p, c')"
    and "\<forall>(k', d)\<in>set cs. k' \<noteq> k \<longrightarrow> hm_get (bc_receivers d) r = None"
  shows "ib_recv r cs = (p, hm_insert k c' cs)"
  using assms
proof (induction cs)
  case (Cons x cs)
  obtain k' d where x: "x = (k', d)" by force
  show ?case
  proof (cases "k' = k")
    case True
    with Cons.prems x show ?thesis by (simp add: hm_get_def hm_insert_def)
  next
    case False
    with Cons x have "ib_recv r cs = (p, hm_insert k c' cs)" "bc_recv r d = None"
      by (auto simp: hm_get_def hm_wf_def bc_recv_None)
    with False x show ?thesis by (simp add: hm_insert_def)
  qed
qed simp

lemma listening_poll:
  assumes l: "listening r run_id pos sent b" and len: "length sent - pos \<le> BROADCAST_CAPACITY" "pos \<le> length sent"
    and run: "State_Monad.run_state (ib_next_event r) b = (p, b')"
  shows "if pos < length sent then p = EventReady (sent ! pos) \<and> listening r run_id (pos + 1) sent b'
    else p = EventPending"
proof -
  from l obtain c where c: "hm_get (ib_channels b) run_id = Some c" "hm_get (bc_receivers c) r = Some pos" "bc_sent c = sent"
    and wf: "hm_wf (ib_channels b)"
    and only: "\<forall>(k, c)\<in>set (ib_channels b). k \<noteq> run_id \<longrightarrow> hm_get (bc_receivers c) r = None"
    by (auto simp: listening_def)
  from len have pos: "max pos (length sent - BROADCAST_CAPACITY) = pos" by auto
  let ?c = "c\<lparr>bc_receivers := hm_insert r (pos + 1) (bc_receivers c)\<rparr>"
  show ?thesis
  proof (cases "pos < length sent")
    case True
    with c pos have "bc_recv r c = Some (EventReady (sent ! pos), ?c)" by (simp add: bc_recv_def)
    from ib_recv_at[OF wf c(1) this only] run have
      b': "p = EventReady (sent ! pos)" "b' = b\<lparr>ib_channels := hm_insert run_id ?c (ib_channels b)\<rparr>"
      by (auto simp: ib_next_event_def)
    have "listening r run_id (pos + 1) sent b'"
      using wf only c(3) by (auto simp: b' listening_def set_hm_insert)
    with True b' show ?thesis by simp
  next
    case False
    with c pos have "bc_recv r c = Some (EventPending, c)" by (simp add: bc_recv_def)
    from ib_recv_at[OF wf c(1) this only] run False show ?thesis by (auto simp: ib_next_event_def)
  qed
qed

lemma listening_polls:
  "\<lbrakk> listening r run_id pos sent b; length sent - pos \<le> BROADCAST_CAPACITY; pos \<le> length sent \<rbrakk> \<Longrightarrow>
    fst (poll_times r (Suc (length sent - pos)) b) = map EventReady (drop pos sent) @ [EventPending]"
proof (induction "length sent - pos" arbitrary: pos b)
  case 0
  obtain p b' where run: "State_Monad.run_state (ib_next_event r) b = (p, b')" by force
  from listening_poll[OF 0(2,3,4) run] 0(1) run show ?case by simp
next
  case (Suc n)
  obtain p b' where run: "State_Monad.run_state (ib_next_event r) b = (p, b')" by force
  from Suc(2) have pos: "pos < length sent" by simp
  with listening_poll[OF Suc(3,4,5) run] have p: "p = EventReady (sent ! pos)" "listening r run_id (pos + 1) sent b'"
    by auto
  from Suc(1)[OF _ p(2)] Suc(2,4) pos have
    "fst (poll_times r (Suc (length sent - (pos + 1))) b') = map EventReady (drop (pos + 1) sent) @ [EventPending]"
    by simp
  moreover have "Suc (length sent - (pos + 1)) = length sent - pos" using pos by simp
  ultimately have "fst (poll_times r (length sent - pos) b') = map EventReady (drop (pos + 1) sent) @ [EventPending]"
    by (simp only:)
  with run p(1) pos show ?case
    by (cases "poll_times r (length sent - pos) b'") (simp add: Cons_nth_drop_Suc[symmetric])
qed

lemma listening_publish:
  assumes "listening r run_id pos sent b"
  shows "listening r run_id pos (sent @ [e]) (snd (State_Monad.run_state (ib_publish_event run_id e) b))"
proof -
  from assms obtain c where c: "hm_get (ib_channels b) run_id = Some c" "hm_get (bc_receivers c) r = Some pos" "bc_sent c = sent"
    by (auto simp: listening_def)
  then have "bc_receivers c \<noteq> []" by auto
  with c assms show ?thesis
    by (auto simp: listening_def ib_publish_event_def Let_def ib_put_def channel_of_def set_hm_insert)
qed

lemma listening_publish_all:
  "listening r run_id pos sent b \<Longrightarrow> listening r run_id pos (sent @ es) (publish_all run_id es b)"
proof (induction es arbitrary: sent b)
  case (Cons e es)
  from Cons.IH[OF listening_publish[OF Cons.prems, of e]] show ?case by simp
qed simp

lemma subscribe_listening:
  assumes "ib_wf b" "State_Monad.run_state (ib_subscribe_run run_id) b = (Inr r, b')"
  shows "listening r run_id (length (bc_sent (channel_of run_id b))) (bc_sent (channel_of run_id b)) b'"
proof -
  from assms(2) have b': "r = ib_next_receiver b" "ib_channels b' = hm_insert run_id ((channel_of run_id b)
      \<lparr>bc_receivers := hm_insert r (length (bc_sent (channel_of run_id b))) (bc_receivers (channel_of run_id b))\<rparr>) (ib_channels b)"
    by (auto simp: ib_subscribe_run_def Let_def ib_put_def)
  have "hm_get (bc_receivers c) r = None" if "(k, c) \<in> set (ib_channels b)" for k c
  proof (rule ccontr)
    assume "hm_get (bc_receivers c) r \<noteq> None"
    with assms(1) that b'(1) show False by (fastforce simp: ib_wf_def)
  qed
  with assms(1) show ?thesis
    by (auto simp: listening_def b'(2) ib_wf_def set_hm_insert)
qed

section \<open>Polls of a RabbitMQ subscription\<close>

text \<open>
  What the client documents of a consumer: deliveries come out of its buffer in order, \<open>None\<close> while it is
  empty, and \<open>ack\<close> and \<open>nack\<close> settle a delivery (\<open>True\<close> for \<open>ack\<close>) and leave the buffer alone.
\<close>

definition amqp_consumer_law ::
  "'w amqp \<Rightarrow> nat \<Rightarrow> ('w \<Rightarrow> delivery list) \<Rightarrow> ('w \<Rightarrow> (nat \<times> bool) list) \<Rightarrow> bool" where
  "amqp_consumer_law am consumer buffer verdicts \<longleftrightarrow>
    (\<forall>w d w'. State_Monad.run_state (am_next am consumer) w = (d, w') \<longrightarrow> verdicts w' = verdicts w \<and>
      (case buffer w of [] \<Rightarrow> d = None \<and> buffer w' = [] | x # xs \<Rightarrow> d = Some x \<and> buffer w' = xs)) \<and>
    (\<forall>tag w u w'. State_Monad.run_state (am_ack am tag) w = (u, w') \<longrightarrow>
      buffer w' = buffer w \<and> verdicts w' = verdicts w @ [(tag, True)]) \<and>
    (\<forall>tag w u w'. State_Monad.run_state (am_nack am tag) w = (u, w') \<longrightarrow>
      buffer w' = buffer w \<and> verdicts w' = verdicts w @ [(tag, False)])"

fun undecodable :: "'w amqp \<Rightarrow> delivery \<Rightarrow> bool" where
  "undecodable am (Delivery tag data) \<longleftrightarrow> am_from_json am data = None"
| "undecodable am _ \<longleftrightarrow> False"

fun delivery_tag :: "delivery \<Rightarrow> nat" where
  "delivery_tag (Delivery tag data) = tag"
| "delivery_tag _ = 0"

text \<open>What a poll should give, and which deliveries it should settle how.\<close>

fun poll_result :: "'w amqp \<Rightarrow> delivery list \<Rightarrow> poll \<times> (nat \<times> bool) list" where
  "poll_result am (Delivery tag data # _) =
    (case am_from_json am data of Some event \<Rightarrow> (EventReady event, [(tag, True)]) | None \<Rightarrow> (EventPending, []))"
| "poll_result am (_ # _) = (EventClosed, [])"
| "poll_result am [] = (EventPending, [])"

lemma rabbit_poll:
  assumes law: "amqp_consumer_law am consumer buffer verdicts"
  shows "\<lbrakk> length (buffer w) < fuel; State_Monad.run_state (rabbit_next_event am fuel consumer) w = (p, w') \<rbrakk> \<Longrightarrow>
    p = fst (poll_result am (dropWhile (undecodable am) (buffer w))) \<and>
    buffer w' = tl (dropWhile (undecodable am) (buffer w)) \<and>
    verdicts w' = verdicts w @ map (\<lambda>d. (delivery_tag d, False)) (takeWhile (undecodable am) (buffer w)) @
      snd (poll_result am (dropWhile (undecodable am) (buffer w)))"
proof (induction fuel arbitrary: w)
  case (Suc fuel)
  obtain d w1 where next_: "State_Monad.run_state (am_next am consumer) w = (d, w1)" by force
  with law have v1: "verdicts w1 = verdicts w"
    and b1: "case buffer w of [] \<Rightarrow> d = None \<and> buffer w1 = [] | x # xs \<Rightarrow> d = Some x \<and> buffer w1 = xs"
    by (auto simp: amqp_consumer_law_def)
  show ?case
  proof (cases "buffer w")
    case Nil
    with b1 v1 next_ Suc.prems show ?thesis by simp
  next
    case (Cons x xs)
    with b1 have d: "d = Some x" "buffer w1 = xs" by simp_all
    show ?thesis
    proof (cases x)
      case (Delivery tag data)
      show ?thesis
      proof (cases "am_from_json am data")
        case None
        obtain u w2 where nack: "State_Monad.run_state (am_nack am tag) w1 = (u, w2)" by (meson surj_pair)
        with law have w2: "buffer w2 = buffer w1" "verdicts w2 = verdicts w1 @ [(tag, False)]" by (auto simp: amqp_consumer_law_def)
        have "State_Monad.run_state (rabbit_next_event am fuel consumer) w2 = (p, w')"
          using Suc.prems(2) next_ nack d Delivery None by simp
        from Suc.IH[OF _ this] Suc.prems(1) Cons d w2 v1 Delivery None show ?thesis by simp
      next
        case (Some event)
        obtain u w2 where ack: "State_Monad.run_state (am_ack am tag) w1 = (u, w2)" by (meson surj_pair)
        with law have "buffer w2 = buffer w1" "verdicts w2 = verdicts w1 @ [(tag, True)]" by (auto simp: amqp_consumer_law_def)
        with Suc.prems(2) next_ ack d v1 Cons Delivery Some show ?thesis by simp
      qed
    qed (use Suc.prems(2) next_ d v1 Cons in simp_all)
  qed
qed simp

section \<open>Properties\<close>


text \<open>
  Claim C38. A poll of a RabbitMQ subscription terminates, whatever has been delivered: with more fuel than there are
  deliveries in the buffer, it rejects every payload that does not decode, without losing a later one, and returns
  the first that does after acknowledging it and nothing else; an error or the end of the consumer closes the
  subscription, and an empty buffer leaves it waiting. How much more fuel there is makes no difference to the result.
\<close>

theorem rabbit_poll_terminates:
  assumes "amqp_consumer_law am consumer buffer verdicts" and "length (buffer w) < fuel"
  shows "\<exists>w'. State_Monad.run_state (rabbit_next_event am fuel consumer) w =
      (fst (poll_result am (dropWhile (undecodable am) (buffer w))), w') \<and>
    buffer w' = tl (dropWhile (undecodable am) (buffer w)) \<and>
    verdicts w' = verdicts w @ map (\<lambda>d. (delivery_tag d, False)) (takeWhile (undecodable am) (buffer w)) @
      snd (poll_result am (dropWhile (undecodable am) (buffer w)))"
proof -
  obtain p w' where run: "State_Monad.run_state (rabbit_next_event am fuel consumer) w = (p, w')" by force
  from rabbit_poll[OF assms this] run show ?thesis by auto
qed

section \<open>Witnesses\<close>

text \<open>A client whose world is its buffer and the verdicts so far; payloads other than \<open>cancel\<close> do not decode.\<close>

definition buffered_amqp :: "(delivery list \<times> (nat \<times> bool) list) amqp" where
  "buffered_amqp =
    \<lparr> am_pool_get = State_Monad.return (Inr ()), am_create_channel = State_Monad.return (Inr ()),
      am_exchange_declare = (\<lambda>_. State_Monad.return (Inr ())), am_queue_declare = (\<lambda>_. State_Monad.return (Inr ())),
      am_queue_bind = (\<lambda>_ _ _. State_Monad.return (Inr ())), am_basic_consume = (\<lambda>_. State_Monad.return (Inr 0)),
      am_basic_publish = (\<lambda>_ _ _. State_Monad.return (Inr ())),
      am_next = (\<lambda>_. State (\<lambda>(ds, vs). case ds of [] \<Rightarrow> (None, ([], vs)) | d # ds \<Rightarrow> (Some d, (ds, vs)))),
      am_ack = (\<lambda>tag. State (\<lambda>(ds, vs). ((), (ds, vs @ [(tag, True)])))),
      am_nack = (\<lambda>tag. State (\<lambda>(ds, vs). ((), (ds, vs @ [(tag, False)])))),
      am_to_json = (\<lambda>_. Inr ''cancel''), am_from_json = (\<lambda>data. if data = ''cancel'' then Some Cancel else None) \<rparr>"

theorem rabbit_poll_terminates_witness:
  "State_Monad.run_state (rabbit_next_event buffered_amqp 4 0) ([Delivery 1 ''x'', Delivery 2 ''cancel'', ConsumerEnd], []) =
    (EventReady Cancel, ([ConsumerEnd], [(1, False), (2, True)]))"
proof -
  have "amqp_consumer_law buffered_amqp 0 fst snd"
    by (auto simp: amqp_consumer_law_def buffered_amqp_def split: list.splits prod.splits)
  from rabbit_poll_terminates[OF this, of "([Delivery 1 ''x'', Delivery 2 ''cancel'', ConsumerEnd], [])" 4]
  show ?thesis by (simp add: buffered_amqp_def prod_eq_iff)
qed


end
