(* ===== verification/Dispatcher.thy ===== *)
theory Dispatcher
  imports AppConfig Pipelines SourceManager PodWatcher Backplane
begin

text \<open>
  Dispatching of nodes, \<open>src/coordinator/src/dispatcher.rs\<close>: the trait \<open>Dispatcher\<close> as the record
  \<open>dispatcher_ops\<close>, its default methods, and \<open>LogDispatcher\<close>, which reports every node as
  completed at once.
\<close>

section \<open>The trait\<close>

datatype dispatch_error = DispatchFailure string | SourceFailure source_error | KubeFailure string

fun dispatch_error_to_string :: "dispatch_error \<Rightarrow> string" where
  "dispatch_error_to_string (DispatchFailure e) = ''Dispatch failed: '' @ e"
| "dispatch_error_to_string (SourceFailure e) = ''Source error: '' @ source_error_to_string e"
| "dispatch_error_to_string (KubeFailure e) = ''Kubernetes error: '' @ e"

record run_metadata =
  rm_owner :: string
  rm_repo :: string
  rm_sha :: string
  rm_branch :: "string option"
  rm_target_branch :: "string option"
  rm_tag :: "string option"
  rm_pr_number :: "i64 option"
  rm_trigger :: string

text \<open>
  The trait object. \<open>start_pod_watcher\<close> says whether a watcher was started; its signals reach the
  coordinator as messages.
\<close>

record 'w dispatcher_ops =
  dp_dispatch :: "string \<Rightarrow> run_metadata \<Rightarrow> node_info \<Rightarrow> pipeline \<Rightarrow> app_config \<Rightarrow> ('w, dispatch_error + unit) state"
  dp_cancel_node :: "string \<Rightarrow> string \<Rightarrow> app_config \<Rightarrow> ('w, dispatch_error + unit) state"
  dp_cleanup_run :: "string \<Rightarrow> ('w, dispatch_error + unit) state"
  dp_get_node_outcome :: "string \<Rightarrow> string \<Rightarrow> ('w, dispatch_error + node_outcome option) state"
  dp_read_outcomes :: "string \<Rightarrow> string list \<Rightarrow> ('w, (string, reconcile_result) hashmap) state"
  dp_get_node_log :: "string \<Rightarrow> string \<Rightarrow> ('w, dispatch_error + string option) state"
  dp_node_pod_exists :: "string \<Rightarrow> string \<Rightarrow> ('w, dispatch_error + bool) state"
  dp_start_pod_watcher :: "string \<Rightarrow> string hashset \<Rightarrow> ('w, bool) state"
  dp_list_managed_run_ids :: "('w, dispatch_error + string list) state"

text \<open>The default method of the trait: one outcome read per node.\<close>

fun default_read_outcomes ::
  "(string \<Rightarrow> string \<Rightarrow> ('w, dispatch_error + node_outcome option) state) \<Rightarrow> string \<Rightarrow>
    (string, reconcile_result) hashmap \<Rightarrow> string list \<Rightarrow> ('w, (string, reconcile_result) hashmap) state"
where
  "default_read_outcomes get_outcome run_id out [] = State_Monad.return out"
| "default_read_outcomes get_outcome run_id out (node_name # ns) = do {
    r \<leftarrow> get_outcome run_id node_name;
    let result = (case r of
        Inr (Some outcome) \<Rightarrow> reconcile_from outcome
      | Inr None \<Rightarrow> StillRunning
      | Inl e \<Rightarrow> TransientReadError (dispatch_error_to_string e));
    default_read_outcomes get_outcome run_id (hm_insert node_name result out) ns
  }"

section \<open>LogDispatcher\<close>

text \<open>
  The completion is published by a task of its own; the model runs it when it is spawned. A coordinator
  hears of it only later in either case: it is not polling its subscription while it dispatches.
\<close>

definition log_dispatch ::
  "'w backplane_ops \<Rightarrow> string \<Rightarrow> run_metadata \<Rightarrow> node_info \<Rightarrow> pipeline \<Rightarrow> app_config \<Rightarrow> ('w, dispatch_error + unit) state"
where
  "log_dispatch bp run_id metadata node p cfg = do {
    _ \<leftarrow> bp_publish_node_completed bp run_id (ni_name node) True;
    State_Monad.return (Inr ())
  }"

definition log_dispatcher :: "'w backplane_ops \<Rightarrow> 'w dispatcher_ops" where
  "log_dispatcher bp =
    \<lparr> dp_dispatch = log_dispatch bp,
      dp_cancel_node = (\<lambda>run_id node_name cfg. State_Monad.return (Inr ())),
      dp_cleanup_run = (\<lambda>run_id. State_Monad.return (Inr ())),
      dp_get_node_outcome = (\<lambda>run_id node_name. State_Monad.return (Inr None)),
      dp_read_outcomes = (\<lambda>run_id nodes.
        default_read_outcomes (\<lambda>_ _. State_Monad.return (Inr None)) run_id [] nodes),
      dp_get_node_log = (\<lambda>run_id node_name. State_Monad.return (Inr None)),
      dp_node_pod_exists = (\<lambda>run_id node_name. State_Monad.return (Inr True)),
      dp_start_pod_watcher = (\<lambda>run_id seed_running. State_Monad.return False),
      dp_list_managed_run_ids = State_Monad.return (Inr []) \<rparr>"

end
