(* ===== verification/Coordinator.thy ===== *)
theory Coordinator
  imports RunHistory Dispatcher
begin

text \<open>
  The coordinator of a run, \<open>src/coordinator/src/coordinator.rs\<close> and \<open>message.rs\<close>. Its services are
  trait objects (records of operations on an arbitrary world \<open>'w\<close>); the clock, fresh UUIDs, the
  channel to the pod watcher, JSON encoding and the time-out of outcome reads are the further
  fields of \<open>coordinator_env\<close>. A handler is a program on the state of the coordinator and the
  world. The select loop of \<open>Coordinator::run\<close> is \<open>coord_step\<close> on one event, \<open>coord_loop\<close> on a
  sequence of events: every order in which deadlines, ticks, messages and backplane events can
  arrive is such a sequence. A spawned timer is the entry of \<open>c_node_phase_handles\<close> with its
  phase and length; when it fires, its message is one of the events.
\<close>

section \<open>Data\<close>

datatype coordinator_message =
    NodeTimedOut string
  | NodePodRunning string
  | NodeInfraFailed string infra_failure_reason
  | NodePodStartTimedOut string

record run_context =
  rc_owner :: string
  rc_repo :: string
  rc_sha :: string
  rc_branch :: "string option"
  rc_target_branch :: "string option"
  rc_tag :: "string option"
  rc_pr_number :: "i64 option"
  rc_trigger :: string
  rc_pipeline_yaml :: string
  rc_created_at :: datetime
  rc_retry_of :: "string option"
  rc_tenant_slug :: "string option"
  rc_github_check_run_id :: "i64 option"

definition run_context_metadata :: "run_context \<Rightarrow> run_metadata" where
  "run_context_metadata rc =
    \<lparr> rm_owner = rc_owner rc, rm_repo = rc_repo rc, rm_sha = rc_sha rc, rm_branch = rc_branch rc,
      rm_target_branch = rc_target_branch rc, rm_tag = rc_tag rc, rm_pr_number = rc_pr_number rc,
      rm_trigger = rc_trigger rc \<rparr>"

record 'w coordinator_services =
  sv_config :: app_config
  sv_dispatcher :: "'w dispatcher_ops"
  sv_state_store :: "'w state_store_ops"
  sv_backplane :: "'w backplane_ops"
  sv_run_history :: "'w run_history_ops"
  sv_report_completed :: "(run_status \<Rightarrow> ('w, unit) state) option"

text \<open>
  The runtime: \<open>Utc::now\<close> (in nanoseconds), the system clock in milliseconds, \<open>Uuid::new_v4\<close>, the
  command channel of the pod watcher, whether an outcome read meets its time budget, the JSON
  text of a node, and \<open>DateTime::from_timestamp\<close>.
\<close>

record 'w coordinator_env = "'w coordinator_services" +
  rt_now :: "('w, datetime) state"
  rt_now_ms :: "('w, u128) state"
  rt_new_uuid :: "('w, string) state"
  rt_watcher_send :: "watcher_command \<Rightarrow> ('w, bool) state"
  rt_within_budget :: "('w, bool) state"
  rt_node_json :: "node_info \<Rightarrow> string option"
  rt_from_timestamp :: "int \<Rightarrow> nat \<Rightarrow> datetime option"

record run_summary =
  sm_run_id :: string
  sm_status :: run_status
  sm_node_statuses :: "(string, node_status) hashmap"

datatype timer_phase = StartupPhase | RuntimePhase

record phase_timer =
  pt_phase :: timer_phase
  pt_secs :: u64

record coordinator =
  c_run_id :: string
  c_run :: pipeline_run
  c_pipeline :: pipeline
  c_node_info_cache :: "(string, node_info) hashmap"
  c_node_phase_handles :: "(string, phase_timer) hashmap"
  c_state_version :: u64
  c_lease_version :: u64
  c_server_id :: string
  c_run_context :: run_context
  c_watcher :: bool
  c_is_rehydrate :: bool

type_synonym ('w, 'a) coord = "(coordinator \<times> 'w, 'a) state"

text \<open>Reading and updating the coordinator, and calling a service.\<close>

definition get_c :: "('w, coordinator) coord" where
  "get_c = State (\<lambda>(c, w). (c, (c, w)))"

definition modify_c :: "(coordinator \<Rightarrow> coordinator) \<Rightarrow> ('w, unit) coord" where
  "modify_c f = State (\<lambda>(c, w). ((), (f c, w)))"

definition call :: "('w, 'a) state \<Rightarrow> ('w, 'a) coord" where
  "call m = State (\<lambda>(c, w). case State_Monad.run_state m w of (a, w') \<Rightarrow> (a, (c, w')))"

definition update_run :: "(pipeline_run \<Rightarrow> bool \<times> pipeline_run) \<Rightarrow> ('w, bool) coord" where
  "update_run f = do {
    c \<leftarrow> get_c;
    let (b, r) = f (c_run c);
    modify_c (\<lambda>c. c\<lparr>c_run := r\<rparr>);
    State_Monad.return b
  }"

definition status_of :: "coordinator \<Rightarrow> string \<Rightarrow> node_status option" where
  "status_of c node_name = hm_get (pr_statuses (c_run c)) node_name"

definition nodes_with :: "(node_status \<Rightarrow> bool) \<Rightarrow> coordinator \<Rightarrow> string list" where
  "nodes_with P c = map fst (filter (\<lambda>(_, s). P s) (pr_statuses (c_run c)))"

section \<open>Records of history\<close>

definition ms_to_datetime :: "'w coordinator_env \<Rightarrow> u128 \<Rightarrow> datetime option" where
  "ms_to_datetime env ms =
    rt_from_timestamp env (sint (ucast (ms div 1000) :: u64)) (unat (ms mod 1000) * 1000000)"

definition build_pipeline_start_record :: "string \<Rightarrow> pipeline \<Rightarrow> run_context \<Rightarrow> pipeline_start_record" where
  "build_pipeline_start_record run_id p rc =
    \<lparr> ps_run_id = run_id, ps_pipeline_name = pl_name p, ps_owner = rc_owner rc, ps_repo = rc_repo rc,
      ps_sha = rc_sha rc, ps_branch = rc_branch rc, ps_target_branch = rc_target_branch rc,
      ps_tag = rc_tag rc, ps_pr_number = rc_pr_number rc, ps_trigger = rc_trigger rc,
      ps_pipeline_definition = rc_pipeline_yaml rc, ps_created_at = rc_created_at rc,
      ps_retry_of = rc_retry_of rc, ps_tenant_slug = rc_tenant_slug rc,
      ps_github_check_run_id = rc_github_check_run_id rc \<rparr>"

definition node_definition_json :: "'w coordinator_env \<Rightarrow> coordinator \<Rightarrow> string \<Rightarrow> string" where
  "node_definition_json env c node_name =
    unwrap_str (Option.bind (hm_get (c_node_info_cache c) node_name) (rt_node_json env))"

definition outcome_time :: "'w coordinator_env \<Rightarrow> (node_outcome \<Rightarrow> u128 option) \<Rightarrow> node_outcome option \<Rightarrow> datetime option" where
  "outcome_time env f outcome = Option.bind (Option.bind outcome f) (ms_to_datetime env)"

definition record_node_dispatched :: "'w coordinator_env \<Rightarrow> string \<Rightarrow> node_info \<Rightarrow> ('w, unit) coord" where
  "record_node_dispatched env node_name node = do {
    c \<leftarrow> get_c;
    now \<leftarrow> call (rt_now env);
    _ \<leftarrow> call (rh_record_node_dispatched (sv_run_history env)
      \<lparr> nd_run_id = c_run_id c, nd_node_name = node_name,
        nd_node_definition = unwrap_str (rt_node_json env node), nd_created_at = now \<rparr>);
    State_Monad.return ()
  }"

definition record_dispatch_failed :: "'w coordinator_env \<Rightarrow> string \<Rightarrow> string \<Rightarrow> ('w, unit) coord" where
  "record_dispatch_failed env node_name err = do {
    c \<leftarrow> get_c;
    now \<leftarrow> call (rt_now env);
    _ \<leftarrow> call (rh_record_node_run (sv_run_history env)
      \<lparr> nr_run_id = c_run_id c, nr_node_name = node_name,
        nr_node_definition = node_definition_json env c node_name, nr_success = False,
        nr_created_at = now, nr_started_at = None, nr_completed_at = Some now,
        nr_output_log = Some (''Dispatch failed: '' @ err),
        nr_failure_reason = Some (stable_code (DispatchFailed err)) \<rparr>);
    State_Monad.return ()
  }"

text \<open>\<open>match dispatcher.get_node_outcome(..) { Ok(o) => o, Err(_) => None }\<close>, and the same for the log.\<close>

definition fetch_outcome :: "'w coordinator_env \<Rightarrow> string \<Rightarrow> ('w, node_outcome option) coord" where
  "fetch_outcome env node_name = do {
    c \<leftarrow> get_c;
    r \<leftarrow> call (dp_get_node_outcome (sv_dispatcher env) (c_run_id c) node_name);
    State_Monad.return (case r of Inr v \<Rightarrow> v | Inl _ \<Rightarrow> None)
  }"

definition fetch_log :: "'w coordinator_env \<Rightarrow> string \<Rightarrow> ('w, string option) coord" where
  "fetch_log env node_name = do {
    c \<leftarrow> get_c;
    r \<leftarrow> call (dp_get_node_log (sv_dispatcher env) (c_run_id c) node_name);
    State_Monad.return (case r of Inr v \<Rightarrow> v | Inl _ \<Rightarrow> None)
  }"

definition record_node_completed ::
  "'w coordinator_env \<Rightarrow> string \<Rightarrow> infra_failure_reason option \<Rightarrow> ('w, unit) coord" where
  "record_node_completed env node_name failure_reason = do {
    c \<leftarrow> get_c;
    let node_success = (status_of c node_name = Some Success);
    outcome \<leftarrow> fetch_outcome env node_name;
    let started_at = outcome_time env no_started_at outcome;
    completed_at \<leftarrow> (case outcome_time env no_finished_at outcome of
        Some t \<Rightarrow> State_Monad.return (Some t)
      | None \<Rightarrow> if failure_reason = None then State_Monad.return None
                else do { now \<leftarrow> call (rt_now env); State_Monad.return (Some now) });
    output_log \<leftarrow> fetch_log env node_name;
    now \<leftarrow> call (rt_now env);
    _ \<leftarrow> call (rh_record_node_run (sv_run_history env)
      \<lparr> nr_run_id = c_run_id c, nr_node_name = node_name,
        nr_node_definition = node_definition_json env c node_name, nr_success = node_success,
        nr_created_at = now, nr_started_at = started_at, nr_completed_at = completed_at,
        nr_output_log = output_log, nr_failure_reason = map_option stable_code failure_reason \<rparr>);
    State_Monad.return ()
  }"

definition record_running_node_terminated :: "'w coordinator_env \<Rightarrow> string \<Rightarrow> ('w, unit) coord" where
  "record_running_node_terminated env node_name = do {
    c \<leftarrow> get_c;
    outcome \<leftarrow> fetch_outcome env node_name;
    let started_at = outcome_time env no_started_at outcome;
    completed_at \<leftarrow> (case outcome_time env no_finished_at outcome of
        Some t \<Rightarrow> State_Monad.return (Some t)
      | None \<Rightarrow> do { now \<leftarrow> call (rt_now env); State_Monad.return (Some now) });
    let success = (Option.bind outcome no_success = Some True);
    output_log \<leftarrow> fetch_log env node_name;
    now \<leftarrow> call (rt_now env);
    _ \<leftarrow> call (rh_record_node_run (sv_run_history env)
      \<lparr> nr_run_id = c_run_id c, nr_node_name = node_name,
        nr_node_definition = node_definition_json env c node_name, nr_success = success,
        nr_created_at = now, nr_started_at = started_at, nr_completed_at = completed_at,
        nr_output_log = output_log, nr_failure_reason = None \<rparr>);
    State_Monad.return ()
  }"

section \<open>State and timers\<close>

definition outcome_status :: "coordinator \<Rightarrow> run_status" where
  "outcome_status c =
    (if list_all (\<lambda>s. s = Success) (hm_values (pr_statuses (c_run c))) then RunSuccess else RunFailure)"

definition persist_state :: "'w coordinator_env \<Rightarrow> ('w, state_store_error + unit) coord" where
  "persist_state env = do {
    c \<leftarrow> get_c;
    let new_version = c_state_version c + 1;
    let st = to_run_state (c_run c) new_version (c_pipeline c);
    r \<leftarrow> call (ss_save_run (sv_state_store env) (c_run_id c) st (c_state_version c));
    (case r of
       Inl e \<Rightarrow> State_Monad.return (Inl e)
     | Inr accepted \<Rightarrow>
        if accepted then do {
          modify_c (\<lambda>c. c\<lparr>c_state_version := new_version\<rparr>);
          State_Monad.return (Inr ())
        }
        else State_Monad.return (Inl (StoreFailure (''Version fencing rejected save for run '' @ c_run_id c))))
  }"

definition persist_state_after_dispatch_transition :: "'w coordinator_env \<Rightarrow> ('w, unit) coord" where
  "persist_state_after_dispatch_transition env = do { _ \<leftarrow> persist_state env; State_Monad.return () }"

definition cancel_node_timeout :: "string \<Rightarrow> ('w, unit) coord" where
  "cancel_node_timeout node_name =
    modify_c (\<lambda>c. c\<lparr>c_node_phase_handles := hm_remove node_name (c_node_phase_handles c)\<rparr>)"

definition arm_timer :: "string \<Rightarrow> timer_phase \<Rightarrow> u64 \<Rightarrow> ('w, unit) coord" where
  "arm_timer node_name phase secs =
    modify_c (\<lambda>c. c\<lparr>c_node_phase_handles :=
      hm_insert node_name \<lparr> pt_phase = phase, pt_secs = secs \<rparr> (c_node_phase_handles c)\<rparr>)"

text \<open>The length of the timers that \<open>spawn_startup_timeout\<close> and \<open>spawn_runtime_timeout\<close> start.\<close>

definition runtime_timeout_secs :: "'w coordinator_env \<Rightarrow> u64 option \<Rightarrow> u64" where
  "runtime_timeout_secs env override_secs =
    (case override_secs of Some s \<Rightarrow> s | None \<Rightarrow> default_node_timeout_secs (sv_config env))"

definition notify_watcher_of_deletion :: "'w coordinator_env \<Rightarrow> string \<Rightarrow> ('w, unit) coord" where
  "notify_watcher_of_deletion env node_name = do {
    c \<leftarrow> get_c;
    if \<not> c_watcher c then State_Monad.return ()
    else do { _ \<leftarrow> call (rt_watcher_send env (ExpectDeletion node_name)); State_Monad.return () }
  }"

definition handle_pod_running :: "'w coordinator_env \<Rightarrow> string \<Rightarrow> ('w, unit) coord" where
  "handle_pod_running env node_name = do {
    c \<leftarrow> get_c;
    (case hm_get (c_node_phase_handles c) node_name of
       Some existing \<Rightarrow>
         if pt_phase existing = RuntimePhase then State_Monad.return ()
         else arm_timer node_name RuntimePhase (runtime_timeout_secs env
           (Option.bind (hm_get (c_node_info_cache c) node_name) ni_timeout_secs))
     | None \<Rightarrow> arm_timer node_name RuntimePhase (runtime_timeout_secs env
         (Option.bind (hm_get (c_node_info_cache c) node_name) ni_timeout_secs)))
  }"

definition fail_fast_enabled :: "'w coordinator_env \<Rightarrow> coordinator \<Rightarrow> bool" where
  "fail_fast_enabled env c =
    (case fail_fast_override (c_pipeline c) of Some b \<Rightarrow> b | None \<Rightarrow> default_fail_fast (sv_config env))"

section \<open>Dispatch\<close>

definition dispatch_node :: "'w coordinator_env \<Rightarrow> string \<Rightarrow> ('w, unit) coord" where
  "dispatch_node env node_name = do {
    c \<leftarrow> get_c;
    (case hm_get (c_node_info_cache c) node_name of
       None \<Rightarrow> do {
         _ \<leftarrow> update_run (mark_dispatch_failed node_name);
         persist_state_after_dispatch_transition env;
         record_dispatch_failed env node_name ''Node info not found in pipeline''
       }
     | Some node \<Rightarrow> do {
         let startup_secs = (case ni_startup_timeout_secs node of
             Some s \<Rightarrow> s | None \<Rightarrow> default_node_startup_timeout_secs (sv_config env));
         r \<leftarrow> call (dp_dispatch (sv_dispatcher env) (c_run_id c) (run_context_metadata (c_run_context c)) node
           (c_pipeline c) (sv_config env));
         (case r of
            Inr _ \<Rightarrow> do {
              ok \<leftarrow> update_run (mark_running node_name);
              if \<not> ok then State_Monad.return ()
              else do {
                persist_state_after_dispatch_transition env;
                record_node_dispatched env node_name node;
                arm_timer node_name StartupPhase startup_secs
              }
            }
          | Inl e \<Rightarrow> do {
              let err_message = dispatch_error_to_string e;
              _ \<leftarrow> update_run (mark_dispatch_failed node_name);
              persist_state_after_dispatch_transition env;
              record_dispatch_failed env node_name err_message
            })
       })
  }"

definition dispatch_ready_nodes :: "'w coordinator_env \<Rightarrow> ('w, unit) coord" where
  "dispatch_ready_nodes env = do { c \<leftarrow> get_c; for_M (dispatch_node env) (ready_nodes (c_run c)) }"

section \<open>Handlers\<close>

text \<open>Each returns true when the run has to stop as a failure.\<close>

definition stop_or_continue :: "'w coordinator_env \<Rightarrow> ('w, bool) coord" where
  "stop_or_continue env = do {
    c \<leftarrow> get_c;
    if fail_fast_enabled env c then State_Monad.return True
    else do { dispatch_ready_nodes env; State_Monad.return False }
  }"

definition cancel_and_record :: "'w coordinator_env \<Rightarrow> string \<Rightarrow> infra_failure_reason option \<Rightarrow> ('w, bool) coord" where
  "cancel_and_record env node_name reason = do {
    c \<leftarrow> get_c;
    notify_watcher_of_deletion env node_name;
    _ \<leftarrow> call (dp_cancel_node (sv_dispatcher env) (c_run_id c) node_name (sv_config env));
    record_node_completed env node_name reason;
    stop_or_continue env
  }"

definition handle_node_infra_failed :: "'w coordinator_env \<Rightarrow> string \<Rightarrow> infra_failure_reason \<Rightarrow> ('w, bool) coord" where
  "handle_node_infra_failed env node_name reason = do {
    c \<leftarrow> get_c;
    if status_of c node_name \<in> {Some Success, Some Failed} then State_Monad.return False
    else do {
      ok \<leftarrow> update_run (mark_failed node_name);
      if \<not> ok then State_Monad.return False
      else do {
        cancel_node_timeout node_name;
        r \<leftarrow> persist_state env;
        (case r of
           Inl _ \<Rightarrow> State_Monad.return True
         | Inr _ \<Rightarrow> cancel_and_record env node_name (Some reason))
      }
    }
  }"

definition handle_pod_start_timed_out :: "'w coordinator_env \<Rightarrow> string \<Rightarrow> ('w, bool) coord" where
  "handle_pod_start_timed_out env node_name = handle_node_infra_failed env node_name PodStartTimeout"

definition handle_node_completed :: "'w coordinator_env \<Rightarrow> string \<Rightarrow> bool \<Rightarrow> ('w, bool) coord" where
  "handle_node_completed env node_name success =
    (if success then do {
       _ \<leftarrow> update_run (mark_success node_name);
       r \<leftarrow> persist_state env;
       (case r of
          Inl _ \<Rightarrow> State_Monad.return True
        | Inr _ \<Rightarrow> do {
            record_node_completed env node_name None;
            dispatch_ready_nodes env;
            State_Monad.return False
          })
     }
     else do {
       _ \<leftarrow> update_run (mark_failed node_name);
       r \<leftarrow> persist_state env;
       (case r of
          Inl _ \<Rightarrow> State_Monad.return True
        | Inr _ \<Rightarrow> do {
            record_node_completed env node_name None;
            stop_or_continue env
          })
     })"

definition handle_node_timed_out :: "'w coordinator_env \<Rightarrow> string \<Rightarrow> ('w, bool) coord" where
  "handle_node_timed_out env node_name = do {
    ok \<leftarrow> update_run (mark_failed node_name);
    if \<not> ok then State_Monad.return False
    else do {
      r \<leftarrow> persist_state env;
      (case r of
         Inl _ \<Rightarrow> State_Monad.return True
       | Inr _ \<Rightarrow> cancel_and_record env node_name None)
    }
  }"

definition read_outcomes_for_non_terminal :: "'w coordinator_env \<Rightarrow> ('w, (string, reconcile_result) hashmap) coord" where
  "read_outcomes_for_non_terminal env = do {
    c \<leftarrow> get_c;
    let nodes = nodes_with (\<lambda>s. s = Running \<or> s = Pending) c;
    if nodes = [] then State_Monad.return []
    else do {
      in_time \<leftarrow> call (rt_within_budget env);
      if in_time then call (dp_read_outcomes (sv_dispatcher env) (c_run_id c) nodes)
      else State_Monad.return []
    }
  }"

definition fold_completions_from_outcomes ::
  "'w coordinator_env \<Rightarrow> (string, reconcile_result) hashmap \<Rightarrow> ('w, bool) coord" where
  "fold_completions_from_outcomes env outcomes =
    until_M (\<lambda>(node_name, result).
      case result of
        Completed success _ _ \<Rightarrow> do {
          cancel_node_timeout node_name;
          handle_node_completed env node_name success
        }
      | _ \<Rightarrow> State_Monad.return False) outcomes"

definition promote_node :: "'w coordinator_env \<Rightarrow> string \<Rightarrow> ('w, bool) coord" where
  "promote_node env node_name = do {
    ok \<leftarrow> update_run (mark_running node_name);
    if \<not> ok then State_Monad.return False
    else do {
      _ \<leftarrow> persist_state env;
      c \<leftarrow> get_c;
      r \<leftarrow> call (dp_node_pod_exists (sv_dispatcher env) (c_run_id c) node_name);
      (case r of
         Inr True \<Rightarrow> State_Monad.return False
       | Inr False \<Rightarrow> handle_node_infra_failed env node_name PodDeletedUnexpectedly
       | Inl _ \<Rightarrow> State_Monad.return False)
    }
  }"

fun is_in_progress :: "reconcile_result \<Rightarrow> bool" where
  "is_in_progress (NodeInProgress _) \<longleftrightarrow> True"
| "is_in_progress _ \<longleftrightarrow> False"

definition promote_started_pending_to_running ::
  "'w coordinator_env \<Rightarrow> (string, reconcile_result) hashmap \<Rightarrow> ('w, bool) coord" where
  "promote_started_pending_to_running env outcomes = do {
    c \<leftarrow> get_c;
    let to_promote = map fst (filter (\<lambda>(name, result).
      is_in_progress result \<and> status_of c name = Some Pending) outcomes);
    until_M (promote_node env) to_promote
  }"

definition reconcile_running_against_s3 :: "'w coordinator_env \<Rightarrow> ('w, bool) coord" where
  "reconcile_running_against_s3 env = do {
    outcomes \<leftarrow> read_outcomes_for_non_terminal env;
    fold_completions_from_outcomes env outcomes
  }"

definition rehydrate_timer ::
  "'w coordinator_env \<Rightarrow> u128 \<Rightarrow> (string, reconcile_result) hashmap \<Rightarrow> string \<Rightarrow> ('w, unit) coord" where
  "rehydrate_timer env now_ms outcomes node_name = do {
    c \<leftarrow> get_c;
    let node = hm_get (c_node_info_cache c) node_name;
    let runtime_secs = (case Option.bind node ni_timeout_secs of
        Some s \<Rightarrow> s | None \<Rightarrow> default_node_timeout_secs (sv_config env));
    let startup_secs = (case Option.bind node ni_startup_timeout_secs of
        Some s \<Rightarrow> s | None \<Rightarrow> default_node_startup_timeout_secs (sv_config env));
    (case hm_get outcomes node_name of
       Some (NodeInProgress started_at_ms) \<Rightarrow>
         let elapsed_ms = (if started_at_ms \<le> now_ms then now_ms - started_at_ms else 0);
             elapsed_secs = (ucast (elapsed_ms div 1000) :: u64)
         in arm_timer node_name RuntimePhase (saturating_sub_u64 runtime_secs elapsed_secs)
     | _ \<Rightarrow> do {
         r \<leftarrow> call (rh_get_node_run (sv_run_history env) (c_run_id c) node_name);
         (case r of
            Inr (Some row) \<Rightarrow> do {
              now \<leftarrow> call (rt_now env);
              let elapsed_secs = (word_of_int (max 0 ((now - node_created_at row) div 1000000000)) :: u64);
              arm_timer node_name StartupPhase (saturating_sub_u64 startup_secs elapsed_secs)
            }
          | _ \<Rightarrow> arm_timer node_name RuntimePhase runtime_secs)
       })
  }"

definition rehydrate_phase_timers ::
  "'w coordinator_env \<Rightarrow> (string, reconcile_result) hashmap \<Rightarrow> ('w, unit) coord" where
  "rehydrate_phase_timers env outcomes = do {
    now_ms \<leftarrow> call (rt_now_ms env);
    c \<leftarrow> get_c;
    for_M (rehydrate_timer env now_ms outcomes) (nodes_with (\<lambda>s. s = Running) c)
  }"

section \<open>The end of a run\<close>

definition terminate_node_in_history :: "'w coordinator_env \<Rightarrow> string \<Rightarrow> ('w, unit) coord" where
  "terminate_node_in_history env node_name = do {
    record_running_node_terminated env node_name;
    _ \<leftarrow> update_run (mark_failed node_name);
    State_Monad.return ()
  }"

definition record_history :: "'w coordinator_env \<Rightarrow> run_status \<Rightarrow> ('w, unit) coord" where
  "record_history env status = do {
    c0 \<leftarrow> get_c;
    for_M (terminate_node_in_history env) (nodes_with (\<lambda>s. s = Running) c0);
    completed_at \<leftarrow> call (rt_now env);
    c \<leftarrow> get_c;
    _ \<leftarrow> call (rh_record_pipeline_run (sv_run_history env)
      (pipeline_start_record.extend (build_pipeline_start_record (c_run_id c) (c_pipeline c) (c_run_context c))
        (pipeline_run_record.fields status (Some completed_at))));
    State_Monad.return ()
  }"

definition finalize_run :: "'w coordinator_env \<Rightarrow> run_status \<Rightarrow> ('w, unit) coord" where
  "finalize_run env status = do {
    record_history env status;
    (case sv_report_completed env of
       None \<Rightarrow> State_Monad.return ()
     | Some report \<Rightarrow> call (report status))
  }"

definition coord_cleanup :: "'w coordinator_env \<Rightarrow> ('w, unit) coord" where
  "coord_cleanup env = do {
    c \<leftarrow> get_c;
    _ \<leftarrow> call (dp_cleanup_run (sv_dispatcher env) (c_run_id c));
    _ \<leftarrow> call (ss_release_lease (sv_state_store env) (c_run_id c));
    _ \<leftarrow> call (ss_delete_run (sv_state_store env) (c_run_id c));
    State_Monad.return ()
  }"

definition shutdown_pod_watcher :: "'w coordinator_env \<Rightarrow> ('w, unit) coord" where
  "shutdown_pod_watcher env = do {
    c \<leftarrow> get_c;
    if c_watcher c then do {
      modify_c (\<lambda>c. c\<lparr>c_watcher := False\<rparr>);
      _ \<leftarrow> call (rt_watcher_send env Shutdown);
      State_Monad.return ()
    } else State_Monad.return ()
  }"

definition summary_of :: "run_status \<Rightarrow> coordinator \<Rightarrow> run_summary" where
  "summary_of status c = \<lparr> sm_run_id = c_run_id c, sm_status = status, sm_node_statuses = pr_statuses (c_run c) \<rparr>"

definition build_summary :: "'w coordinator_env \<Rightarrow> run_status \<Rightarrow> ('w, run_summary) coord" where
  "build_summary env status = do {
    shutdown_pod_watcher env;
    c \<leftarrow> get_c;
    State_Monad.return (summary_of status c)
  }"

definition cancel_running_node :: "'w coordinator_env \<Rightarrow> string \<Rightarrow> ('w, unit) coord" where
  "cancel_running_node env node_name = do {
    notify_watcher_of_deletion env node_name;
    c \<leftarrow> get_c;
    _ \<leftarrow> call (dp_cancel_node (sv_dispatcher env) (c_run_id c) node_name (sv_config env));
    State_Monad.return ()
  }"

definition terminate_running_nodes :: "'w coordinator_env \<Rightarrow> run_status \<Rightarrow> ('w, run_summary) coord" where
  "terminate_running_nodes env status = do {
    modify_c (\<lambda>c. c\<lparr>c_node_phase_handles := []\<rparr>);
    c \<leftarrow> get_c;
    for_M (cancel_running_node env) (nodes_with (\<lambda>s. s = Running) c);
    shutdown_pod_watcher env;
    c \<leftarrow> get_c;
    State_Monad.return (summary_of status c)
  }"

definition fail_run :: "'w coordinator_env \<Rightarrow> run_status \<Rightarrow> ('w, run_summary) coord" where
  "fail_run env status = do {
    finalize_run env status;
    coord_cleanup env;
    terminate_running_nodes env status
  }"

definition complete_run :: "'w coordinator_env \<Rightarrow> ('w, run_summary) coord" where
  "complete_run env = do {
    c \<leftarrow> get_c;
    let status = outcome_status c;
    finalize_run env status;
    coord_cleanup env;
    build_summary env status
  }"

section \<open>The select loop\<close>

datatype coord_event =
    PipelineDeadline
  | HeartbeatTick
  | ReconcileTick
  | InternalMessage "coordinator_message option"
  | BackplaneMessage "backplane_event option"

datatype step_result = Continue | BreakLoop | Return run_summary

text \<open>\<open>if handler { finalize; cleanup; return } if complete { break }\<close>\<close>

definition after_handler :: "'w coordinator_env \<Rightarrow> bool \<Rightarrow> ('w, step_result) coord" where
  "after_handler env stop =
    (if stop then do { s \<leftarrow> fail_run env RunFailure; State_Monad.return (Return s) }
     else do {
       c \<leftarrow> get_c;
       State_Monad.return (if is_complete (c_run c) then BreakLoop else Continue)
     })"

fun coord_step :: "'w coordinator_env \<Rightarrow> coord_event \<Rightarrow> ('w, step_result) coord" where
  "coord_step env PipelineDeadline = do { s \<leftarrow> fail_run env RunFailure; State_Monad.return (Return s) }"
| "coord_step env HeartbeatTick = do {
    c \<leftarrow> get_c;
    r \<leftarrow> call (ss_renew_lease (sv_state_store env) (c_run_id c) (c_server_id c) (c_lease_version c) 30);
    if r = Inr True then State_Monad.return Continue
    else do { s \<leftarrow> build_summary env RunFailure; State_Monad.return (Return s) }
  }"
| "coord_step env ReconcileTick = do { stop \<leftarrow> reconcile_running_against_s3 env; after_handler env stop }"
| "coord_step env (InternalMessage (Some (NodeTimedOut n))) =
    do { stop \<leftarrow> handle_node_timed_out env n; after_handler env stop }"
| "coord_step env (InternalMessage (Some (NodePodRunning n))) =
    do { handle_pod_running env n; State_Monad.return Continue }"
| "coord_step env (InternalMessage (Some (NodeInfraFailed n reason))) =
    do { stop \<leftarrow> handle_node_infra_failed env n reason; after_handler env stop }"
| "coord_step env (InternalMessage (Some (NodePodStartTimedOut n))) =
    do { stop \<leftarrow> handle_pod_start_timed_out env n; after_handler env stop }"
| "coord_step env (InternalMessage None) = State_Monad.return Continue"
| "coord_step env (BackplaneMessage (Some (NodeCompleted n success))) = do {
    cancel_node_timeout n;
    stop \<leftarrow> handle_node_completed env n success;
    after_handler env stop
  }"
| "coord_step env (BackplaneMessage (Some Cancel)) =
    do { s \<leftarrow> fail_run env RunCancelled; State_Monad.return (Return s) }"
| "coord_step env (BackplaneMessage None) =
    do { s \<leftarrow> fail_run env RunFailure; State_Monad.return (Return s) }"

text \<open>\<open>None\<close>: the events are used up and the loop waits for the next one.\<close>

fun coord_loop :: "'w coordinator_env \<Rightarrow> coord_event list \<Rightarrow> ('w, run_summary option) coord" where
  "coord_loop env [] = State_Monad.return None"
| "coord_loop env (e # es) = do {
    r \<leftarrow> coord_step env e;
    (case r of
       Continue \<Rightarrow> coord_loop env es
     | BreakLoop \<Rightarrow> do { s \<leftarrow> complete_run env; State_Monad.return (Some s) }
     | Return s \<Rightarrow> State_Monad.return (Some s))
  }"

text \<open>The part of \<open>run\<close> before the loop: recovery of a run that another server left.\<close>

definition rehydrate :: "'w coordinator_env \<Rightarrow> ('w, run_summary option) coord" where
  "rehydrate env = do {
    outcomes \<leftarrow> read_outcomes_for_non_terminal env;
    stop \<leftarrow> fold_completions_from_outcomes env outcomes;
    if stop then do { s \<leftarrow> fail_run env RunFailure; State_Monad.return (Some s) }
    else do {
      stop \<leftarrow> promote_started_pending_to_running env outcomes;
      if stop then do { s \<leftarrow> fail_run env RunFailure; State_Monad.return (Some s) }
      else do {
        rehydrate_phase_timers env outcomes;
        c \<leftarrow> get_c;
        if is_complete (c_run c) then do { s \<leftarrow> complete_run env; State_Monad.return (Some s) }
        else State_Monad.return None
      }
    }
  }"

definition run_from_subscription :: "'w coordinator_env \<Rightarrow> coord_event list \<Rightarrow> ('w, run_summary option) coord" where
  "run_from_subscription env events = do {
    c \<leftarrow> get_c;
    sub \<leftarrow> call (bp_subscribe_run (sv_backplane env) (c_run_id c));
    (case sub of
       Inl _ \<Rightarrow> do { s \<leftarrow> build_summary env RunFailure; State_Monad.return (Some s) }
     | Inr _ \<Rightarrow> do {
         dispatch_ready_nodes env;
         c \<leftarrow> get_c;
         if is_complete (c_run c) then do { s \<leftarrow> complete_run env; State_Monad.return (Some s) }
         else coord_loop env events
       })
  }"

definition coordinator_run :: "'w coordinator_env \<Rightarrow> coord_event list \<Rightarrow> ('w, run_summary option) coord" where
  "coordinator_run env events = do {
    c \<leftarrow> get_c;
    if c_is_rehydrate c then do {
      r \<leftarrow> rehydrate env;
      (case r of Some s \<Rightarrow> State_Monad.return (Some s) | None \<Rightarrow> run_from_subscription env events)
    }
    else run_from_subscription env events
  }"

section \<open>Start\<close>

definition initialize_run_state ::
  "'w coordinator_env \<Rightarrow> string \<Rightarrow> node_info list \<Rightarrow> pipeline \<Rightarrow> ('w, pipeline_run \<times> u64 \<times> bool) state" where
  "initialize_run_state env run_id node_infos p = do {
    r \<leftarrow> ss_load_run (sv_state_store env) run_id;
    (case r of
       Inr (Some existing) \<Rightarrow> State_Monad.return (from_run_state existing, rs_version existing, True)
     | Inr None \<Rightarrow> do {
         let run = pr_new node_infos;
         _ \<leftarrow> ss_save_run (sv_state_store env) run_id (to_run_state run 0 p) 0;
         State_Monad.return (run, 0, False)
       }
     | Inl _ \<Rightarrow> State_Monad.return (pr_new node_infos, 0, False))
  }"

definition start_coordinator ::
  "'w coordinator_env \<Rightarrow> string \<Rightarrow> pipeline \<Rightarrow> run_context \<Rightarrow> ('w, coordinator option) state" where
  "start_coordinator env run_id p rc = do {
    server_id \<leftarrow> rt_new_uuid env;
    lease \<leftarrow> ss_try_acquire_lease (sv_state_store env) run_id server_id 30;
    (case lease of
       Inl _ \<Rightarrow> State_Monad.return None
     | Inr None \<Rightarrow> State_Monad.return None
     | Inr (Some lease_version) \<Rightarrow> do {
         _ \<leftarrow> rh_record_pipeline_started (sv_run_history env) (build_pipeline_start_record run_id p rc);
         let node_infos = pipeline_node_info p;
         init \<leftarrow> initialize_run_state env run_id node_infos p;
         let (run, state_version, is_rehydrate) = init;
         let seed_running = map fst (filter (\<lambda>(_, s). s = Running) (pr_statuses run));
         watching \<leftarrow> dp_start_pod_watcher (sv_dispatcher env) run_id seed_running;
         State_Monad.return (Some
           \<lparr> c_run_id = run_id, c_run = run, c_pipeline = p,
             c_node_info_cache = hm_collect (map (\<lambda>n. (ni_name n, n)) node_infos),
             c_node_phase_handles = [], c_state_version = state_version,
             c_lease_version = lease_version, c_server_id = server_id, c_run_context = rc,
             c_watcher = watching, c_is_rehydrate = is_rehydrate \<rparr>)
       })
  }"

text \<open>The relay of pod signals to the coordinator.\<close>

fun relay_signal :: "pod_signal \<Rightarrow> coordinator_message" where
  "relay_signal (PodRunning node_name _) = NodePodRunning node_name"
| "relay_signal (InfraFailure node_name _ reason) = NodeInfraFailed node_name reason"

end
