(* ===== verification/CoordinatorLaws.thy ===== *)
theory CoordinatorLaws
  imports Coordinator
begin

text \<open>
  Properties of the coordinator that hold for every world and every implementation of its
  services.
\<close>

section \<open>Programs that only call services\<close>

lemma run_get_c [simp]: "State_Monad.run_state get_c s = (fst s, s)"
  by (cases s) (simp add: get_c_def)

lemma run_modify_c [simp]: "State_Monad.run_state (modify_c f) s = ((), (f (fst s), snd s))"
  by (cases s) (simp add: modify_c_def)

lemma run_call [simp]:
  "State_Monad.run_state (call m) s =
    (case State_Monad.run_state m (snd s) of (a, w) \<Rightarrow> (a, (fst s, w)))"
  by (cases s) (simp add: call_def)

lemma run_update_run [simp]:
  "State_Monad.run_state (update_run f) s =
    (fst (f (c_run (fst s))), ((fst s)\<lparr>c_run := snd (f (c_run (fst s)))\<rparr>, snd s))"
  by (simp add: update_run_def split: prod.splits)

section \<open>What never changes, and what only moves forward\<close>

text \<open>The identity of a coordinator: what it was started with.\<close>

definition same_identity :: "coordinator \<Rightarrow> coordinator \<Rightarrow> bool" where
  "same_identity c d \<longleftrightarrow> c_run_id d = c_run_id c \<and> c_pipeline d = c_pipeline c \<and>
    c_node_info_cache d = c_node_info_cache c \<and> c_lease_version d = c_lease_version c \<and>
    c_server_id d = c_server_id c \<and> c_run_context d = c_run_context c \<and> c_is_rehydrate d = c_is_rehydrate c"

definition coord_ok :: "coordinator \<Rightarrow> bool" where
  "coord_ok c \<longleftrightarrow> pr_wf (c_run c) \<and> (\<forall>k n. hm_get (c_node_info_cache c) k = Some n \<longrightarrow> ni_name n = k)"

text \<open>
  \<open>untouched\<close>: a program that changes neither statuses nor the version nor what \<open>view\<close> shows of
  the world. \<open>keeps_run\<close>: the same, but for the version. \<open>progress\<close>: the
  statuses move forward, and every node that is dispatched was pending before, is not pending
  any more, is dispatched once, and has all its dependencies succeeded.
\<close>

definition untouched :: "('w \<Rightarrow> 'v) \<Rightarrow> coordinator \<times> 'w \<Rightarrow> coordinator \<times> 'w \<Rightarrow> bool" where
  "untouched view s t \<longleftrightarrow> same_identity (fst s) (fst t) \<and> c_run (fst t) = c_run (fst s) \<and>
    c_state_version (fst t) = c_state_version (fst s) \<and> view (snd t) = view (snd s)"

definition keeps_run :: "('w \<Rightarrow> 'v) \<Rightarrow> coordinator \<times> 'w \<Rightarrow> coordinator \<times> 'w \<Rightarrow> bool" where
  "keeps_run dlog s t \<longleftrightarrow> same_identity (fst s) (fst t) \<and> c_run (fst t) = c_run (fst s) \<and> dlog (snd t) = dlog (snd s)"

definition dispatches :: "('w \<Rightarrow> string list) \<Rightarrow> coordinator \<times> 'w \<Rightarrow> coordinator \<times> 'w \<Rightarrow> string list \<Rightarrow> bool" where
  "dispatches dlog s t new \<longleftrightarrow> dlog (snd t) = dlog (snd s) @ new \<and> distinct new \<and>
    (\<forall>n\<in>set new. status_of (fst s) n = Some Pending \<and> status_of (fst t) n \<noteq> Some Pending \<and>
      deps_satisfied (c_run (fst t)) n)"

definition progress :: "('w \<Rightarrow> string list) \<Rightarrow> coordinator \<times> 'w \<Rightarrow> coordinator \<times> 'w \<Rightarrow> bool" where
  "progress dlog s t \<longleftrightarrow> same_identity (fst s) (fst t) \<and> advances (c_run (fst s)) (c_run (fst t)) \<and>
    (coord_ok (fst s) \<longrightarrow> (\<exists>new. dispatches dlog s t new))"

lemma same_identity_refl [simp]: "same_identity c c"
  by (simp add: same_identity_def)

lemma same_identity_trans: "same_identity c d \<Longrightarrow> same_identity d e \<Longrightarrow> same_identity c e"
  by (simp add: same_identity_def)

lemma advances_wf: "advances r r' \<Longrightarrow> pr_wf r \<Longrightarrow> pr_wf r'"
proof -
  assume a: "advances r r'" and wf: "pr_wf r"
  have "map fst (pr_statuses r') = map fst (pr_statuses r)" using a by (simp add: advances_def hm_keys_def)
  moreover have "hm_get (pr_statuses r') n = None \<longleftrightarrow> hm_get (pr_statuses r) n = None" for n
    using a hm_keys_get by (metis advances_def)
  ultimately show "pr_wf r'" using a wf by (simp add: pr_wf_def advances_def hm_wf_def)
qed

lemma advances_Some:
  "advances r r' \<Longrightarrow> hm_get (pr_statuses r) n = Some s \<Longrightarrow> \<exists>t. hm_get (pr_statuses r') n = Some t \<and> s \<le> t"
  using hm_keys_get[of n "pr_statuses r"] hm_keys_get[of n "pr_statuses r'"]
  by (auto simp: advances_def)

lemma advances_back:
  "advances r r' \<Longrightarrow> hm_get (pr_statuses r') n = Some t \<Longrightarrow> \<exists>s. hm_get (pr_statuses r) n = Some s \<and> s \<le> t"
  using hm_keys_get[of n "pr_statuses r"] hm_keys_get[of n "pr_statuses r'"]
  by (auto simp: advances_def)

lemma advances_Pending_back:
  "advances r r' \<Longrightarrow> hm_get (pr_statuses r') n = Some Pending \<Longrightarrow> hm_get (pr_statuses r) n = Some Pending"
  by (drule (1) advances_back) (auto simp: less_eq_node_status_def)

lemma advances_deps: "advances r r' \<Longrightarrow> deps_satisfied r n \<Longrightarrow> deps_satisfied r' n"
proof -
  assume a: "advances r r'" and d: "deps_satisfied r n"
  have "hm_get (pr_statuses r') d = Some Success" if "hm_get (pr_statuses r) d = Some Success" for d
    using advances_Some[OF a that] by (auto simp: final_maximal)
  with a d show "deps_satisfied r' n"
    by (auto simp: deps_satisfied_def advances_def list_all_iff split: option.splits)
qed

lemma coord_ok_advances: "coord_ok c \<Longrightarrow> same_identity c d \<Longrightarrow> advances (c_run c) (c_run d) \<Longrightarrow> coord_ok d"
  by (auto simp: coord_ok_def same_identity_def intro: advances_wf)

lemma dispatches_trans:
  assumes "dispatches dlog s t xs" "dispatches dlog t u ys"
    and st: "advances (c_run (fst s)) (c_run (fst t))" and tu: "advances (c_run (fst t)) (c_run (fst u))"
  shows "dispatches dlog s u (xs @ ys)"
proof -
  have "set xs \<inter> set ys = {}" using assms(1,2) by (auto simp: dispatches_def)
  moreover have "status_of (fst u) n \<noteq> Some Pending" if "status_of (fst t) n \<noteq> Some Pending" for n
    using advances_Pending_back[OF tu] that by (auto simp: status_of_def)
  moreover have "status_of (fst s) n = Some Pending" if "status_of (fst t) n = Some Pending" for n
    using advances_Pending_back[OF st] that by (auto simp: status_of_def)
  ultimately show ?thesis
    using assms(1,2) advances_deps[OF tu] by (auto simp: dispatches_def)
qed

lemma progress_trans: "progress dlog s t \<Longrightarrow> progress dlog t u \<Longrightarrow> progress dlog s u"
  unfolding progress_def
  by (meson advances_trans coord_ok_advances dispatches_trans same_identity_trans)

lemma progress_refl: "progress dlog s s"
  by (auto simp: progress_def dispatches_def intro: exI[of _ "[]"])

lemma pre_progress [simp]: "io_pre (progress dlog)"
  by (auto simp: io_pre_def intro: progress_refl progress_trans)

lemma pre_keeps_run [simp]: "io_pre (keeps_run dlog)"
  by (auto simp: io_pre_def keeps_run_def intro: same_identity_trans)

lemma pre_untouched [simp]: "io_pre (untouched view)"
  by (auto simp: io_pre_def untouched_def intro: same_identity_trans)

lemma io_untouched_keeps: "state_io_rel (untouched view) m \<Longrightarrow> state_io_rel (keeps_run view) m"
  by (simp add: state_io_rel_def untouched_def keeps_run_def)

lemma keeps_run_progress: "keeps_run dlog s t \<Longrightarrow> progress dlog s t"
  by (auto simp: keeps_run_def progress_def dispatches_def intro: exI[of _ "[]"])

lemma io_keeps_progress: "state_io_rel (keeps_run dlog) m \<Longrightarrow> state_io_rel (progress dlog) m"
  by (simp add: state_io_rel_def keeps_run_progress)

section \<open>Rules for the primitives\<close>

definition quiet :: "('w \<Rightarrow> 'v) \<Rightarrow> ('w, 'a) state \<Rightarrow> bool" where
  "quiet view m \<longleftrightarrow> state_io_rel (\<lambda>w w'. view w' = view w) m"

lemma io_call_untouched: "quiet view m \<Longrightarrow> state_io_rel (untouched view) (call m)"
  by (auto simp: quiet_def state_io_rel_def untouched_def split: prod.splits) (metis snd_conv)

lemmas io_call = io_call_untouched[THEN io_untouched_keeps]

lemma io_get_c: "io_pre R \<Longrightarrow> state_io_rel R get_c"
  by (simp add: state_io_rel_def io_pre_def)

lemma io_modify_untouched:
  "(\<And>c. same_identity c (f c) \<and> c_run (f c) = c_run c \<and> c_state_version (f c) = c_state_version c) \<Longrightarrow>
    state_io_rel (untouched view) (modify_c f)"
  by (simp add: state_io_rel_def untouched_def)

lemma io_modify_c:
  "(\<And>c. same_identity c (f c) \<and> c_run (f c) = c_run c) \<Longrightarrow> state_io_rel (keeps_run dlog) (modify_c f)"
  by (simp add: state_io_rel_def keeps_run_def)

lemma io_update_run:
  "(\<And>r. advances r (snd (f r))) \<Longrightarrow> state_io_rel (progress dlog) (update_run f)"
  by (auto simp: state_io_rel_def progress_def dispatches_def same_identity_def intro!: exI[of _ "[]"])

lemma io_mark [intro]:
  "state_io_rel (progress dlog) (update_run (mark_running n))"
  "state_io_rel (progress dlog) (update_run (mark_success n))"
  "state_io_rel (progress dlog) (update_run (mark_failed n))"
  "state_io_rel (progress dlog) (update_run (mark_dispatch_failed n))"
  by (intro io_update_run mark_advances)+

lemma same_identity_updates [simp]:
  "same_identity c (c\<lparr>c_state_version := v\<rparr>)" "same_identity c (c\<lparr>c_node_phase_handles := h\<rparr>)"
  "same_identity c (c\<lparr>c_watcher := b\<rparr>)" "same_identity c (c\<lparr>c_run := r\<rparr>)"
  by (simp_all add: same_identity_def)

section \<open>The services contract and the handlers\<close>

text \<open>
  The services that observe, cancel and note what happens to nodes. \<open>view\<close> is some observation
  of the world, and none of them changes it.
\<close>

locale node_services =
  fixes env :: "'w coordinator_env" and view :: "'w \<Rightarrow> 'v"
  assumes quiet_cancel: "quiet view (dp_cancel_node (sv_dispatcher env) i nm cfg)"
    and quiet_cleanup: "quiet view (dp_cleanup_run (sv_dispatcher env) i)"
    and quiet_outcome: "quiet view (dp_get_node_outcome (sv_dispatcher env) i nm)"
    and quiet_read: "quiet view (dp_read_outcomes (sv_dispatcher env) i nms)"
    and quiet_log: "quiet view (dp_get_node_log (sv_dispatcher env) i nm)"
    and quiet_pod_exists: "quiet view (dp_node_pod_exists (sv_dispatcher env) i nm)"
    and quiet_renew: "quiet view (ss_renew_lease (sv_state_store env) i sid v ttl)"
    and quiet_record_dispatched: "quiet view (rh_record_node_dispatched (sv_run_history env) nd)"
    and quiet_record_node: "quiet view (rh_record_node_run (sv_run_history env) nr)"
    and quiet_get_node: "quiet view (rh_get_node_run (sv_run_history env) i nm)"
    and quiet_now: "quiet view (rt_now env)"
    and quiet_now_ms: "quiet view (rt_now_ms env)"
    and quiet_watcher: "quiet view (rt_watcher_send env cmd)"
    and quiet_budget: "quiet view (rt_within_budget env)"
begin

lemmas quiet_neutral = quiet_cancel quiet_cleanup quiet_outcome quiet_read quiet_log quiet_pod_exists
  quiet_renew quiet_record_dispatched quiet_record_node quiet_get_node quiet_now quiet_now_ms
  quiet_watcher quiet_budget

lemmas untouched_intros = io_return io_bind io_if io_case_option io_case_sum io_case_prod io_for_M
  io_call_untouched io_get_c pre_untouched quiet_neutral

lemma untouched_arm: "state_io_rel (untouched view) (arm_timer n phase secs)"
  unfolding arm_timer_def by (intro io_modify_untouched) simp

lemma untouched_cancel_timeout: "state_io_rel (untouched view) (cancel_node_timeout n)"
  unfolding cancel_node_timeout_def by (intro io_modify_untouched) simp

lemma untouched_notify: "state_io_rel (untouched view) (notify_watcher_of_deletion env n)"
  unfolding notify_watcher_of_deletion_def by (intro untouched_intros)

lemma untouched_pod_running: "state_io_rel (untouched view) (handle_pod_running env n)"
  unfolding handle_pod_running_def by (intro untouched_intros untouched_arm)

lemma untouched_record_dispatched: "state_io_rel (untouched view) (record_node_dispatched env n info)"
  unfolding record_node_dispatched_def by (intro untouched_intros)

lemma untouched_record_dispatch_failed: "state_io_rel (untouched view) (record_dispatch_failed env n err)"
  unfolding record_dispatch_failed_def by (intro untouched_intros)

lemma untouched_fetch:
  "state_io_rel (untouched view) (fetch_outcome env n)" "state_io_rel (untouched view) (fetch_log env n)"
  unfolding fetch_outcome_def fetch_log_def by (intro untouched_intros)+

lemma untouched_record_completed: "state_io_rel (untouched view) (record_node_completed env n reason)"
  unfolding record_node_completed_def Let_def by (intro untouched_intros untouched_fetch)

lemma untouched_record_terminated: "state_io_rel (untouched view) (record_running_node_terminated env n)"
  unfolding record_running_node_terminated_def Let_def by (intro untouched_intros untouched_fetch)

lemma untouched_read_outcomes: "state_io_rel (untouched view) (read_outcomes_for_non_terminal env)"
  unfolding read_outcomes_for_non_terminal_def Let_def by (intro untouched_intros)

lemma untouched_rehydrate_timer: "state_io_rel (untouched view) (rehydrate_timer env now_ms outcomes n)"
  unfolding rehydrate_timer_def Let_def
  by (intro untouched_intros untouched_arm) (auto split: reconcile_result.splits intro!: untouched_intros untouched_arm)

lemma untouched_rehydrate_timers: "state_io_rel (untouched view) (rehydrate_phase_timers env outcomes)"
  unfolding rehydrate_phase_timers_def by (intro untouched_intros untouched_rehydrate_timer)

lemma untouched_shutdown: "state_io_rel (untouched view) (shutdown_pod_watcher env)"
  unfolding shutdown_pod_watcher_def by (intro untouched_intros io_modify_untouched) simp

lemma untouched_summary: "state_io_rel (untouched view) (build_summary env status)"
  unfolding build_summary_def by (intro untouched_intros untouched_shutdown)

lemma untouched_cancel_running: "state_io_rel (untouched view) (cancel_running_node env n)"
  unfolding cancel_running_node_def by (intro untouched_intros untouched_notify)

lemma untouched_terminate: "state_io_rel (untouched view) (terminate_running_nodes env status)"
  unfolding terminate_running_nodes_def
  by (intro untouched_intros untouched_cancel_running untouched_shutdown io_modify_untouched) simp

lemmas untouched_programs = untouched_arm untouched_cancel_timeout untouched_notify untouched_pod_running
  untouched_record_dispatched untouched_record_dispatch_failed untouched_record_completed
  untouched_record_terminated untouched_read_outcomes untouched_rehydrate_timers untouched_shutdown
  untouched_summary untouched_terminate

lemmas keeps_programs = untouched_programs[THEN io_untouched_keeps]

end

text \<open>With the subscription, which a coordinator makes once.\<close>

locale services_neutral = node_services env view for env :: "'w coordinator_env" and view :: "'w \<Rightarrow> 'v" +
  assumes quiet_subscribe: "quiet view (bp_subscribe_run (sv_backplane env) i)"

text \<open>
  Services of which \<open>dlog\<close> shows nothing at all, except possibly a dispatch and the subscription.
\<close>

locale services_quiet = node_services env dlog for env :: "'w coordinator_env" and dlog :: "'w \<Rightarrow> 'v" +
  assumes quiet_save: "quiet dlog (ss_save_run (sv_state_store env) i st v)"
    and quiet_delete: "quiet dlog (ss_delete_run (sv_state_store env) i)"
    and quiet_release: "quiet dlog (ss_release_lease (sv_state_store env) i)"
    and quiet_record_run: "quiet dlog (rh_record_pipeline_run (sv_run_history env) pr)"
    and quiet_report: "sv_report_completed env = Some report \<Longrightarrow> quiet dlog (report status)"
begin

lemmas keeps_intros = io_return io_bind io_if io_case_option io_case_sum io_case_prod io_for_M
  io_call io_get_c pre_keeps_run quiet_neutral quiet_save quiet_delete quiet_release quiet_record_run quiet_report

lemma keeps_persist: "state_io_rel (keeps_run dlog) (persist_state env)"
  unfolding persist_state_def Let_def by (intro keeps_intros io_modify_c) simp_all

lemma keeps_persist_after: "state_io_rel (keeps_run dlog) (persist_state_after_dispatch_transition env)"
  unfolding persist_state_after_dispatch_transition_def by (intro keeps_intros keeps_persist)

lemma keeps_cleanup: "state_io_rel (keeps_run dlog) (coord_cleanup env)"
  unfolding coord_cleanup_def by (intro keeps_intros)

end

section \<open>Dispatch makes progress\<close>

text \<open>
  What the coordinator relies on for its own dispatching: \<open>dlog\<close> observes the dispatches in the
  world, each with the name of its node, and no other service dispatches anything.
\<close>

locale dispatch_log = services_quiet env dlog + services_neutral env dlog
  for env :: "'w coordinator_env" and dlog :: "'w \<Rightarrow> string list" +
  assumes dispatch_logged:
    "State_Monad.run_state (dp_dispatch (sv_dispatcher env) i m n p cfg) w = (r, w') \<Longrightarrow> dlog w' = dlog w @ [ni_name n]"
begin

text \<open>A node is dispatched, or not known, and then it is the only one whose status changes.\<close>

lemma dispatch_node_effect:
  assumes run: "State_Monad.run_state (dispatch_node env n) s = (u, t)"
  shows "same_identity (fst s) (fst t) \<and>
    dlog (snd t) = dlog (snd s) @ (case hm_get (c_node_info_cache (fst s)) n of None \<Rightarrow> [] | Some info \<Rightarrow> [ni_name info]) \<and>
    (c_run (fst t) = snd (mark_running n (c_run (fst s))) \<or> c_run (fst t) = snd (mark_dispatch_failed n (c_run (fst s))))"
proof (cases "hm_get (c_node_info_cache (fst s)) n")
  case None
  let ?s1 = "((fst s)\<lparr>c_run := snd (mark_dispatch_failed n (c_run (fst s)))\<rparr>, snd s)"
  let ?m = "do { persist_state_after_dispatch_transition env;
    record_dispatch_failed env n ''Node info not found in pipeline'' }"
  have "state_io_rel (keeps_run dlog) ?m"
    by (intro keeps_intros keeps_persist_after keeps_programs)
  moreover have "State_Monad.run_state ?m ?s1 = (u, t)"
    using run None by (simp add: dispatch_node_def)
  ultimately have "keeps_run dlog ?s1 t" by (rule io_run_eq)
  with None show ?thesis by (simp add: keeps_run_def same_identity_def)
next
  case (Some info)
  let ?c = "fst s"
  obtain r w1 where d: "State_Monad.run_state (dp_dispatch (sv_dispatcher env) (c_run_id ?c)
      (run_context_metadata (c_run_context ?c)) info (c_pipeline ?c) (sv_config env)) (snd s) = (r, w1)" by force
  note logged = dispatch_logged[OF d]
  define secs where "secs = (case ni_startup_timeout_secs info of Some s \<Rightarrow> s
    | None \<Rightarrow> default_node_startup_timeout_secs (sv_config env))"
  show ?thesis
  proof (cases r)
    case (Inl e)
    let ?s1 = "(?c\<lparr>c_run := snd (mark_dispatch_failed n (c_run ?c))\<rparr>, w1)"
    let ?m = "do { persist_state_after_dispatch_transition env;
      record_dispatch_failed env n (dispatch_error_to_string e) }"
    have "state_io_rel (keeps_run dlog) ?m"
      by (intro keeps_intros keeps_persist_after keeps_programs)
    moreover have "State_Monad.run_state ?m ?s1 = (u, t)"
      using run Some d Inl by (simp add: dispatch_node_def Let_def)
    ultimately have "keeps_run dlog ?s1 t" by (rule io_run_eq)
    with Some logged show ?thesis by (simp add: keeps_run_def same_identity_def)
  next
    case (Inr x)
    let ?s1 = "(?c\<lparr>c_run := snd (mark_running n (c_run ?c))\<rparr>, w1)"
    let ?m = "if \<not> fst (mark_running n (c_run ?c)) then State_Monad.return ()
      else do { persist_state_after_dispatch_transition env; record_node_dispatched env n info;
        arm_timer n StartupPhase secs }"
    have "state_io_rel (keeps_run dlog) ?m"
      by (intro keeps_intros keeps_persist_after keeps_programs)
    moreover have "State_Monad.run_state ?m ?s1 = (u, t)"
      using run Some d Inr by (simp add: dispatch_node_def Let_def secs_def split: if_split_asm)
    ultimately have "keeps_run dlog ?s1 t" by (rule io_run_eq)
    with Some logged show ?thesis by (simp add: keeps_run_def same_identity_def)
  qed
qed

lemma dispatch_node_progress:
  assumes run: "State_Monad.run_state (dispatch_node env n) s = (u, t)"
    and ok: "coord_ok (fst s)" and ready: "status_of (fst s) n = Some Pending" "deps_satisfied (c_run (fst s)) n"
  shows "progress dlog s t \<and> (\<forall>m. m \<noteq> n \<longrightarrow> status_of (fst t) m = status_of (fst s) m)"
proof -
  note eff = dispatch_node_effect[OF run]
  then have adv: "advances (c_run (fst s)) (c_run (fst t))" by (auto intro: mark_advances)
  have n: "status_of (fst t) n \<noteq> Some Pending" and rest: "\<forall>m. m \<noteq> n \<longrightarrow> status_of (fst t) m = status_of (fst s) m"
    using eff ready(1) by (auto simp: mark_defs status_of_def pr_set_def)
  have names: "info = i \<Longrightarrow> hm_get (c_node_info_cache (fst s)) n = Some i \<Longrightarrow> ni_name info = n" for info i
    using ok by (auto simp: coord_ok_def)
  have "dispatches dlog s t (case hm_get (c_node_info_cache (fst s)) n of None \<Rightarrow> [] | Some info \<Rightarrow> [ni_name info])"
    using eff n ready advances_deps[OF adv] names
    by (auto simp: dispatches_def split: option.splits)
  with adv eff rest show ?thesis by (auto simp: progress_def)
qed

lemma dispatch_all_progress:
  assumes "State_Monad.run_state (for_M (dispatch_node env) ns) s = (u, t)" "coord_ok (fst s)" "distinct ns"
    and "\<forall>n\<in>set ns. status_of (fst s) n = Some Pending \<and> deps_satisfied (c_run (fst s)) n"
  shows "progress dlog s t"
  using assms
proof (induction ns arbitrary: s)
  case Nil
  then show ?case by (simp add: progress_refl)
next
  case (Cons n ns)
  obtain v s1 where d: "State_Monad.run_state (dispatch_node env n) s = (v, s1)"
    by (cases "State_Monad.run_state (dispatch_node env n) s") blast
  with Cons.prems have rest: "State_Monad.run_state (for_M (dispatch_node env) ns) s1 = (u, t)" by simp
  from dispatch_node_progress[OF d Cons.prems(2)] Cons.prems(4) have
    p: "progress dlog s s1" and same: "\<forall>m. m \<noteq> n \<longrightarrow> status_of (fst s1) m = status_of (fst s) m" by auto
  from p have adv: "advances (c_run (fst s)) (c_run (fst s1))" and ok1: "coord_ok (fst s1)"
    using Cons.prems(2) by (auto simp: progress_def intro: coord_ok_advances)
  have "\<forall>m\<in>set ns. status_of (fst s1) m = Some Pending \<and> deps_satisfied (c_run (fst s1)) m"
  proof
    fix m
    assume m: "m \<in> set ns"
    with Cons.prems(3) have "m \<noteq> n" by auto
    with m same Cons.prems(4) advances_deps[OF adv]
    show "status_of (fst s1) m = Some Pending \<and> deps_satisfied (c_run (fst s1)) m" by simp
  qed
  with Cons.IH[OF rest ok1] Cons.prems(3) have "progress dlog s1 t" by simp
  with p show ?case by (rule progress_trans)
qed

text \<open>Without the invariant the statuses still move forward.\<close>

lemma dispatch_all_advances:
  "State_Monad.run_state (for_M (dispatch_node env) ns) s = (u, t) \<Longrightarrow>
    same_identity (fst s) (fst t) \<and> advances (c_run (fst s)) (c_run (fst t))"
proof (induction ns arbitrary: s)
  case (Cons n ns)
  obtain v s1 where d: "State_Monad.run_state (dispatch_node env n) s = (v, s1)"
    by (cases "State_Monad.run_state (dispatch_node env n) s") blast
  with Cons.prems have "State_Monad.run_state (for_M (dispatch_node env) ns) s1 = (u, t)" by simp
  from Cons.IH[OF this] dispatch_node_effect[OF d] show ?case
    by (auto intro: same_identity_trans advances_trans mark_advances)
qed simp

lemma progress_dispatch_ready: "state_io_rel (progress dlog) (dispatch_ready_nodes env)"
  unfolding state_io_rel_def
proof
  fix s
  obtain u t where t: "State_Monad.run_state (dispatch_ready_nodes env) s = (u, t)"
    by (cases "State_Monad.run_state (dispatch_ready_nodes env) s") blast
  then have run: "State_Monad.run_state (for_M (dispatch_node env) (ready_nodes (c_run (fst s)))) s = (u, t)"
    by (simp add: dispatch_ready_nodes_def)
  have "progress dlog s t"
  proof (cases "coord_ok (fst s)")
    case True
    then have wf: "hm_wf (pr_statuses (c_run (fst s)))" by (simp add: coord_ok_def pr_wf_def)
    then have "distinct (ready_nodes (c_run (fst s)))"
      by (simp add: ready_nodes_def hm_wf_def distinct_map_filter)
    with dispatch_all_progress[OF run True] ready_nodes_iff[OF wf] show ?thesis
      by (simp add: status_of_def)
  next
    case False
    with dispatch_all_advances[OF run] show ?thesis by (simp add: progress_def)
  qed
  with t show "progress dlog s (snd (State_Monad.run_state (dispatch_ready_nodes env) s))" by simp
qed

lemmas progress_intros = io_return io_bind io_if io_case_option io_case_sum io_case_prod io_for_M io_until_M
  io_get_c pre_progress io_mark progress_dispatch_ready

lemmas keeps_progress = io_call[OF quiet_cancel] io_call[OF quiet_pod_exists] io_call[OF quiet_renew]
  io_call[OF quiet_subscribe] io_call[OF quiet_now] io_call[OF quiet_record_run] io_call[OF quiet_report]
  keeps_persist keeps_cleanup keeps_programs

lemmas progress_steps = keeps_progress[THEN io_keeps_progress]

lemma progress_stop: "state_io_rel (progress dlog) (stop_or_continue env)"
  unfolding stop_or_continue_def by (intro progress_intros)

lemma progress_cancel: "state_io_rel (progress dlog) (cancel_and_record env n reason)"
  unfolding cancel_and_record_def by (intro progress_intros progress_steps progress_stop)

lemma progress_infra: "state_io_rel (progress dlog) (handle_node_infra_failed env n reason)"
  unfolding handle_node_infra_failed_def by (intro progress_intros progress_steps progress_cancel)

lemma progress_completed: "state_io_rel (progress dlog) (handle_node_completed env n success)"
  unfolding handle_node_completed_def by (intro progress_intros progress_steps progress_stop)

lemma progress_timed_out: "state_io_rel (progress dlog) (handle_node_timed_out env n)"
  unfolding handle_node_timed_out_def by (intro progress_intros progress_steps progress_cancel)

lemma progress_fold: "state_io_rel (progress dlog) (fold_completions_from_outcomes env outcomes)"
  unfolding fold_completions_from_outcomes_def
  by (intro progress_intros) (auto split: reconcile_result.splits
      intro!: progress_intros progress_steps progress_completed)

lemma progress_promote_node: "state_io_rel (progress dlog) (promote_node env n)"
  unfolding promote_node_def
  by (intro progress_intros progress_steps) (auto split: bool.splits intro!: progress_intros progress_infra)

lemma progress_promote: "state_io_rel (progress dlog) (promote_started_pending_to_running env outcomes)"
  unfolding promote_started_pending_to_running_def Let_def by (intro progress_intros progress_promote_node)

lemma progress_reconcile: "state_io_rel (progress dlog) (reconcile_running_against_s3 env)"
  unfolding reconcile_running_against_s3_def by (intro progress_intros progress_steps progress_fold)

lemma progress_record_history: "state_io_rel (progress dlog) (record_history env status)"
  unfolding record_history_def terminate_node_in_history_def by (intro progress_intros progress_steps)

lemma progress_finalize: "state_io_rel (progress dlog) (finalize_run env status)"
  unfolding finalize_run_def
  by (intro progress_intros progress_record_history progress_steps)

lemma progress_fail_run: "state_io_rel (progress dlog) (fail_run env status)"
  unfolding fail_run_def by (intro progress_intros progress_finalize progress_steps)

lemma progress_complete_run: "state_io_rel (progress dlog) (complete_run env)"
  unfolding complete_run_def Let_def by (intro progress_intros progress_finalize progress_steps)

lemma progress_after: "state_io_rel (progress dlog) (after_handler env stop)"
  unfolding after_handler_def by (intro progress_intros progress_fail_run)

lemma progress_step: "state_io_rel (progress dlog) (coord_step env e)"
  by (cases "(env, e)" rule: coord_step.cases)
    (auto simp: handle_pod_start_timed_out_def intro!: progress_intros progress_steps progress_fail_run progress_after
      progress_reconcile progress_timed_out progress_infra progress_completed)

lemma progress_loop: "state_io_rel (progress dlog) (coord_loop env es)"
proof (induction es)
  case (Cons e es)
  then show ?case
    by (auto intro!: progress_intros progress_step split: step_result.splits)
      (auto intro!: progress_intros progress_complete_run)
qed (simp add: io_return)

lemma progress_rehydrate: "state_io_rel (progress dlog) (rehydrate env)"
  unfolding rehydrate_def
  by (intro progress_intros progress_steps progress_fold progress_promote progress_fail_run progress_complete_run)

lemma progress_run: "state_io_rel (progress dlog) (coordinator_run env es)"
  unfolding coordinator_run_def run_from_subscription_def
  by (intro progress_intros progress_steps progress_rehydrate progress_loop progress_complete_run)

end

section \<open>The end of a run, for every world\<close>

interpretation any_env: services_quiet env "\<lambda>_. [] :: string list" for env
  by unfold_locales (simp_all add: quiet_def state_io_rel_def)

lemma c_run_kept: "state_io_rel (keeps_run (\<lambda>_. [])) m \<Longrightarrow> c_run (fst (snd (State_Monad.run_state m s))) = c_run (fst s)"
  by (drule io_run[of _ _ s]) (simp add: keeps_run_def)

lemma terminate_node_effect:
  "c_run (fst (snd (State_Monad.run_state (terminate_node_in_history env n) s))) = snd (mark_failed n (c_run (fst s)))"
  using c_run_kept[OF any_env.untouched_record_terminated[THEN io_untouched_keeps], of env n s]
  by (auto simp: terminate_node_in_history_def split: prod.splits)

lemma terminate_nodes_effect:
  "c_run (fst (snd (State_Monad.run_state (for_M (terminate_node_in_history env) ns) s))) =
    fold (\<lambda>n r. snd (mark_failed n r)) ns (c_run (fst s))"
proof (induction ns arbitrary: s)
  case (Cons n ns)
  from terminate_node_effect[of env n s] Cons[of "snd (State_Monad.run_state (terminate_node_in_history env n) s)"]
  show ?case by (cases "State_Monad.run_state (terminate_node_in_history env n) s") simp
qed simp

lemma mark_failed_get:
  "hm_get (pr_statuses (snd (mark_failed n r))) m =
    (if m = n \<and> hm_get (pr_statuses r) n \<in> {Some Running, Some Pending} then Some Failed else hm_get (pr_statuses r) m)"
  by (auto simp: mark_failed_def pr_set_def)

lemma fold_mark_failed_running:
  "hm_get (pr_statuses (fold (\<lambda>n r. snd (mark_failed n r)) ns r)) m = Some Running \<Longrightarrow>
    m \<notin> set ns \<and> hm_get (pr_statuses r) m = Some Running"
proof (induction ns arbitrary: r)
  case (Cons n ns)
  from Cons.IH[of "snd (mark_failed n r)"] Cons.prems show ?case
    by (auto simp: mark_failed_get split: if_splits)
qed simp

lemma fold_mark_failed_wf: "pr_wf r \<Longrightarrow> pr_wf (fold (\<lambda>n r. snd (mark_failed n r)) ns r)"
  by (induction ns arbitrary: r) (auto intro: mark_wf)

lemma nodes_with_iff:
  "hm_wf (pr_statuses (c_run c)) \<Longrightarrow> n \<in> set (nodes_with P c) \<longleftrightarrow> (\<exists>s. status_of c n = Some s \<and> P s)"
  by (force simp: nodes_with_def status_of_def hm_get_in_set)

lemma record_history_effect:
  "c_run (fst (snd (State_Monad.run_state (record_history env st) s))) =
    fold (\<lambda>n r. snd (mark_failed n r)) (nodes_with (\<lambda>x. x = Running) (fst s)) (c_run (fst s))"
  using terminate_nodes_effect[of env "nodes_with (\<lambda>x. x = Running) (fst s)" s]
  by (auto simp: record_history_def split: prod.splits)

lemma finalize_effect:
  "c_run (fst (snd (State_Monad.run_state (finalize_run env st) s))) =
    fold (\<lambda>n r. snd (mark_failed n r)) (nodes_with (\<lambda>x. x = Running) (fst s)) (c_run (fst s))"
  using record_history_effect[of env st s]
  by (auto simp: finalize_run_def split: prod.splits option.splits)

lemma finalize_no_running:
  assumes "pr_wf (c_run (fst s))"
  shows "nodes_with (\<lambda>x. x = Running) (fst (snd (State_Monad.run_state (finalize_run env st) s))) = []"
proof -
  let ?t = "fst (snd (State_Monad.run_state (finalize_run env st) s))"
  let ?ns = "nodes_with (\<lambda>x. x = Running) (fst s)"
  have run: "c_run ?t = fold (\<lambda>n r. snd (mark_failed n r)) ?ns (c_run (fst s))" by (rule finalize_effect)
  have "n \<notin> set (nodes_with (\<lambda>x. x = Running) ?t)" for n
  proof
    assume "n \<in> set (nodes_with (\<lambda>x. x = Running) ?t)"
    moreover have "hm_wf (pr_statuses (c_run ?t))"
      using fold_mark_failed_wf[OF assms, of ?ns] by (simp add: run pr_wf_def)
    ultimately have "hm_get (pr_statuses (c_run ?t)) n = Some Running"
      by (auto simp: nodes_with_iff status_of_def)
    from fold_mark_failed_running[OF this[unfolded run]] assms show False
      by (auto simp: nodes_with_iff status_of_def pr_wf_def)
  qed
  then show ?thesis by (metis list.set_intros(1) neq_Nil_conv)
qed

section \<open>Properties\<close>

text \<open>
  Claim C3. Dispatch discipline, for every implementation of the services and every sequence of
  events: while a coordinator runs, its identity stays, statuses only move forward, and every
  node it dispatches was pending when the coordinator started, is dispatched exactly once, is not
  pending afterwards, and has all its dependencies succeeded.
\<close>

theorem coordinator_dispatch_discipline:
  assumes "dispatch_log env dlog" and "coord_ok c"
    and "State_Monad.run_state (coordinator_run env events) (c, w) = (r, (c', w'))"
  shows "same_identity c c' \<and> advances (c_run c) (c_run c') \<and>
    (\<exists>new. dlog w' = dlog w @ new \<and> distinct new \<and>
      (\<forall>n\<in>set new. status_of c n = Some Pending \<and> status_of c' n \<noteq> Some Pending \<and>
        (\<forall>ds d. hm_get (pr_dependencies (c_run c)) n = Some ds \<longrightarrow> d \<in> set ds \<longrightarrow> status_of c' d = Some Success)))"
proof -
  have p: "progress dlog (c, w) (c', w')"
    using io_run_eq[OF dispatch_log.progress_run[OF assms(1)] assms(3)] .
  then have adv: "advances (c_run c) (c_run c')" by (simp add: progress_def)
  from p assms(2) obtain new where "dispatches dlog (c, w) (c', w') new" by (auto simp: progress_def)
  then have "dlog w' = dlog w @ new \<and> distinct new \<and>
      (\<forall>n\<in>set new. status_of c n = Some Pending \<and> status_of c' n \<noteq> Some Pending \<and>
        (\<forall>ds d. hm_get (pr_dependencies (c_run c)) n = Some ds \<longrightarrow> d \<in> set ds \<longrightarrow> status_of c' d = Some Success))"
    using adv by (auto simp: dispatches_def deps_satisfied_def status_of_def list_all_iff advances_def split: option.splits)
  with p show ?thesis by (auto simp: progress_def)
qed

text \<open>
  Claim C36. A coordinator that loses its lease stops without touching the run: when a heartbeat
  cannot renew the lease, the loop returns at once with a failure summary of the current statuses,
  after nothing but the renewal and the shutdown of its pod watcher; state, lease, history and
  jobs are left to the server that took over.
\<close>

theorem lost_lease_stops_quietly:
  assumes "State_Monad.run_state (ss_renew_lease (sv_state_store env) (c_run_id c) (c_server_id c) (c_lease_version c) 30) w
      = (r, w1)" and "r \<noteq> Inr True"
  shows "State_Monad.run_state (coord_loop env (HeartbeatTick # events)) (c, w) =
    (Some (summary_of RunFailure c),
     (c\<lparr>c_watcher := False\<rparr>,
      if c_watcher c then snd (State_Monad.run_state (rt_watcher_send env Shutdown) w1) else w1))"
  using assms
  by (auto simp: build_summary_def shutdown_pod_watcher_def summary_of_def split: prod.splits)

text \<open>
  When a run is stopped (deadline, cancel, failure), its jobs are not cancelled one by
  one: recording the history marks every running node as failed first, so that the loop of
  \<open>terminate_running_nodes\<close> over the running nodes is empty, and stopping is the same program
  without it.
\<close>

theorem stopped_run_cancels_no_node:
  assumes "pr_wf (c_run c)"
  shows "State_Monad.run_state (fail_run env status) (c, w) =
    State_Monad.run_state (do {
      finalize_run env status;
      coord_cleanup env;
      modify_c (\<lambda>c. c\<lparr>c_node_phase_handles := []\<rparr>);
      shutdown_pod_watcher env;
      c \<leftarrow> get_c;
      State_Monad.return (summary_of status c)
    }) (c, w)"
proof -
  obtain s1 where f: "State_Monad.run_state (finalize_run env status) (c, w) = ((), s1)"
    by (cases "State_Monad.run_state (finalize_run env status) (c, w)") auto
  obtain s2 where g: "State_Monad.run_state (coord_cleanup env) s1 = ((), s2)"
    by (cases "State_Monad.run_state (coord_cleanup env) s1") auto
  have "c_run (fst s2) = c_run (fst s1)" using c_run_kept[OF any_env.keeps_cleanup, of env s1] g by simp
  moreover have "nodes_with (\<lambda>x. x = Running) (fst s1) = []"
    using finalize_no_running[of "(c, w)" env status] assms f by simp
  ultimately have "nodes_with (\<lambda>x. x = Running) ((fst s2)\<lparr>c_node_phase_handles := []\<rparr>) = []"
    by (simp add: nodes_with_def)
  with f g show ?thesis by (simp add: fail_run_def terminate_running_nodes_def)
qed

end
