(* ===== verification/Recovery.thy ===== *)
theory Recovery
  imports CoordinatorLaws
begin

text \<open>
  Crash safety of the coordinator. A server may stop between any two events; what it leaves
  behind is the world. The theory states what the coordinator relies on (locale \<open>run_services\<close>:
  a store with compare-and-swap saves and leases, a history and a reporter, seen through an
  observation of the world) and shows that between events the stored state is exactly the state
  in memory, that a coordinator started later resumes with it, and that a run that ends leaves
  neither state nor lease behind and is recorded and reported once.
\<close>

section \<open>What the world shows of a run\<close>

text \<open>
  The stored states, the leases, the reports made so far, the status of the runs recorded as
  finished, and whether the history accepts the end of a run (by its id and the run it retries).
\<close>

record observed =
  ob_runs :: "string \<Rightarrow> run_state option"
  ob_leases :: "string \<Rightarrow> lease_data option"
  ob_reports :: "run_status list"
  ob_rows :: "string \<Rightarrow> run_status option"
  ob_open :: "string \<Rightarrow> string option \<Rightarrow> bool"

definition ob_version :: "observed \<Rightarrow> string \<Rightarrow> u64" where
  "ob_version ob i = (case ob_runs ob i of Some st \<Rightarrow> rs_version st | None \<Rightarrow> 0)"

definition lease_of :: "coordinator \<Rightarrow> lease_data" where
  "lease_of c = \<lparr> ld_version = c_lease_version c, ld_server_id = c_server_id c \<rparr>"

text \<open>
  \<open>owning\<close>: the coordinator started as \<open>c0\<close> holds the lease, knows the stored version, and has
  reported nothing. \<open>synced\<close>: in addition the stored state is the state in memory.
\<close>

definition owning :: "('w \<Rightarrow> observed) \<Rightarrow> coordinator \<Rightarrow> run_status list \<Rightarrow> coordinator \<times> 'w \<Rightarrow> bool" where
  "owning view c0 reports s \<longleftrightarrow> same_identity c0 (fst s) \<and> pr_wf (c_run (fst s)) \<and>
    ob_runs (view (snd s)) (c_run_id c0) \<noteq> None \<and>
    ob_version (view (snd s)) (c_run_id c0) = c_state_version (fst s) \<and>
    ob_leases (view (snd s)) (c_run_id c0) = Some (lease_of c0) \<and>
    ob_open (view (snd s)) (c_run_id c0) (rc_retry_of (c_run_context c0)) \<and>
    ob_reports (view (snd s)) = reports"

definition synced :: "('w \<Rightarrow> observed) \<Rightarrow> coordinator \<Rightarrow> run_status list \<Rightarrow> coordinator \<times> 'w \<Rightarrow> bool" where
  "synced view c0 reports s \<longleftrightarrow> owning view c0 reports s \<and>
    map_option from_run_state (ob_runs (view (snd s)) (c_run_id c0)) = Some (c_run (fst s))"

text \<open>\<open>finished\<close>: what a run that has ended leaves behind, with the summary it returned.\<close>

definition finished ::
  "('w \<Rightarrow> observed) \<Rightarrow> coordinator \<Rightarrow> run_status list \<Rightarrow> run_summary \<Rightarrow> 'w \<Rightarrow> bool" where
  "finished view c0 reports sm w \<longleftrightarrow> sm_run_id sm = c_run_id c0 \<and>
    ob_runs (view w) (c_run_id c0) = None \<and> ob_leases (view w) (c_run_id c0) = None \<and>
    ob_rows (view w) (c_run_id c0) = Some (sm_status sm) \<and>
    ob_reports (view w) = reports @ [sm_status sm] \<and>
    sm_status sm \<noteq> InProgress \<and>
    (sm_status sm = RunSuccess \<longrightarrow> (\<forall>n s. hm_get (sm_node_statuses sm) n = Some s \<longrightarrow> s = Success)) \<and>
    (\<forall>n. hm_get (sm_node_statuses sm) n \<noteq> Some Running)"

text \<open>After the clean-up the run is gone from the store; the watcher may still be told to stop.\<close>

definition cleaned ::
  "('w \<Rightarrow> observed) \<Rightarrow> coordinator \<Rightarrow> run_status list \<Rightarrow> run_status \<Rightarrow> pipeline_run \<Rightarrow> coordinator \<times> 'w \<Rightarrow> bool" where
  "cleaned view c0 R st run s \<longleftrightarrow> same_identity c0 (fst s) \<and> c_run (fst s) = run \<and>
    ob_runs (view (snd s)) (c_run_id c0) = None \<and> ob_leases (view (snd s)) (c_run_id c0) = None \<and>
    ob_rows (view (snd s)) (c_run_id c0) = Some st \<and> ob_reports (view (snd s)) = R @ [st]"

lemma untouched_owning: "owning view c0 R s \<Longrightarrow> untouched view s t \<Longrightarrow> owning view c0 R t"
  by (auto simp: owning_def untouched_def intro: same_identity_trans)

lemma untouched_synced: "synced view c0 R s \<Longrightarrow> untouched view s t \<Longrightarrow> synced view c0 R t"
  by (auto simp: synced_def untouched_def intro: untouched_owning[unfolded untouched_def])

lemma synced_owning: "synced view c0 R s \<Longrightarrow> owning view c0 R s"
  by (simp add: synced_def)

lemma hoare_owning: "state_io_rel (untouched view) m \<Longrightarrow> hoare (owning view c0 R) m (\<lambda>_. owning view c0 R)"
  by (erule hoare_io) (rule untouched_owning)

lemma hoare_synced: "state_io_rel (untouched view) m \<Longrightarrow> hoare (synced view c0 R) m (\<lambda>_. synced view c0 R)"
  by (erule hoare_io) (rule untouched_synced)

lemma hoare_get_c: "hoare P get_c (\<lambda>c s. P s \<and> c = fst s)"
  by (simp add: hoare_def)

lemma hoare_get_c_keep: "(\<And>c. hoare P (f c) Q) \<Longrightarrow> hoare P (get_c \<bind> f) Q"
  by (rule hoare_bind[OF hoare_get_c]) (auto intro: hoare_pre)

lemma hoare_ghost: "(\<And>x. hoare (\<lambda>s. P s \<and> f s = x) m Q) \<Longrightarrow> hoare P m Q"
  by (simp add: hoare_def)

text \<open>Marking a node: when the mark is refused, nothing has changed.\<close>

lemma owning_update:
  "(\<And>r. pr_wf r \<Longrightarrow> pr_wf (snd (f r))) \<Longrightarrow> hoare (owning view c0 R) (update_run f) (\<lambda>_. owning view c0 R)"
  by (auto simp: hoare_def owning_def intro: same_identity_trans)

lemma synced_update:
  assumes "\<And>r. pr_wf r \<Longrightarrow> pr_wf (snd (f r))" and "\<And>r. \<not> fst (f r) \<Longrightarrow> snd (f r) = r"
  shows "hoare (synced view c0 R) (update_run f) (\<lambda>ok s. if ok then owning view c0 R s else synced view c0 R s)"
  using assms by (auto simp: hoare_def synced_def owning_def intro: same_identity_trans)

lemma mark_refused:
  "\<not> fst (mark_running n r) \<Longrightarrow> snd (mark_running n r) = r"
  "\<not> fst (mark_failed n r) \<Longrightarrow> snd (mark_failed n r) = r"
  by (auto simp: mark_running_def mark_failed_def)

lemmas owning_mark = owning_update[OF mark_wf(1)] owning_update[OF mark_wf(2)] owning_update[OF mark_wf(3)]
  owning_update[OF mark_wf(4)]

lemmas synced_mark = synced_update[OF mark_wf(1) mark_refused(1)] synced_update[OF mark_wf(3) mark_refused(2)]

section \<open>The services a run relies on\<close>

locale run_services = services_neutral env view
  for env :: "'w coordinator_env" and view :: "'w \<Rightarrow> observed" +
  assumes quiet_dispatch: "quiet view (dp_dispatch (sv_dispatcher env) i md n p cfg)"
    and save_law: "State_Monad.run_state (ss_save_run (sv_state_store env) i st v) w = (r, w') \<Longrightarrow>
      (if ob_version (view w) i = v
       then r = Inr True \<and> view w' = (view w)\<lparr>ob_runs := (ob_runs (view w))(i \<mapsto> st)\<rparr>
       else r = Inr False \<and> view w' = view w)"
    and delete_law: "State_Monad.run_state (ss_delete_run (sv_state_store env) i) w = (ru, w') \<Longrightarrow>
      view w' = (view w)\<lparr>ob_runs := (ob_runs (view w))(i := None)\<rparr>"
    and release_law: "State_Monad.run_state (ss_release_lease (sv_state_store env) i) w = (ru, w') \<Longrightarrow>
      view w' = (view w)\<lparr>ob_leases := (ob_leases (view w))(i := None)\<rparr>"
    and renew_law: "State_Monad.run_state (ss_renew_lease (sv_state_store env) i sid v ttl) w = (r, w') \<Longrightarrow>
      r = Inr (ob_leases (view w) i = Some \<lparr> ld_version = v, ld_server_id = sid \<rparr>)"
    and record_law: "State_Monad.run_state (rh_record_pipeline_run (sv_run_history env) pr) w = (rh, w') \<Longrightarrow>
      ob_open (view w) (ps_run_id pr) (ps_retry_of pr) \<Longrightarrow> pe_completed_at pr = Some now \<Longrightarrow>
      ob_rows (view w') (ps_run_id pr) = Some (pe_status pr) \<and>
      view w' = (view w)\<lparr>ob_rows := ob_rows (view w'), ob_open := ob_open (view w')\<rparr> \<and>
      (\<forall>i q. ob_open (view w) i q \<longrightarrow> ob_open (view w') i q)"
    and report_law: "sv_report_completed env = Some report \<Longrightarrow>
      State_Monad.run_state (report status) w = (u, w') \<Longrightarrow>
      view w' = (view w)\<lparr>ob_reports := ob_reports (view w) @ [status]\<rparr>"
    and reports: "sv_report_completed env \<noteq> None"
    and subscribe_law: "\<exists>sub. fst (State_Monad.run_state (bp_subscribe_run (sv_backplane env) i) w) = Inr sub"
begin

subsection \<open>Saving\<close>

lemma persist_syncs: "hoare (owning view c0 R) (persist_state env) (\<lambda>r s. r = Inr () \<and> synced view c0 R s)"
  unfolding hoare_def
proof (intro allI impI)
  fix s
  assume own: "owning view c0 R s"
  let ?c = "fst s" and ?v = "c_state_version (fst s)"
  let ?st = "to_run_state (c_run ?c) (?v + 1) (c_pipeline ?c)"
  have id: "c_run_id ?c = c_run_id c0" using own by (simp add: owning_def same_identity_def)
  obtain r w where save: "State_Monad.run_state (ss_save_run (sv_state_store env) (c_run_id ?c) ?st ?v) (snd s) = (r, w)"
    by force
  from save_law[OF save] own id have r: "r = Inr True"
    and w: "view w = (view (snd s))\<lparr>ob_runs := (ob_runs (view (snd s)))(c_run_id c0 \<mapsto> ?st)\<rparr>"
    by (auto simp: owning_def)
  have "State_Monad.run_state (persist_state env) s = (Inr (), (?c\<lparr>c_state_version := ?v + 1\<rparr>, w))"
    using save r by (simp add: persist_state_def Let_def)
  moreover have "synced view c0 R (?c\<lparr>c_state_version := ?v + 1\<rparr>, w)"
    using own to_from_run_state[of "c_run ?c"]
    by (auto simp: synced_def owning_def w ob_version_def to_run_state_def intro: same_identity_trans)
  ultimately show "case State_Monad.run_state (persist_state env) s of (r, t) \<Rightarrow> r = Inr () \<and> synced view c0 R t"
    by simp
qed

lemma persist_after_syncs: "hoare (owning view c0 R) (persist_state_after_dispatch_transition env) (\<lambda>_. synced view c0 R)"
  unfolding persist_state_after_dispatch_transition_def
  by (rule hoare_bind[OF persist_syncs]) (auto intro: hoare_return)

text \<open>After a save the handlers never take the error branch.\<close>

lemma persist_then:
  "hoare (synced view c0 R) (f ()) Q \<Longrightarrow>
    hoare (owning view c0 R) (persist_state env \<bind> (\<lambda>r. case r of Inl e \<Rightarrow> g e | Inr u \<Rightarrow> f u)) Q"
  by (rule hoare_bind[OF persist_syncs]) (auto simp: hoare_def)

lemmas synced_programs = untouched_programs[THEN hoare_synced]
lemmas owning_programs = untouched_programs[THEN hoare_owning]
lemmas synced_calls = quiet_dispatch[THEN io_call_untouched, THEN hoare_synced]
  quiet_neutral[THEN io_call_untouched, THEN hoare_synced]

subsection \<open>Handlers keep the store in step\<close>

lemma mark_persist_then:
  "\<lbrakk> hoare (owning view c0 R) (update_run f) (\<lambda>_. owning view c0 R); hoare (synced view c0 R) (h ()) Q \<rbrakk> \<Longrightarrow>
    hoare (synced view c0 R) (update_run f \<bind> (\<lambda>_. persist_state env \<bind> (\<lambda>r. case r of Inl e \<Rightarrow> g e | Inr u \<Rightarrow> h u))) Q"
  by (rule hoare_bind[OF hoare_pre[OF _ synced_owning]]) (auto intro: persist_then)

lemma mark_persist_after:
  "\<lbrakk> hoare (owning view c0 R) (update_run f) (\<lambda>_. owning view c0 R); hoare (synced view c0 R) m Q \<rbrakk> \<Longrightarrow>
    hoare (synced view c0 R) (update_run f \<bind> (\<lambda>_. persist_state_after_dispatch_transition env \<bind> (\<lambda>_. m))) Q"
  by (rule hoare_bind[OF hoare_pre[OF _ synced_owning]]) (auto intro: hoare_bind persist_after_syncs)

lemma synced_dispatch_node: "hoare (synced view c0 R) (dispatch_node env n) (\<lambda>_. synced view c0 R)"
proof -
  have ok: "hoare (synced view c0 R) (do {
      ok \<leftarrow> update_run (mark_running n);
      if \<not> ok then State_Monad.return ()
      else do { persist_state_after_dispatch_transition env; record_node_dispatched env n node; arm_timer n StartupPhase secs }
    }) (\<lambda>_. synced view c0 R)" for node secs
    by (rule hoare_bind[OF synced_mark(1)])
      (auto intro!: hoare_return hoare_bind persist_after_syncs synced_programs)
  show ?thesis
    unfolding dispatch_node_def Let_def
    by (intro hoare_get_c_keep hoare_case_option mark_persist_after owning_mark synced_programs
        hoare_bind[OF synced_calls(1)] hoare_case_sum ok)
qed

lemma synced_dispatch_ready: "hoare (synced view c0 R) (dispatch_ready_nodes env) (\<lambda>_. synced view c0 R)"
  unfolding dispatch_ready_nodes_def by (intro hoare_get_c_keep hoare_for_M synced_dispatch_node)

lemma synced_stop: "hoare (synced view c0 R) (stop_or_continue env) (\<lambda>_. synced view c0 R)"
  unfolding stop_or_continue_def
  by (intro hoare_get_c_keep hoare_if hoare_return hoare_bind[OF synced_dispatch_ready])

lemma synced_cancel: "hoare (synced view c0 R) (cancel_and_record env n reason) (\<lambda>_. synced view c0 R)"
  unfolding cancel_and_record_def
  by (intro hoare_get_c_keep hoare_bind[OF synced_programs(3)] hoare_bind[OF synced_calls(2)]
      hoare_bind[OF synced_programs(7)] synced_stop)

lemma synced_failed_then:
  assumes "hoare (owning view c0 R) m (\<lambda>_. synced view c0 R)"
  shows "hoare (synced view c0 R) (update_run (mark_failed n) \<bind> (\<lambda>ok. if \<not> ok then State_Monad.return False else m))
    (\<lambda>_. synced view c0 R)"
  by (rule hoare_bind[OF synced_mark(2)]) (auto intro!: hoare_return assms)

lemma synced_infra: "hoare (synced view c0 R) (handle_node_infra_failed env n reason) (\<lambda>_. synced view c0 R)"
  unfolding handle_node_infra_failed_def
  by (intro hoare_get_c_keep hoare_if hoare_return synced_failed_then hoare_bind[OF owning_programs(2)]
      persist_then synced_cancel)

lemma synced_timed_out: "hoare (synced view c0 R) (handle_node_timed_out env n) (\<lambda>_. synced view c0 R)"
  unfolding handle_node_timed_out_def by (intro synced_failed_then persist_then synced_cancel)

lemma synced_completed: "hoare (synced view c0 R) (handle_node_completed env n success) (\<lambda>_. synced view c0 R)"
  unfolding handle_node_completed_def
  by (intro hoare_if mark_persist_then owning_mark hoare_bind[OF synced_programs(7)]
      hoare_bind[OF synced_dispatch_ready] hoare_return synced_stop)

lemma synced_until:
  assumes "\<And>x. hoare (synced view c0 R) (f x) (\<lambda>_. synced view c0 R)"
  shows "hoare (synced view c0 R) (until_M f xs) (\<lambda>_. synced view c0 R)"
  using hoare_until_M[of xs "synced view c0 R" f "synced view c0 R"] assms by simp

lemma synced_fold: "hoare (synced view c0 R) (fold_completions_from_outcomes env outcomes) (\<lambda>_. synced view c0 R)"
  unfolding fold_completions_from_outcomes_def
  by (rule synced_until)
    (auto split: reconcile_result.splits intro!: hoare_return hoare_bind[OF synced_programs(2)] synced_completed)

lemma synced_promote_node: "hoare (synced view c0 R) (promote_node env n) (\<lambda>_. synced view c0 R)"
proof -
  let ?m = "do {
      _ \<leftarrow> persist_state env;
      c \<leftarrow> get_c;
      r \<leftarrow> call (dp_node_pod_exists (sv_dispatcher env) (c_run_id c) n);
      (case r of
         Inr True \<Rightarrow> State_Monad.return False
       | Inr False \<Rightarrow> handle_node_infra_failed env n PodDeletedUnexpectedly
       | Inl _ \<Rightarrow> State_Monad.return False)
    }"
  have "hoare (owning view c0 R) ?m (\<lambda>_. synced view c0 R)"
    by (rule hoare_bind[OF hoare_post[OF persist_syncs]], erule conjunct2)
      (intro hoare_get_c_keep hoare_bind[OF synced_calls(7)] hoare_case_sum hoare_return synced_infra,
        auto split: bool.splits intro!: hoare_return synced_infra)
  then show ?thesis unfolding promote_node_def
    by (intro hoare_bind[OF synced_mark(1)]) (auto intro!: hoare_return)
qed

lemma synced_promote: "hoare (synced view c0 R) (promote_started_pending_to_running env outcomes) (\<lambda>_. synced view c0 R)"
  unfolding promote_started_pending_to_running_def Let_def
  by (intro hoare_get_c_keep synced_until synced_promote_node)

lemma synced_reconcile: "hoare (synced view c0 R) (reconcile_running_against_s3 env) (\<lambda>_. synced view c0 R)"
  unfolding reconcile_running_against_s3_def by (intro hoare_bind[OF synced_programs(9)] synced_fold)

subsection \<open>The end of a run\<close>

lemma owning_terminate_node: "hoare (owning view c0 R) (terminate_node_in_history env n) (\<lambda>_. owning view c0 R)"
  unfolding terminate_node_in_history_def
  by (intro hoare_bind[OF owning_programs(8)] hoare_bind[OF owning_mark(3)] hoare_return)

lemma record_history_records:
  "hoare (owning view c0 R) (record_history env st)
    (\<lambda>_ s. owning view c0 R s \<and> ob_rows (view (snd s)) (c_run_id c0) = Some st)"
proof -
  have last: "hoare (owning view c0 R) (do {
      c \<leftarrow> get_c;
      _ \<leftarrow> call (rh_record_pipeline_run (sv_run_history env)
        (pipeline_start_record.extend (build_pipeline_start_record (c_run_id c) (c_pipeline c) (c_run_context c))
          (pipeline_run_record.fields st (Some now))));
      State_Monad.return () })
    (\<lambda>_ s. owning view c0 R s \<and> ob_rows (view (snd s)) (c_run_id c0) = Some st)" (is "hoare _ ?m _") for now
    unfolding hoare_def
  proof (intro allI impI)
    fix s
    assume own: "owning view c0 R s"
    then have id: "c_run_id (fst s) = c_run_id c0" "c_run_context (fst s) = c_run_context c0"
      by (auto simp: owning_def same_identity_def)
    let ?r = "pipeline_start_record.extend (build_pipeline_start_record (c_run_id c0) (c_pipeline (fst s)) (c_run_context c0))
          (pipeline_run_record.fields st (Some now))"
    obtain e w where rec: "State_Monad.run_state (rh_record_pipeline_run (sv_run_history env) ?r) (snd s) = (e, w)" by force
    have r: "ps_run_id ?r = c_run_id c0" "ps_retry_of ?r = rc_retry_of (c_run_context c0)"
        "pe_completed_at ?r = Some now" "pe_status ?r = st"
      by (simp_all add: pipeline_start_record.defs pipeline_run_record.defs build_pipeline_start_record_def)
    from record_law[OF rec, unfolded r] own
    have rows: "ob_rows (view w) (c_run_id c0) = Some st"
      and w: "view w = (view (snd s))\<lparr>ob_rows := ob_rows (view w), ob_open := ob_open (view w)\<rparr>"
      and op: "ob_open (view w) (c_run_id c0) (rc_retry_of (c_run_context c0))"
      by (auto simp: owning_def)
    have same: "ob_runs (view w) = ob_runs (view (snd s))" "ob_leases (view w) = ob_leases (view (snd s))"
        "ob_reports (view w) = ob_reports (view (snd s))" by (subst w, simp)+
    have "State_Monad.run_state ?m s = ((), (fst s, w))" using rec id by simp
    with own rows op same show "case State_Monad.run_state ?m s of (a, t) \<Rightarrow>
        owning view c0 R t \<and> ob_rows (view (snd t)) (c_run_id c0) = Some st"
      by (simp add: owning_def ob_version_def)
  qed
  show ?thesis
    unfolding record_history_def
    by (rule hoare_get_c_keep, rule hoare_bind[OF hoare_for_M[OF owning_terminate_node]],
        rule hoare_bind[OF quiet_now[THEN io_call_untouched, THEN hoare_owning]], rule last)
qed

lemma finalize_reports:
  "hoare (owning view c0 R) (finalize_run env st)
    (\<lambda>_ s. owning view c0 (R @ [st]) s \<and> ob_rows (view (snd s)) (c_run_id c0) = Some st)"
proof -
  obtain report where report: "sv_report_completed env = Some report" using reports by blast
  have "hoare (\<lambda>s. owning view c0 R s \<and> ob_rows (view (snd s)) (c_run_id c0) = Some st) (call (report st))
    (\<lambda>_ s. owning view c0 (R @ [st]) s \<and> ob_rows (view (snd s)) (c_run_id c0) = Some st)"
    by (auto simp: hoare_def owning_def ob_version_def split: prod.splits dest!: report_law[OF report])
  then show ?thesis unfolding finalize_run_def report
    by (simp add: hoare_bind[OF record_history_records])
qed

lemma cleanup_cleans:
  "hoare (\<lambda>s. owning view c0 (R @ [st]) s \<and> ob_rows (view (snd s)) (c_run_id c0) = Some st \<and> c_run (fst s) = run)
    (coord_cleanup env) (\<lambda>_. cleaned view c0 R st run)"
  unfolding hoare_def
proof (intro allI impI)
  fix s
  assume own: "owning view c0 (R @ [st]) s \<and> ob_rows (view (snd s)) (c_run_id c0) = Some st \<and> c_run (fst s) = run"
  then have id: "c_run_id (fst s) = c_run_id c0" by (simp add: owning_def same_identity_def)
  obtain r1 w1 where 1: "State_Monad.run_state (dp_cleanup_run (sv_dispatcher env) (c_run_id c0)) (snd s) = (r1, w1)" by force
  obtain r2 w2 where 2: "State_Monad.run_state (ss_release_lease (sv_state_store env) (c_run_id c0)) w1 = (r2, w2)" by force
  obtain r3 w3 where 3: "State_Monad.run_state (ss_delete_run (sv_state_store env) (c_run_id c0)) w2 = (r3, w3)" by force
  have "view w1 = view (snd s)" using io_run_eq[OF quiet_cleanup[unfolded quiet_def] 1] .
  with release_law[OF 2] delete_law[OF 3] own have "cleaned view c0 R st run (fst s, w3)"
    by (simp add: cleaned_def owning_def)
  moreover have "State_Monad.run_state (coord_cleanup env) s = ((), (fst s, w3))"
    using 1 2 3 id by (simp add: coord_cleanup_def)
  ultimately show "case State_Monad.run_state (coord_cleanup env) s of (a, t) \<Rightarrow> cleaned view c0 R st run t" by simp
qed

lemma cleaned_untouched: "state_io_rel (untouched view) m \<Longrightarrow> hoare (cleaned view c0 R st run) m (\<lambda>_. cleaned view c0 R st run)"
  by (erule hoare_io) (auto simp: cleaned_def untouched_def intro: same_identity_trans)

lemma finished_summary:
  assumes "cleaned view c0 R st run s" and "\<forall>n. hm_get (pr_statuses run) n \<noteq> Some Running" and "st \<noteq> InProgress"
    and "st = RunSuccess \<longrightarrow> (\<forall>n x. hm_get (pr_statuses run) n = Some x \<longrightarrow> x = Success)"
  shows "finished view c0 R (summary_of st (fst s)) (snd s)"
  using assms by (simp add: finished_def cleaned_def summary_of_def same_identity_def)

lemma summary_finishes:
  assumes "state_io_rel (untouched view) m" and "\<forall>n. hm_get (pr_statuses run) n \<noteq> Some Running" and "st \<noteq> InProgress"
    and "st = RunSuccess \<longrightarrow> (\<forall>n x. hm_get (pr_statuses run) n = Some x \<longrightarrow> x = Success)"
  shows "hoare (cleaned view c0 R st run) (do { m; c \<leftarrow> get_c; State_Monad.return (summary_of st c) })
    (\<lambda>sm s. finished view c0 R sm (snd s))"
  by (rule hoare_bind[OF cleaned_untouched[OF assms(1)]], rule hoare_bind[OF hoare_get_c])
    (auto intro!: hoare_return finished_summary[OF _ assms(2-4)])

lemma terminate_finishes:
  assumes "\<forall>n. hm_get (pr_statuses run) n \<noteq> Some Running" and "st \<noteq> InProgress" and "st \<noteq> RunSuccess"
  shows "hoare (cleaned view c0 R st run) (terminate_running_nodes env st) (\<lambda>sm s. finished view c0 R sm (snd s))"
  unfolding terminate_running_nodes_def
  by (rule hoare_bind[OF cleaned_untouched[OF io_modify_untouched]], simp, rule hoare_bind[OF hoare_get_c],
      rule hoare_bind[OF hoare_pre[OF cleaned_untouched[OF io_for_M[OF pre_untouched untouched_cancel_running]]]], simp,
      rule summary_finishes[OF untouched_shutdown]) (use assms in simp_all)

lemma build_summary_finishes:
  assumes "\<forall>n. hm_get (pr_statuses run) n \<noteq> Some Running" and "st \<noteq> InProgress"
    and "st = RunSuccess \<longrightarrow> (\<forall>n x. hm_get (pr_statuses run) n = Some x \<longrightarrow> x = Success)"
  shows "hoare (cleaned view c0 R st run) (build_summary env st) (\<lambda>sm s. finished view c0 R sm (snd s))"
  unfolding build_summary_def by (rule summary_finishes[OF untouched_shutdown assms])

text \<open>Finalising leaves no node running, and changes no status when none was.\<close>

lemma finalize_statuses:
  "hoare (owning view c0 R) (finalize_run env st)
    (\<lambda>_ s. owning view c0 (R @ [st]) s \<and> ob_rows (view (snd s)) (c_run_id c0) = Some st \<and>
      (\<forall>n. hm_get (pr_statuses (c_run (fst s))) n \<noteq> Some Running))"
proof -
  have "\<forall>n. hm_get (pr_statuses (c_run (fst t))) n \<noteq> Some Running"
    if own: "owning view c0 R s" and run: "State_Monad.run_state (finalize_run env st) s = (u, t)"
      and t: "owning view c0 (R @ [st]) t" for s u t
  proof -
    from own have "pr_wf (c_run (fst s))" by (simp add: owning_def)
    from finalize_no_running[OF this, of env st] run have "nodes_with (\<lambda>x. x = Running) (fst t) = []" by simp
    with t nodes_with_iff[of "fst t" _ "\<lambda>x. x = Running"] show ?thesis
      by (auto simp: owning_def pr_wf_def status_of_def)
  qed
  then show ?thesis
    using finalize_reports[of c0 R st] by (fastforce simp: hoare_def split: prod.splits)
qed

lemma fail_run_finishes:
  assumes "st \<noteq> InProgress" and "st \<noteq> RunSuccess"
  shows "hoare (owning view c0 R) (fail_run env st) (\<lambda>sm s. finished view c0 R sm (snd s))"
proof -
  have clean: "hoare (\<lambda>s. (owning view c0 (R @ [st]) s \<and> ob_rows (view (snd s)) (c_run_id c0) = Some st \<and>
      (\<forall>n. hm_get (pr_statuses (c_run (fst s))) n \<noteq> Some Running)) \<and> c_run (fst s) = run)
    (do { coord_cleanup env; terminate_running_nodes env st }) (\<lambda>sm s. finished view c0 R sm (snd s))" for run
  proof (rule hoare_lift[where b = "\<forall>n. hm_get (pr_statuses run) n \<noteq> Some Running"])
    assume "\<forall>n. hm_get (pr_statuses run) n \<noteq> Some Running"
    from hoare_bind[OF cleanup_cleans terminate_finishes[OF this assms]]
    show "hoare (\<lambda>s. (owning view c0 (R @ [st]) s \<and> ob_rows (view (snd s)) (c_run_id c0) = Some st \<and>
        (\<forall>n. hm_get (pr_statuses (c_run (fst s))) n \<noteq> Some Running)) \<and> c_run (fst s) = run)
      (do { coord_cleanup env; terminate_running_nodes env st }) (\<lambda>sm s. finished view c0 R sm (snd s))"
      by (rule hoare_pre) auto
  qed auto
  show ?thesis unfolding fail_run_def
    by (rule hoare_bind[OF finalize_statuses], rule hoare_ghost[where f = "\<lambda>s. c_run (fst s)"], rule clean)
qed

lemma complete_no_running: "pr_wf r \<Longrightarrow> is_complete r \<Longrightarrow> hm_get (pr_statuses r) n \<noteq> Some Running"
  by (simp add: is_complete_iff pr_wf_def)

lemma finalize_complete:
  "hoare (\<lambda>s. owning view c0 R s \<and> is_complete (c_run (fst s)) \<and> c_run (fst s) = run) (finalize_run env st)
    (\<lambda>_ s. owning view c0 (R @ [st]) s \<and> ob_rows (view (snd s)) (c_run_id c0) = Some st \<and> c_run (fst s) = run)"
proof -
  have "c_run (fst t) = c_run (fst s)"
    if own: "owning view c0 R s" and c: "is_complete (c_run (fst s))"
      and run: "State_Monad.run_state (finalize_run env st) s = (u, t)" for s u t
  proof -
    from own have wf: "pr_wf (c_run (fst s))" by (simp add: owning_def)
    with complete_no_running[OF wf c] nodes_with_iff[of "fst s" _ "\<lambda>x. x = Running"]
    have "\<forall>n. n \<notin> set (nodes_with (\<lambda>x. x = Running) (fst s))" by (auto simp: pr_wf_def status_of_def)
    then have "nodes_with (\<lambda>x. x = Running) (fst s) = []" by (metis last_in_set)
    with finalize_effect[of env st s] run show ?thesis by simp
  qed
  then show ?thesis
    using finalize_reports[of c0 R st] by (fastforce simp: hoare_def split: prod.splits)
qed

lemma complete_run_finishes:
  "hoare (\<lambda>s. owning view c0 R s \<and> is_complete (c_run (fst s))) (complete_run env)
    (\<lambda>sm s. finished view c0 R sm (snd s))"
proof (rule hoare_ghost[where f = "\<lambda>s. c_run (fst s)"])
  fix run
  have fin: "hoare (\<lambda>s. owning view c0 R s \<and> is_complete (c_run (fst s)) \<and> c_run (fst s) = run)
    (do { finalize_run env st; coord_cleanup env; build_summary env st }) (\<lambda>sm s. finished view c0 R sm (snd s))"
    if wf: "pr_wf run" "is_complete run" and st: "st = outcome_status c" "c_run c = run" for st c
  proof (intro hoare_bind[OF finalize_complete] hoare_bind[OF cleanup_cleans] build_summary_finishes)
    show "\<forall>n. hm_get (pr_statuses run) n \<noteq> Some Running" using complete_no_running[OF wf] by simp
    show "st \<noteq> InProgress" using st by (simp add: outcome_status_def)
    show "st = RunSuccess \<longrightarrow> (\<forall>n x. hm_get (pr_statuses run) n = Some x \<longrightarrow> x = Success)"
      using st hm_values_all[of "pr_statuses run" "\<lambda>x. x = Success"] wf
      by (auto simp: outcome_status_def list_all_iff pr_wf_def split: if_splits)
  qed
  show "hoare (\<lambda>s. (owning view c0 R s \<and> is_complete (c_run (fst s))) \<and> c_run (fst s) = run) (complete_run env)
    (\<lambda>sm s. finished view c0 R sm (snd s))"
    unfolding complete_run_def Let_def
    by (rule hoare_bind[OF hoare_get_c],
        rule hoare_lift[where b = "pr_wf run \<and> is_complete run \<and> c_run c = run" for c], force simp: owning_def)
      (auto intro: hoare_pre[OF fin])
qed

end

subsection \<open>The loop\<close>

text \<open>What holds after one event, and after a number of events.\<close>

definition step_post ::
  "('w \<Rightarrow> observed) \<Rightarrow> coordinator \<Rightarrow> run_status list \<Rightarrow> step_result \<Rightarrow> coordinator \<times> 'w \<Rightarrow> bool" where
  "step_post view c0 R r s \<longleftrightarrow> (case r of
      Continue \<Rightarrow> synced view c0 R s
    | BreakLoop \<Rightarrow> synced view c0 R s \<and> is_complete (c_run (fst s))
    | Return sm \<Rightarrow> finished view c0 R sm (snd s))"

definition run_post ::
  "('w \<Rightarrow> observed) \<Rightarrow> coordinator \<Rightarrow> run_status list \<Rightarrow> run_summary option \<Rightarrow> coordinator \<times> 'w \<Rightarrow> bool" where
  "run_post view c0 R r s \<longleftrightarrow> (case r of
      None \<Rightarrow> synced view c0 R s
    | Some sm \<Rightarrow> finished view c0 R sm (snd s))"

lemma step_post_simps [simp]:
  "step_post view c0 R Continue = synced view c0 R"
  "step_post view c0 R BreakLoop = (\<lambda>s. synced view c0 R s \<and> is_complete (c_run (fst s)))"
  "step_post view c0 R (Return sm) = (\<lambda>s. finished view c0 R sm (snd s))"
  by (simp_all add: step_post_def fun_eq_iff)

lemma run_post_simps [simp]:
  "run_post view c0 R None = synced view c0 R" "run_post view c0 R (Some sm) = (\<lambda>s. finished view c0 R sm (snd s))"
  by (simp_all add: run_post_def fun_eq_iff)

context run_services
begin

lemma fail_run_return:
  "st \<noteq> InProgress \<Longrightarrow> st \<noteq> RunSuccess \<Longrightarrow>
    hoare (synced view c0 R) (do { sm \<leftarrow> fail_run env st; State_Monad.return (Return sm) }) (step_post view c0 R)"
  by (rule hoare_bind[OF hoare_pre[OF fail_run_finishes synced_owning]])
    (auto intro: hoare_return)

lemma fail_run_some:
  "hoare (synced view c0 R) (do { sm \<leftarrow> fail_run env RunFailure; State_Monad.return (Some sm) }) (run_post view c0 R)"
  by (rule hoare_bind[OF hoare_pre[OF fail_run_finishes synced_owning]])
    (auto intro: hoare_return)

lemma complete_run_some:
  "hoare (\<lambda>s. synced view c0 R s \<and> is_complete (c_run (fst s)))
    (do { sm \<leftarrow> complete_run env; State_Monad.return (Some sm) }) (run_post view c0 R)"
  by (rule hoare_bind[OF hoare_pre[OF complete_run_finishes]])
    (auto intro: hoare_return synced_owning)

lemma after_handler_post: "hoare (synced view c0 R) (after_handler env stop) (step_post view c0 R)"
  unfolding after_handler_def
  by (intro hoare_if fail_run_return hoare_bind[OF hoare_get_c]) (auto intro!: hoare_return)

lemma heartbeat_post: "hoare (synced view c0 R) (coord_step env HeartbeatTick) (step_post view c0 R)"
proof -
  have "State_Monad.run_state (coord_step env HeartbeatTick) s = (Continue, t) \<and> untouched view s t"
    if syn: "synced view c0 R s" and t: "t = snd (State_Monad.run_state (coord_step env HeartbeatTick) s)" for s t
  proof -
    let ?m = "ss_renew_lease (sv_state_store env) (c_run_id (fst s)) (c_server_id (fst s)) (c_lease_version (fst s)) 30"
    obtain r w where renew: "State_Monad.run_state ?m (snd s) = (r, w)" by force
    from renew_law[OF renew] syn have "r = Inr True"
      by (auto simp: synced_def owning_def same_identity_def lease_of_def)
    with renew have "State_Monad.run_state (coord_step env HeartbeatTick) s = (Continue, (fst s, w))" by simp
    moreover have "view w = view (snd s)" using io_run_eq[OF quiet_renew[unfolded quiet_def] renew] .
    ultimately show ?thesis by (simp add: t untouched_def)
  qed
  then show ?thesis
    by (force simp: hoare_def simp del: coord_step.simps intro: untouched_synced split: prod.splits)
qed

lemma coord_step_post: "hoare (synced view c0 R) (coord_step env e) (step_post view c0 R)"
proof (cases "(env, e)" rule: coord_step.cases)
  case (2 env')
  then show ?thesis using heartbeat_post by simp
next
  case (5 env' n)
  have "hoare (synced view c0 R) (do { handle_pod_running env n; State_Monad.return Continue }) (step_post view c0 R)"
    by (intro hoare_bind[OF synced_programs(4)] hoare_return) simp
  with 5 show ?thesis by simp
qed (auto simp: handle_pod_start_timed_out_def intro!: fail_run_return after_handler_post hoare_return
      hoare_bind[OF synced_reconcile] hoare_bind[OF synced_timed_out] hoare_bind[OF synced_infra]
      hoare_bind[OF synced_programs(2)] hoare_bind[OF synced_completed])

lemma coord_loop_post: "hoare (synced view c0 R) (coord_loop env es) (run_post view c0 R)"
proof (induction es)
  case Nil
  then show ?case by (auto intro: hoare_return)
next
  case (Cons e es)
  have "hoare (step_post view c0 R r) (case r of
       Continue \<Rightarrow> coord_loop env es
     | BreakLoop \<Rightarrow> do { s \<leftarrow> complete_run env; State_Monad.return (Some s) }
     | Return s \<Rightarrow> State_Monad.return (Some s)) (run_post view c0 R)" for r
    using Cons.IH complete_run_some
    by (cases r) (auto intro: hoare_return)
  then show ?case by (simp add: hoare_bind[OF coord_step_post])
qed

lemma completion_test_post:
  "hoare (synced view c0 R) m (run_post view c0 R) \<Longrightarrow> hoare (synced view c0 R)
    (do { c \<leftarrow> get_c; if is_complete (c_run c) then do { s \<leftarrow> complete_run env; State_Monad.return (Some s) } else m })
    (run_post view c0 R)"
  by (rule hoare_bind[OF hoare_get_c]) (auto intro: hoare_pre[OF complete_run_some] hoare_pre)

lemma rehydrate_post: "hoare (synced view c0 R) (rehydrate env) (run_post view c0 R)"
  unfolding rehydrate_def
  by (intro hoare_bind[OF synced_programs(9)] hoare_bind[OF synced_fold] hoare_if fail_run_some
      hoare_bind[OF synced_promote] hoare_bind[OF synced_programs(10)] completion_test_post hoare_return)
    simp

lemma run_from_subscription_post: "hoare (synced view c0 R) (run_from_subscription env es) (run_post view c0 R)"
proof -
  have sub: "hoare (synced view c0 R) (call (bp_subscribe_run (sv_backplane env) i))
      (\<lambda>r s. (\<exists>sub. r = Inr sub) \<and> synced view c0 R s)" for i
    using quiet_subscribe[THEN io_call_untouched, THEN hoare_synced, of c0 R i] subscribe_law[of i]
    by (simp add: hoare_def split: prod.splits) (metis fst_conv)
  have run: "hoare (synced view c0 R) (do {
      dispatch_ready_nodes env;
      c \<leftarrow> get_c;
      if is_complete (c_run c) then do { s \<leftarrow> complete_run env; State_Monad.return (Some s) }
      else coord_loop env es }) (run_post view c0 R)"
    by (intro hoare_bind[OF synced_dispatch_ready] completion_test_post coord_loop_post)
  show ?thesis unfolding run_from_subscription_def
    by (intro hoare_get_c_keep hoare_bind[OF sub]) (auto simp: hoare_def dest: run[unfolded hoare_def, rule_format])
qed

lemma coordinator_run_post: "hoare (synced view c0 R) (coordinator_run env es) (run_post view c0 R)"
proof -
  have "hoare (run_post view c0 R r) (case r of Some s \<Rightarrow> State_Monad.return (Some s) | None \<Rightarrow> run_from_subscription env es)
      (run_post view c0 R)" for r
    using run_from_subscription_post by (cases r) (auto intro: hoare_return)
  then show ?thesis unfolding coordinator_run_def
    by (intro hoare_get_c_keep hoare_if hoare_bind[OF rehydrate_post] run_from_subscription_post)
qed

end

section \<open>Start and restart\<close>

text \<open>In addition, the laws of the operations that starting a coordinator uses.\<close>

locale start_services = run_services env view
  for env :: "'w coordinator_env" and view :: "'w \<Rightarrow> observed" +
  assumes load_law: "State_Monad.run_state (ss_load_run (sv_state_store env) i) w = (rl, w') \<Longrightarrow>
      rl = Inr (ob_runs (view w) i) \<and> view w' = view w"
    and acquire_law: "State_Monad.run_state (ss_try_acquire_lease (sv_state_store env) i sid ttl) w = (ra, w') \<Longrightarrow>
      (case ob_leases (view w) i of
         None \<Rightarrow> \<exists>v. ra = Inr (Some v) \<and>
           view w' = (view w)\<lparr>ob_leases := (ob_leases (view w))(i \<mapsto> \<lparr> ld_version = v, ld_server_id = sid \<rparr>)\<rparr>
       | Some l \<Rightarrow> ra = Inr None \<and> view w' = view w)"
    and started_law: "State_Monad.run_state (rh_record_pipeline_started (sv_run_history env) ps) w = (rp, w') \<Longrightarrow>
      view w' = (view w)\<lparr>ob_open := ob_open (view w')\<rparr> \<and> (\<forall>i q. ob_open (view w) i q \<longrightarrow> ob_open (view w') i q)"
    and quiet_uuid: "quiet view (rt_new_uuid env)"
    and quiet_start_watcher: "quiet view (dp_start_pod_watcher (sv_dispatcher env) i seed)"
begin

text \<open>What the run state is initialised with: what is stored, or the fresh graph of the pipeline.\<close>

lemma initialize_effect:
  assumes run: "State_Monad.run_state (initialize_run_state env i infos p) w = (res, w')"
  shows "case ob_runs (view w) i of
      Some st \<Rightarrow> res = (from_run_state st, rs_version st, True) \<and> view w' = view w
    | None \<Rightarrow> res = (pr_new infos, 0, False) \<and>
        view w' = (view w)\<lparr>ob_runs := (ob_runs (view w))(i \<mapsto> to_run_state (pr_new infos) 0 p)\<rparr>"
proof -
  obtain r w1 where load: "State_Monad.run_state (ss_load_run (sv_state_store env) i) w = (r, w1)" by force
  note l = load_law[OF load]
  show ?thesis
  proof (cases "ob_runs (view w) i")
    case None
    let ?st = "to_run_state (pr_new infos) 0 p"
    obtain r2 w2 where save: "State_Monad.run_state (ss_save_run (sv_state_store env) i ?st 0) w1 = (r2, w2)" by force
    from save_law[OF save] l None have "view w2 = (view w)\<lparr>ob_runs := (ob_runs (view w))(i \<mapsto> ?st)\<rparr>"
      by (simp add: ob_version_def)
    with None l load save run show ?thesis by (simp add: initialize_run_state_def Let_def)
  next
    case (Some st)
    with l load run show ?thesis by (simp add: initialize_run_state_def)
  qed
qed

lemma start_refused:
  assumes "State_Monad.run_state (start_coordinator env i p rc) w = (r, w')" and "ob_leases (view w) i \<noteq> None"
  shows "r = None \<and> view w' = view w"
proof -
  obtain sid w1 where 1: "State_Monad.run_state (rt_new_uuid env) w = (sid, w1)" by force
  obtain ra w2 where 2: "State_Monad.run_state (ss_try_acquire_lease (sv_state_store env) i sid 30) w1 = (ra, w2)" by force
  have "view w1 = view w" using io_run_eq[OF quiet_uuid[unfolded quiet_def] 1] .
  with acquire_law[OF 2] assms(2) have "ra = Inr None \<and> view w2 = view w" by (auto split: option.splits)
  with 1 2 assms(1) show ?thesis by (simp add: start_coordinator_def)
qed

lemma start_effect:
  assumes start: "State_Monad.run_state (start_coordinator env i p rc) w = (r, w')"
    and free: "ob_leases (view w) i = None"
  shows "\<exists>d. r = Some d \<and> c_run_id d = i \<and> c_pipeline d = p \<and> c_run_context d = rc \<and>
    c_node_info_cache d = hm_collect (map (\<lambda>n. (ni_name n, n)) (pipeline_node_info p)) \<and>
    ob_leases (view w') i = Some (lease_of d) \<and> ob_reports (view w') = ob_reports (view w) \<and>
    (\<forall>j q. ob_open (view w) j q \<longrightarrow> ob_open (view w') j q) \<and>
    (case ob_runs (view w) i of
       Some st \<Rightarrow> c_run d = from_run_state st \<and> c_state_version d = rs_version st \<and> c_is_rehydrate d \<and>
         ob_runs (view w') = ob_runs (view w)
     | None \<Rightarrow> c_run d = pr_new (pipeline_node_info p) \<and> c_state_version d = 0 \<and> \<not> c_is_rehydrate d \<and>
         ob_runs (view w') = (ob_runs (view w))(i \<mapsto> to_run_state (pr_new (pipeline_node_info p)) 0 p))"
proof -
  let ?ps = "build_pipeline_start_record i p rc"
  obtain sid w1 where 1: "State_Monad.run_state (rt_new_uuid env) w = (sid, w1)" by force
  obtain ra w2 where 2: "State_Monad.run_state (ss_try_acquire_lease (sv_state_store env) i sid 30) w1 = (ra, w2)" by force
  obtain rp w3 where 3: "State_Monad.run_state (rh_record_pipeline_started (sv_run_history env) ?ps) w2 = (rp, w3)" by force
  obtain run v re w4 where 4: "State_Monad.run_state (initialize_run_state env i (pipeline_node_info p) p) w3 = ((run, v, re), w4)"
    by (cases "State_Monad.run_state (initialize_run_state env i (pipeline_node_info p) p) w3") auto
  obtain b w5 where 5: "State_Monad.run_state (dp_start_pod_watcher (sv_dispatcher env) i
      (map fst (filter (\<lambda>(_, s). s = Running) (pr_statuses run)))) w4 = (b, w5)" by force
  have v1: "view w1 = view w" using io_run_eq[OF quiet_uuid[unfolded quiet_def] 1] .
  have v5: "view w5 = view w4" using io_run_eq[OF quiet_start_watcher[unfolded quiet_def] 5] .
  from acquire_law[OF 2] free v1 obtain lv where ra: "ra = Inr (Some lv)"
    and v2: "view w2 = (view w)\<lparr>ob_leases := (ob_leases (view w))(i \<mapsto> \<lparr> ld_version = lv, ld_server_id = sid \<rparr>)\<rparr>"
    by auto
  from started_law[OF 3] v2 have v3: "view w3 = (view w2)\<lparr>ob_open := ob_open (view w3)\<rparr>"
    and open3: "\<forall>j q. ob_open (view w) j q \<longrightarrow> ob_open (view w3) j q" by auto
  have runs3: "ob_runs (view w3) = ob_runs (view w)" by (subst v3) (simp add: v2)
  have leases3: "ob_leases (view w3) i = Some \<lparr> ld_version = lv, ld_server_id = sid \<rparr>" by (subst v3) (simp add: v2)
  have reports3: "ob_reports (view w3) = ob_reports (view w)" by (subst v3) (simp add: v2)
  note init = initialize_effect[OF 4, unfolded runs3]
  have "r = Some \<lparr> c_run_id = i, c_run = run, c_pipeline = p,
      c_node_info_cache = hm_collect (map (\<lambda>n. (ni_name n, n)) (pipeline_node_info p)),
      c_node_phase_handles = [], c_state_version = v, c_lease_version = lv, c_server_id = sid, c_run_context = rc,
      c_watcher = b, c_is_rehydrate = re \<rparr>" "w' = w5" using start 1 2 3 4 5 ra by (simp_all add: start_coordinator_def Let_def)
  with init leases3 reports3 open3 runs3 show ?thesis by (auto simp: v5 lease_of_def split: option.splits)
qed

lemma start_synced:
  assumes start: "State_Monad.run_state (start_coordinator env i p rc) w = (r, w')"
    and free: "ob_leases (view w) i = None" and "open": "ob_open (view w) i (rc_retry_of rc)"
    and wf: "\<And>st. ob_runs (view w) i = Some st \<Longrightarrow> pr_wf (from_run_state st)"
  shows "\<exists>d. r = Some d \<and> synced view d (ob_reports (view w)) (d, w') \<and>
    c_run_id d = i \<and> c_pipeline d = p \<and> c_run_context d = rc \<and>
    c_node_info_cache d = hm_collect (map (\<lambda>n. (ni_name n, n)) (pipeline_node_info p)) \<and>
    (case ob_runs (view w) i of
       Some st \<Rightarrow> c_run d = from_run_state st \<and> c_state_version d = rs_version st \<and> c_is_rehydrate d
     | None \<Rightarrow> c_run d = pr_new (pipeline_node_info p) \<and> c_state_version d = 0 \<and> \<not> c_is_rehydrate d)"
proof -
  from start_effect[OF start free] obtain d where d: "r = Some d" "c_run_id d = i" "c_pipeline d = p" "c_run_context d = rc"
      "c_node_info_cache d = hm_collect (map (\<lambda>n. (ni_name n, n)) (pipeline_node_info p))"
      "ob_leases (view w') i = Some (lease_of d)" "ob_reports (view w') = ob_reports (view w)"
      "ob_open (view w') i (rc_retry_of rc)"
    and run: "case ob_runs (view w) i of
       Some st \<Rightarrow> c_run d = from_run_state st \<and> c_state_version d = rs_version st \<and> c_is_rehydrate d \<and>
         ob_runs (view w') = ob_runs (view w)
     | None \<Rightarrow> c_run d = pr_new (pipeline_node_info p) \<and> c_state_version d = 0 \<and> \<not> c_is_rehydrate d \<and>
         ob_runs (view w') = (ob_runs (view w))(i \<mapsto> to_run_state (pr_new (pipeline_node_info p)) 0 p)"
    using "open" by blast
  from run d wf pr_new_wf to_from_run_state[OF pr_new_wf] have "synced view d (ob_reports (view w)) (d, w')"
    by (auto simp: synced_def owning_def lease_of_def ob_version_def to_run_state_def split: option.splits)
  with d run show ?thesis by (auto split: option.splits)
qed

end

end
