(* ===== verification/Simulation.thy ===== *)
theory Simulation
  imports Recovery
begin

text \<open>
  A closed system: a coordinator on the in-memory state store and backplane, the history database
  and the log dispatcher, as the repository's own tests assemble it. One world holds the state of
  all services; \<open>sim_env\<close> gives the coordinator the operations on its parts. The locales that say
  what the coordinator relies on are interpreted here, and the properties of whole runs are
  stated.
\<close>

section \<open>The world\<close>

record sim_world =
  sim_store :: in_memory_state_store
  sim_backplane :: in_memory_backplane
  sim_history :: postgres
  sim_reports :: "run_status list"
  sim_dispatched :: "string list"
  sim_clock :: nat
  sim_uuids :: nat

definition on_store :: "(in_memory_state_store, 'a) state \<Rightarrow> (sim_world, 'a) state" where
  "on_store m = zoom sim_store (\<lambda>s w. w\<lparr>sim_store := s\<rparr>) m"

definition on_backplane :: "(in_memory_backplane, 'a) state \<Rightarrow> (sim_world, 'a) state" where
  "on_backplane m = zoom sim_backplane (\<lambda>s w. w\<lparr>sim_backplane := s\<rparr>) m"

definition on_history :: "(postgres, 'a) state \<Rightarrow> (sim_world, 'a) state" where
  "on_history m = zoom sim_history (\<lambda>s w. w\<lparr>sim_history := s\<rparr>) m"

definition sim_state_store :: "sim_world state_store_ops" where
  "sim_state_store =
    \<lparr> ss_save_run = (\<lambda>i s v. on_store (ss_save_run mem_state_store i s v)),
      ss_load_run = (\<lambda>i. on_store (ss_load_run mem_state_store i)),
      ss_delete_run = (\<lambda>i. on_store (ss_delete_run mem_state_store i)),
      ss_try_acquire_lease = (\<lambda>i sid ttl. on_store (ss_try_acquire_lease mem_state_store i sid ttl)),
      ss_renew_lease = (\<lambda>i sid v ttl. on_store (ss_renew_lease mem_state_store i sid v ttl)),
      ss_release_lease = (\<lambda>i. on_store (ss_release_lease mem_state_store i)),
      ss_get_orphaned_runs = on_store (ss_get_orphaned_runs mem_state_store),
      ss_list_terminal_unleased_runs = on_store (ss_list_terminal_unleased_runs mem_state_store),
      ss_ping = on_store (ss_ping mem_state_store) \<rparr>"

definition sim_backplane_ops :: "sim_world backplane_ops" where
  "sim_backplane_ops =
    \<lparr> bp_publish_node_completed = (\<lambda>i n ok. on_backplane (bp_publish_node_completed in_memory_backplane_ops i n ok)),
      bp_publish_cancel = (\<lambda>i. on_backplane (bp_publish_cancel in_memory_backplane_ops i)),
      bp_ping = on_backplane (bp_ping in_memory_backplane_ops),
      bp_subscribe_run = (\<lambda>i. on_backplane (bp_subscribe_run in_memory_backplane_ops i)),
      bp_next_event = (\<lambda>r. on_backplane (bp_next_event in_memory_backplane_ops r)) \<rparr>"

definition sim_run_history :: "(string \<Rightarrow> string + uuid) \<Rightarrow> sim_world run_history_ops" where
  "sim_run_history uuid_parse =
    (let h = postgres_run_history uuid_parse id in
     \<lparr> rh_record_pipeline_started = (\<lambda>r. on_history (rh_record_pipeline_started h r)),
      rh_record_pipeline_run = (\<lambda>r. on_history (rh_record_pipeline_run h r)),
      rh_finalize_pipeline_run_status = (\<lambda>i st t. on_history (rh_finalize_pipeline_run_status h i st t)),
      rh_list_in_progress_runs = on_history (rh_list_in_progress_runs h),
      rh_record_node_dispatched = (\<lambda>r. on_history (rh_record_node_dispatched h r)),
      rh_record_node_run = (\<lambda>r. on_history (rh_record_node_run h r)),
      rh_list_pipeline_runs = (\<lambda>q. on_history (rh_list_pipeline_runs h q)),
      rh_count_pipeline_runs = (\<lambda>f. on_history (rh_count_pipeline_runs h f)),
      rh_get_pipeline_run = (\<lambda>i. on_history (rh_get_pipeline_run h i)),
      rh_list_originating_runs_for_sha = (\<lambda>a b c d. on_history (rh_list_originating_runs_for_sha h a b c d)),
      rh_list_node_runs = (\<lambda>i. on_history (rh_list_node_runs h i)),
      rh_get_node_run = (\<lambda>i n. on_history (rh_get_node_run h i n)),
      rh_get_node_log = (\<lambda>i n. on_history (rh_get_node_log h i n)),
      rh_ping = on_history (rh_ping h) \<rparr>)"

text \<open>The log dispatcher; the world notes the name of every node that is dispatched.\<close>

definition sim_dispatcher :: "sim_world dispatcher_ops" where
  "sim_dispatcher = (log_dispatcher sim_backplane_ops)
    \<lparr>dp_dispatch := (\<lambda>run_id md n p cfg. do {
      r \<leftarrow> log_dispatch sim_backplane_ops run_id md n p cfg;
      State (\<lambda>w. (r, w\<lparr>sim_dispatched := sim_dispatched w @ [ni_name n]\<rparr>))
    })\<rparr>"

definition sim_now :: "(sim_world, nat) state" where
  "sim_now = State (\<lambda>w. (sim_clock w, w\<lparr>sim_clock := sim_clock w + 1\<rparr>))"

definition sim_env :: "app_config \<Rightarrow> (string \<Rightarrow> string + uuid) \<Rightarrow> sim_world coordinator_env" where
  "sim_env cfg uuid_parse =
    \<lparr> sv_config = cfg, sv_dispatcher = sim_dispatcher, sv_state_store = sim_state_store,
      sv_backplane = sim_backplane_ops, sv_run_history = sim_run_history uuid_parse,
      sv_report_completed = Some (\<lambda>st. State (\<lambda>w. ((), w\<lparr>sim_reports := sim_reports w @ [st]\<rparr>))),
      rt_now = do { t \<leftarrow> sim_now; State_Monad.return (int t * 1000000000) },
      rt_now_ms = do { t \<leftarrow> sim_now; State_Monad.return (of_nat (t * 1000)) },
      rt_new_uuid = State (\<lambda>w. (''server-'' @ show_nat (sim_uuids w), w\<lparr>sim_uuids := sim_uuids w + 1\<rparr>)),
      rt_watcher_send = (\<lambda>_. State_Monad.return False),
      rt_within_budget = State_Monad.return True,
      rt_node_json = (\<lambda>_. None),
      rt_from_timestamp = (\<lambda>secs nanos. Some (secs * 1000000000 + int nanos)) \<rparr>"

section \<open>What the world shows\<close>

definition finished_row :: "uuid \<Rightarrow> pipeline_run_row list \<Rightarrow> run_status option" where
  "finished_row u rows =
    (case find (\<lambda>row. row_run_id row = u) rows of
       Some row \<Rightarrow> if row_completed_at row = None then None else Some (row_status row)
     | None \<Rightarrow> None)"

definition finished_run :: "(string \<Rightarrow> string + uuid) \<Rightarrow> postgres \<Rightarrow> string \<Rightarrow> run_status option" where
  "finished_run uuid_parse db i =
    (case uuid_parse i of Inl _ \<Rightarrow> None | Inr u \<Rightarrow> finished_row u (pg_pipeline_runs db))"

definition accepts_run :: "(string \<Rightarrow> string + uuid) \<Rightarrow> postgres \<Rightarrow> string \<Rightarrow> string option \<Rightarrow> bool" where
  "accepts_run uuid_parse db i q \<longleftrightarrow> pg_down db = None \<and>
    (case uuid_parse i of
       Inl _ \<Rightarrow> False
     | Inr u \<Rightarrow>
        (case parse_retry_of uuid_parse q of
           Inl _ \<Rightarrow> False
         | Inr None \<Rightarrow> True
         | Inr (Some orig) \<Rightarrow> run_present u db \<or> orig = u \<or> run_present orig db))"

definition sim_view :: "(string \<Rightarrow> string + uuid) \<Rightarrow> sim_world \<Rightarrow> observed" where
  "sim_view uuid_parse w =
    \<lparr> ob_runs = hm_get (mem_runs (sim_store w)), ob_leases = hm_get (mem_leases (sim_store w)),
      ob_reports = sim_reports w,
      ob_rows = finished_run uuid_parse (sim_history w),
      ob_open = accepts_run uuid_parse (sim_history w) \<rparr>"

lemmas sim_defs = sim_env_def sim_dispatcher_def sim_state_store_def sim_backplane_ops_def sim_run_history_def
  on_store_def on_backplane_def on_history_def Let_def mem_state_store_def in_memory_backplane_ops_def
  postgres_run_history_def log_dispatcher_def log_dispatch_def sim_now_def

lemma quietI: "(\<And>w r w'. State_Monad.run_state m w = (r, w') \<Longrightarrow> view w' = view w) \<Longrightarrow> quiet view m"
  by (simp add: quiet_def state_io_rel_def) (metis prod.collapse)

lemma default_read_quiet:
  "(\<And>i n. quiet view (get_outcome i n)) \<Longrightarrow> quiet view (default_read_outcomes get_outcome i out ns)"
proof (induction ns arbitrary: out)
  case Nil
  then show ?case by (auto intro: quietI)
next
  case (Cons n ns)
  have pre: "io_pre (\<lambda>w w'. view w' = view w)" by (simp add: io_pre_def)
  show ?case
    using Cons by (auto simp: quiet_def Let_def intro!: io_bind[OF pre])
qed

section \<open>The contracts hold\<close>

text \<open>Only the node table changes when nodes are recorded.\<close>

lemma upsert_node_runs:
  "upsert_node row upd db = (r, db') \<Longrightarrow> pg_pipeline_runs db' = pg_pipeline_runs db \<and> pg_down db' = pg_down db"
  by (auto simp: upsert_node_def Let_def split: if_splits)

lemma pg_node_ops_keep_runs:
  "State_Monad.run_state (pg_record_node_run up nr) db = (r, db') \<Longrightarrow>
    pg_pipeline_runs db' = pg_pipeline_runs db \<and> pg_down db' = pg_down db"
  "State_Monad.run_state (pg_record_node_dispatched up nd) db = (r, db') \<Longrightarrow>
    pg_pipeline_runs db' = pg_pipeline_runs db \<and> pg_down db' = pg_down db"
  by (auto simp: pg_record_node_run_def pg_record_node_dispatched_def query_def
      split: sum.splits option.splits dest: upsert_node_runs)

lemma sim_view_history:
  "\<lbrakk> pg_pipeline_runs db' = pg_pipeline_runs (sim_history w); pg_down db' = pg_down (sim_history w) \<rbrakk> \<Longrightarrow>
    sim_view up (w\<lparr>sim_history := db'\<rparr>) = sim_view up w"
  by (simp add: sim_view_def finished_run_def accepts_run_def run_present_def fun_eq_iff split: sum.splits option.splits)

lemma pg_get_node_run_pure: "State_Monad.run_state (pg_get_node_run up i n) db = (r, db') \<Longrightarrow> db' = db"
  by (auto simp: pg_get_node_run_def query_def split: sum.splits option.splits)

interpretation sim_neutral: services_neutral "sim_env cfg up" "sim_view up" for cfg up
proof
  fix nr nd i nm
  let ?h = "sv_run_history (sim_env cfg up)"
  show "quiet (sim_view up) (rh_record_node_run ?h nr)"
    by (rule quietI) (auto simp: sim_defs split: prod.splits intro!: sim_view_history dest: pg_node_ops_keep_runs)
  show "quiet (sim_view up) (rh_record_node_dispatched ?h nd)"
    by (rule quietI) (auto simp: sim_defs split: prod.splits intro!: sim_view_history dest: pg_node_ops_keep_runs)
  show "quiet (sim_view up) (rh_get_node_run ?h i nm)"
    by (rule quietI) (auto simp: sim_defs split: prod.splits dest: pg_get_node_run_pure)
  show "quiet (sim_view up) (dp_read_outcomes (sv_dispatcher (sim_env cfg up)) i nms)" for nms
    by (simp add: sim_defs) (intro default_read_quiet quietI, simp)
qed (rule quietI, auto simp: sim_defs sim_view_def mem_renew_lease_def ib_subscribe_run_def split: prod.splits)+

interpretation sim_log: dispatch_log "sim_env cfg up" sim_dispatched for cfg up
proof
  show "quiet sim_dispatched (dp_read_outcomes (sv_dispatcher (sim_env cfg up)) i nms)" for i nms
    by (simp add: sim_defs) (intro default_read_quiet quietI, simp)
qed (rule quietI, auto simp: sim_defs split: prod.splits)+

text \<open>Recording a run: rows are only added, and the row of the run gets the status.\<close>

definition grows :: "postgres \<Rightarrow> postgres \<Rightarrow> bool" where
  "grows db db' \<longleftrightarrow> pg_down db' = pg_down db \<and> (\<forall>u. run_present u db \<longrightarrow> run_present u db')"

lemma run_present_ids: "run_present u db \<longleftrightarrow> u \<in> set (map row_run_id (pg_pipeline_runs db))"
  by (auto simp: run_present_def list_ex_iff)

lemma upsert_run_grows:
  assumes "upsert_run row upd db = (r, db')" and "\<And>x. row_run_id (upd x) = row_run_id x"
  shows "grows db db'"
proof -
  have "map row_run_id (map (\<lambda>x. if row_run_id x = row_run_id row then upd x else x) xs) = map row_run_id xs" for xs
    using assms(2) by simp
  moreover have "db' = db \<or> pg_pipeline_runs db' = pg_pipeline_runs db @ [row] \<and> pg_down db' = pg_down db \<or>
      pg_pipeline_runs db' = map (\<lambda>x. if row_run_id x = row_run_id row then upd x else x) (pg_pipeline_runs db) \<and>
      pg_down db' = pg_down db"
    using assms(1) by (auto simp: upsert_run_def split: if_splits)
  ultimately show ?thesis by (elim disjE) (simp_all only: grows_def run_present_ids, auto)
qed

lemma accepts_run_mono: "grows db db' \<Longrightarrow> accepts_run up db i q \<Longrightarrow> accepts_run up db' i q"
  by (auto simp: accepts_run_def grows_def split: sum.splits option.splits)

lemma find_map_upd:
  "(\<And>x. row_run_id (upd x) = row_run_id x) \<Longrightarrow>
    find (\<lambda>x. row_run_id x = u) (map (\<lambda>x. if row_run_id x = v then upd x else x) xs) =
      map_option (\<lambda>x. if u = v then upd x else x) (find (\<lambda>x. row_run_id x = u) xs)"
  by (induction xs) auto

lemma find_append: "find P (xs @ ys) = (case find P xs of None \<Rightarrow> find P ys | Some x \<Rightarrow> Some x)"
  by (induction xs) auto

lemma find_present: "run_present u db \<longleftrightarrow> find (\<lambda>row. row_run_id row = u) (pg_pipeline_runs db) \<noteq> None"
  by (auto simp: run_present_def list_ex_iff find_None_iff)

lemma record_run_effect:
  assumes "State_Monad.run_state (pg_record_pipeline_run up pr) db = (r, db')"
  shows "grows db db' \<and> (accepts_run up db (ps_run_id pr) (ps_retry_of pr) \<and> pe_completed_at pr \<noteq> None \<longrightarrow>
      finished_run up db' (ps_run_id pr) = Some (pe_status pr))"
proof (cases "pg_down db = None \<and> (\<exists>u retry. up (ps_run_id pr) = Inr u \<and> parse_retry_of up (ps_retry_of pr) = Inr retry)")
  case True
  then obtain v retry where v: "up (ps_run_id pr) = Inr v" "parse_retry_of up (ps_retry_of pr) = Inr retry"
    and down: "pg_down db = None" by auto
  let ?row = "row_of_start v retry (pe_status pr) (pe_completed_at pr) pr"
  let ?upd = "\<lambda>x. x\<lparr>row_status := pe_status pr, row_completed_at := pe_completed_at pr\<rparr>"
  from assms v down have up: "upsert_run ?row ?upd db = (r, db')"
    by (simp add: pg_record_pipeline_run_def query_def parse_run_id_def)
  have row: "row_run_id ?row = v" "row_retry_of ?row = retry" "row_status ?row = pe_status pr"
      "row_completed_at ?row = pe_completed_at pr" by (simp_all add: row_of_start_def)
  have "finished_run up db' (ps_run_id pr) = Some (pe_status pr)"
    if "accepts_run up db (ps_run_id pr) (ps_retry_of pr)" "pe_completed_at pr \<noteq> None"
    using up that v row find_present[of v db]
    by (auto simp: upsert_run_def finished_run_def finished_row_def accepts_run_def find_map_upd find_append
        split: if_splits option.splits)
  with upsert_run_grows[OF up] show ?thesis by simp
next
  case False
  with assms show ?thesis
    by (auto simp: pg_record_pipeline_run_def query_def parse_run_id_def accepts_run_def grows_def split: sum.splits option.splits)
qed

lemma record_started_effect:
  assumes "State_Monad.run_state (pg_record_pipeline_started up ps) db = (r, db')"
  shows "grows db db' \<and> finished_run up db' = finished_run up db"
proof (cases "pg_down db = None \<and> (\<exists>u retry. up (ps_run_id ps) = Inr u \<and> parse_retry_of up (ps_retry_of ps) = Inr retry)")
  case True
  then obtain v retry where v: "up (ps_run_id ps) = Inr v" "parse_retry_of up (ps_retry_of ps) = Inr retry"
    and down: "pg_down db = None" by auto
  let ?row = "row_of_start v retry InProgress None ps"
  let ?upd = "\<lambda>x. x\<lparr>row_github_check_run_id :=
      (case row_github_check_run_id x of Some c \<Rightarrow> Some c | None \<Rightarrow> ps_github_check_run_id ps)\<rparr>"
  from assms v down have up: "upsert_run ?row ?upd db = (r, db')"
    by (simp add: pg_record_pipeline_started_def query_def parse_run_id_def)
  have row: "row_run_id ?row = v" "row_completed_at ?row = None" by (simp_all add: row_of_start_def)
  have "finished_row u (pg_pipeline_runs db') = finished_row u (pg_pipeline_runs db)" for u
    using up row find_present[of v db]
    by (auto simp: upsert_run_def finished_row_def find_map_upd find_append split: if_splits option.splits)
  then have "finished_run up db' = finished_run up db" by (simp add: finished_run_def fun_eq_iff split: sum.splits)
  with upsert_run_grows[OF up] show ?thesis by simp
next
  case False
  with assms show ?thesis
    by (auto simp: pg_record_pipeline_started_def query_def parse_run_id_def grows_def split: sum.splits option.splits)
qed

interpretation sim_run: start_services "sim_env cfg up" "sim_view up" for cfg up
proof
  fix w w' i
  let ?e = "sim_env cfg up" and ?v = "sim_view up"
  show "quiet ?v (dp_dispatch (sv_dispatcher ?e) i md n p c)" for md n p c
    by (rule quietI) (auto simp: sim_defs sim_view_def split: prod.splits)
  show "State_Monad.run_state (ss_save_run (sv_state_store ?e) i st v) w = (r, w') \<Longrightarrow>
      if ob_version (?v w) i = v
      then r = Inr True \<and> ?v w' = (?v w)\<lparr>ob_runs := (ob_runs (?v w))(i \<mapsto> st)\<rparr>
      else r = Inr False \<and> ?v w' = ?v w" for st v r
    by (auto simp: sim_defs sim_view_def mem_save_run_def ob_version_def fun_eq_iff split: prod.splits option.splits if_splits)
  show "State_Monad.run_state (ss_try_acquire_lease (sv_state_store ?e) i sid ttl) w = (ra, w') \<Longrightarrow>
      (case ob_leases (?v w) i of
         None \<Rightarrow> \<exists>v. ra = Inr (Some v) \<and>
           ?v w' = (?v w)\<lparr>ob_leases := (ob_leases (?v w))(i \<mapsto> \<lparr> ld_version = v, ld_server_id = sid \<rparr>)\<rparr>
       | Some l \<Rightarrow> ra = Inr None \<and> ?v w' = ?v w)" for sid ttl ra
    by (auto simp: sim_defs sim_view_def mem_try_acquire_lease_def hm_contains_key_get fun_eq_iff
        split: prod.splits option.splits if_splits)
  show "State_Monad.run_state (ss_renew_lease (sv_state_store ?e) i sid v ttl) w = (r, w') \<Longrightarrow>
      r = Inr (ob_leases (?v w) i = Some \<lparr> ld_version = v, ld_server_id = sid \<rparr>)" for sid v ttl r
    by (auto simp: sim_defs sim_view_def mem_renew_lease_def split: option.splits)
  show "?v w' = (?v w)\<lparr>ob_reports := ob_reports (?v w) @ [status]\<rparr>"
    if "sv_report_completed ?e = Some report" "State_Monad.run_state (report status) w = (u, w')" for report status u
  proof -
    from that(1) have "report = (\<lambda>st. State (\<lambda>w. ((), w\<lparr>sim_reports := sim_reports w @ [st]\<rparr>)))"
      by (simp add: sim_env_def)
    with that(2) show ?thesis by (auto simp: sim_view_def)
  qed
  show "State_Monad.run_state (rh_record_pipeline_run (sv_run_history ?e) pr) w = (rh, w') \<Longrightarrow>
      ob_open (?v w) (ps_run_id pr) (ps_retry_of pr) \<Longrightarrow> pe_completed_at pr = Some now \<Longrightarrow>
      ob_rows (?v w') (ps_run_id pr) = Some (pe_status pr) \<and>
      ?v w' = (?v w)\<lparr>ob_rows := ob_rows (?v w'), ob_open := ob_open (?v w')\<rparr> \<and>
      (\<forall>i q. ob_open (?v w) i q \<longrightarrow> ob_open (?v w') i q)" for pr rh now
    by (auto simp: sim_defs sim_view_def split: prod.splits dest!: record_run_effect intro: accepts_run_mono)
  show "State_Monad.run_state (rh_record_pipeline_started (sv_run_history ?e) ps) w = (rp, w') \<Longrightarrow>
      ?v w' = (?v w)\<lparr>ob_open := ob_open (?v w')\<rparr> \<and> (\<forall>i q. ob_open (?v w) i q \<longrightarrow> ob_open (?v w') i q)" for ps rp
    by (auto simp: sim_defs sim_view_def split: prod.splits dest!: record_started_effect intro: accepts_run_mono)
qed ((rule quietI)?, auto simp: sim_defs sim_view_def mem_delete_run_def mem_release_lease_def mem_load_run_def
    ib_subscribe_run_def fun_eq_iff split: prod.splits)+

section \<open>Whole runs\<close>

text \<open>A run that is not in the store and that no server holds.\<close>

definition fresh_run :: "('w \<Rightarrow> observed) \<Rightarrow> string \<Rightarrow> run_context \<Rightarrow> 'w \<Rightarrow> bool" where
  "fresh_run view i rc w \<longleftrightarrow> ob_leases (view w) i = None \<and> ob_runs (view w) i = None \<and>
    ob_open (view w) i (rc_retry_of rc)"

lemma started_run_post:
  assumes "start_services env view" and "fresh_run view i rc w"
    and "State_Monad.run_state (start_coordinator env i p rc) w = (Some c, w1)"
    and "State_Monad.run_state (coordinator_run env events) (c, w1) = (r, (c', w2))"
  shows "run_post view c (ob_reports (view w)) r (c', w2) \<and> c_run_id c = i \<and> c_pipeline c = p \<and> c_run_context c = rc"
proof -
  from start_services.start_synced[OF assms(1,3)] assms(2)
  have c: "synced view c (ob_reports (view w)) (c, w1)" "c_run_id c = i" "c_pipeline c = p" "c_run_context c = rc"
    by (auto simp: fresh_run_def)
  from hoareD[OF run_services.coordinator_run_post[OF start_services.axioms(1)[OF assms(1)]] c(1) assms(4)] c(2-)
  show ?thesis by simp
qed

section \<open>Properties\<close>



text \<open>
  Claim C22. One coordinator per run: while any server holds the lease of a run, starting another
  coordinator for it is refused and changes neither the stored state nor the lease.
\<close>

theorem second_start_refused:
  assumes "start_services env view" and "ob_leases (view w) i \<noteq> None"
    and "State_Monad.run_state (start_coordinator env i p rc) w = (r, w')"
  shows "r = None \<and> view w' = view w"
  using start_services.start_refused[OF assms(1,3,2)] .

section \<open>Witnesses\<close>

text \<open>A pipeline of two nodes, the second after the first, on an empty world.\<close>

definition demo_context :: run_context where
  "demo_context =
    \<lparr> rc_owner = ''o'', rc_repo = ''r'', rc_sha = ''s'', rc_branch = None, rc_target_branch = None, rc_tag = None,
      rc_pr_number = None, rc_trigger = ''push'', rc_pipeline_yaml = [], rc_created_at = 0, rc_retry_of = None,
      rc_tenant_slug = None, rc_github_check_run_id = None \<rparr>"

definition demo_world :: sim_world where
  "demo_world =
    \<lparr> sim_store = mem_new, sim_backplane = ib_new, sim_history = demo_db, sim_reports = [], sim_dispatched = [],
      sim_clock = 0, sim_uuids = 0 \<rparr>"

definition demo_env :: "sim_world coordinator_env" where
  "demo_env = sim_env default_config (\<lambda>_. Inr 7)"

definition demo_pl :: pipeline where
  "demo_pl = plain_pipeline [plain_node ''a'' [], plain_node ''b'' [''a'']]"

definition demo_started :: "coordinator option \<times> sim_world" where
  "demo_started = State_Monad.run_state (start_coordinator demo_env ''r'' demo_pl demo_context) demo_world"

definition demo_crashed :: "run_summary option \<times> coordinator \<times> sim_world" where
  "demo_crashed = State_Monad.run_state (coordinator_run demo_env [])
    (the (fst demo_started), snd demo_started)"

definition demo_ended :: "run_summary option \<times> coordinator \<times> sim_world" where
  "demo_ended = State_Monad.run_state (coordinator_run demo_env
      [BackplaneMessage (Some (NodeCompleted ''a'' True)), HeartbeatTick, BackplaneMessage (Some (NodeCompleted ''b'' True))])
    (the (fst demo_started), snd demo_started)"

definition demo_restarted :: "coordinator option \<times> sim_world" where
  "demo_restarted = State_Monad.run_state (start_coordinator demo_env ''r'' demo_pl demo_context)
    ((snd (snd demo_crashed))\<lparr>sim_store := (sim_store (snd (snd demo_crashed)))\<lparr>mem_leases := []\<rparr>\<rparr>)"

lemma demo_services: "start_services demo_env (sim_view (\<lambda>_. Inr 7))"
  unfolding demo_env_def by (rule sim_run.start_services_axioms)

lemma demo_fresh: "fresh_run (sim_view (\<lambda>_. Inr 7)) ''r'' demo_context demo_world"
  by (simp add: fresh_run_def sim_view_def demo_world_def mem_new_def accepts_run_def demo_context_def
      parse_retry_of_def)

lemma demo_started_eq:
  "State_Monad.run_state (start_coordinator demo_env ''r'' demo_pl demo_context) demo_world =
    (Some (the (fst demo_started)), snd demo_started)"
proof -
  have "fst demo_started \<noteq> None" by code_simp
  then show ?thesis by (metis demo_started_def option.collapse prod.collapse)
qed

lemma demo_crashed_eq:
  "State_Monad.run_state (coordinator_run demo_env []) (the (fst demo_started), snd demo_started) =
    (None, (fst (snd demo_crashed), snd (snd demo_crashed)))"
proof -
  have "fst demo_crashed = None" by code_simp
  then show ?thesis by (metis demo_crashed_def prod.collapse)
qed



theorem second_start_refused_witness:
  "fst (State_Monad.run_state (start_coordinator demo_env ''r'' demo_pl demo_context) (snd demo_started)) = None"
proof -
  have "hm_get (mem_leases (sim_store (snd demo_started))) ''r'' \<noteq> None" by code_simp
  then have "ob_leases (sim_view (\<lambda>_. Inr 7) (snd demo_started)) ''r'' \<noteq> None" by (simp add: sim_view_def)
  from second_start_refused[OF demo_services this, of demo_pl demo_context] show ?thesis
    by (metis prod.collapse)
qed

text \<open>Witnesses of the properties that hold for every implementation of the services.\<close>

theorem coordinator_dispatch_discipline_witness:
  "sim_dispatched (snd (snd demo_ended)) = [''a'', ''b''] \<and> advances (c_run (the (fst demo_started))) (c_run (fst (snd demo_ended)))"
proof -
  have log: "dispatch_log demo_env sim_dispatched" unfolding demo_env_def by (rule sim_log.dispatch_log_axioms)
  have ok: "coord_ok (the (fst demo_started))"
  proof -
    from start_services.start_synced[OF demo_services demo_started_eq] demo_fresh
    have "synced (sim_view (\<lambda>_. Inr 7)) (the (fst demo_started)) [] (the (fst demo_started), snd demo_started)"
      and cache: "c_node_info_cache (the (fst demo_started)) = hm_collect (map (\<lambda>n. (ni_name n, n)) (pipeline_node_info demo_pl))"
      by (auto simp: fresh_run_def sim_view_def demo_world_def)
    moreover have "ni_name n = k" if "hm_get (hm_collect (map (\<lambda>n. (ni_name n, n)) xs)) k = Some n" for k n xs
      using map_of_SomeD[OF that[unfolded hm_get_collect]] by auto
    ultimately show ?thesis by (auto simp: coord_ok_def synced_def owning_def)
  qed
  have "State_Monad.run_state (coordinator_run demo_env
      [BackplaneMessage (Some (NodeCompleted ''a'' True)), HeartbeatTick, BackplaneMessage (Some (NodeCompleted ''b'' True))])
      (the (fst demo_started), snd demo_started) = (fst demo_ended, (fst (snd demo_ended), snd (snd demo_ended)))"
    by (simp add: demo_ended_def)
  from coordinator_dispatch_discipline[OF log ok this]
  have "advances (c_run (the (fst demo_started))) (c_run (fst (snd demo_ended)))" by blast
  moreover have "sim_dispatched (snd (snd demo_ended)) = [''a'', ''b'']" by code_simp
  ultimately show ?thesis by simp
qed

theorem lost_lease_stops_quietly_witness:
  "fst (State_Monad.run_state (coord_loop demo_env [HeartbeatTick, PipelineDeadline]) (the (fst demo_started), demo_world)) =
    Some (summary_of RunFailure (the (fst demo_started)))"
proof -
  let ?c = "the (fst demo_started)"
  have "fst (State_Monad.run_state (ss_renew_lease (sv_state_store demo_env) (c_run_id ?c) (c_server_id ?c)
      (c_lease_version ?c) 30) demo_world) \<noteq> Inr True" by code_simp
  then show ?thesis
    using lost_lease_stops_quietly[of demo_env ?c demo_world _ _ "[PipelineDeadline]"] by (metis fst_conv prod.collapse)
qed

theorem stopped_run_cancels_no_node_witness:
  "fst (State_Monad.run_state (fail_run demo_env RunCancelled) (the (fst demo_started), snd demo_started)) =
    fst (State_Monad.run_state (do {
      finalize_run demo_env RunCancelled;
      coord_cleanup demo_env;
      modify_c (\<lambda>c. c\<lparr>c_node_phase_handles := []\<rparr>);
      shutdown_pod_watcher demo_env;
      c \<leftarrow> get_c;
      State_Monad.return (summary_of RunCancelled c)
    }) (the (fst demo_started), snd demo_started))"
proof -
  from start_services.start_synced[OF demo_services demo_started_eq] demo_fresh
  have "pr_wf (c_run (the (fst demo_started)))" by (auto simp: fresh_run_def synced_def owning_def)
  from stopped_run_cancels_no_node[OF this, of demo_env RunCancelled "snd demo_started"] show ?thesis
    by (simp only: )
qed

end
