(* ===== verification/Reaper.thy ===== *)
theory Reaper
  imports Recovery
begin

text \<open>
  The reaper, \<open>src/coordinator/src/reaper.rs\<close>: it resumes runs whose server stopped, closes runs
  that ended without being recorded, rebuilds runs whose state was lost from the history, and
  removes what is left in the cluster. A coordinator that it starts runs as a task of its own: it
  is part of the result here. The ticks of its two intervals are a sequence, as for the
  coordinator.
\<close>

section \<open>Operations\<close>

text \<open>
  What the reaper has beside the services of a coordinator: the factory of reporters, the YAML
  parser, and the text of a UUID.
\<close>

type_synonym 'w reporter = "run_status \<Rightarrow> ('w, unit) state"

record 'w reaper_env =
  rp_reporter_factory :: "(run_context \<Rightarrow> ('w, 'w reporter option) state) option"
  rp_yaml :: "string \<Rightarrow> string + pipeline"
  rp_uuid_to_string :: "uuid \<Rightarrow> string"

type_synonym 'w task = "coordinator \<times> 'w reporter option"

text \<open>The loop over runs, with the tasks that its iterations start.\<close>

fun collect_M :: "('a \<Rightarrow> ('w, 'b list) state) \<Rightarrow> 'a list \<Rightarrow> ('w, 'b list) state" where
  "collect_M f [] = State_Monad.return []"
| "collect_M f (x # xs) = do { ys \<leftarrow> f x; zs \<leftarrow> collect_M f xs; State_Monad.return (ys @ zs) }"

definition run_context_from_row :: "'w reaper_env \<Rightarrow> pipeline_run_row \<Rightarrow> run_context" where
  "run_context_from_row rp row =
    \<lparr> rc_owner = row_owner row, rc_repo = row_repo row, rc_sha = row_sha row, rc_branch = row_branch row,
      rc_target_branch = row_target_branch row, rc_tag = row_tag row, rc_pr_number = row_pr_number row,
      rc_trigger = row_trigger row, rc_pipeline_yaml = row_pipeline_definition row,
      rc_created_at = row_created_at row, rc_retry_of = map_option (rp_uuid_to_string rp) (row_retry_of row),
      rc_tenant_slug = row_tenant_slug row, rc_github_check_run_id = row_github_check_run_id row \<rparr>"

definition reporter_for :: "'w reaper_env \<Rightarrow> run_context \<Rightarrow> ('w, 'w reporter option) state" where
  "reporter_for rp rc =
    (case rp_reporter_factory rp of Some factory \<Rightarrow> factory rc | None \<Rightarrow> State_Monad.return None)"

text \<open>The services with this reporter, handed to \<open>start_coordinator\<close>.\<close>

definition resume_run ::
  "'w coordinator_env \<Rightarrow> 'w reaper_env \<Rightarrow> string \<Rightarrow> pipeline \<Rightarrow> run_context \<Rightarrow> ('w, 'w task list) state" where
  "resume_run env rp run_id p rc = do {
    reporter \<leftarrow> reporter_for rp rc;
    c \<leftarrow> start_coordinator (env\<lparr>sv_report_completed := reporter\<rparr>) run_id p rc;
    State_Monad.return (case c of Some c \<Rightarrow> [(c, reporter)] | None \<Rightarrow> [])
  }"

definition finalize_unrecoverable_orphan :: "'w coordinator_env \<Rightarrow> string \<Rightarrow> ('w, unit) state" where
  "finalize_unrecoverable_orphan env run_id = do {
    _ \<leftarrow> dp_cleanup_run (sv_dispatcher env) run_id;
    _ \<leftarrow> ss_release_lease (sv_state_store env) run_id;
    _ \<leftarrow> ss_delete_run (sv_state_store env) run_id;
    State_Monad.return ()
  }"

definition reclaim_orphan :: "'w coordinator_env \<Rightarrow> 'w reaper_env \<Rightarrow> string \<Rightarrow> ('w, 'w task list) state" where
  "reclaim_orphan env rp run_id = do {
    first \<leftarrow> ss_load_run (sv_state_store env) run_id;
    (case first of
       Inr (Some _) \<Rightarrow> do {
         row \<leftarrow> rh_get_pipeline_run (sv_run_history env) run_id;
         (case row of
            Inl _ \<Rightarrow> State_Monad.return []
          | Inr None \<Rightarrow> do { finalize_unrecoverable_orphan env run_id; State_Monad.return [] }
          | Inr (Some pipeline_row) \<Rightarrow> do {
              st \<leftarrow> ss_load_run (sv_state_store env) run_id;
              (case st of
                 Inr (Some rs) \<Rightarrow> resume_run env rp run_id (rs_pipeline rs) (run_context_from_row rp pipeline_row)
               | _ \<Rightarrow> State_Monad.return [])
            })
       }
     | _ \<Rightarrow> State_Monad.return [])
  }"

definition reclaim_orphaned_runs :: "'w coordinator_env \<Rightarrow> 'w reaper_env \<Rightarrow> ('w, 'w task list) state" where
  "reclaim_orphaned_runs env rp = do {
    orphaned \<leftarrow> ss_get_orphaned_runs (sv_state_store env);
    (case orphaned of
       Inl _ \<Rightarrow> State_Monad.return []
     | Inr run_ids \<Rightarrow> collect_M (reclaim_orphan env rp) run_ids)
  }"

definition outcome_status_for :: "run_state \<Rightarrow> run_status" where
  "outcome_status_for s = (if list_all (\<lambda>x. x = Success) (hm_values (rs_statuses s)) then RunSuccess else RunFailure)"

definition reap_terminal_run :: "'w coordinator_env \<Rightarrow> string \<Rightarrow> ('w, unit) state" where
  "reap_terminal_run env run_id = do {
    loaded \<leftarrow> ss_load_run (sv_state_store env) run_id;
    (case loaded of
       Inl _ \<Rightarrow> State_Monad.return ()
     | Inr st \<Rightarrow> do {
         deferred \<leftarrow> (case st of
             None \<Rightarrow> State_Monad.return False
           | Some s \<Rightarrow> do {
               now \<leftarrow> rt_now env;
               r \<leftarrow> rh_finalize_pipeline_run_status (sv_run_history env) run_id (outcome_status_for s) now;
               State_Monad.return (case r of Inl _ \<Rightarrow> True | Inr _ \<Rightarrow> False)
             });
         if deferred then State_Monad.return ()
         else finalize_unrecoverable_orphan env run_id
       })
  }"

definition sweep_terminal_redis_runs :: "'w coordinator_env \<Rightarrow> ('w, unit) state" where
  "sweep_terminal_redis_runs env = do {
    terminal \<leftarrow> ss_list_terminal_unleased_runs (sv_state_store env);
    (case terminal of
       Inl _ \<Rightarrow> State_Monad.return ()
     | Inr run_ids \<Rightarrow> for_M (reap_terminal_run env) run_ids)
  }"

text \<open>\<open>i64::try_from\<close> and \<open>u32::try_from\<close> instead of the casts in \<open>coordinator.rs\<close>.\<close>

definition checked_ms_to_datetime :: "'w coordinator_env \<Rightarrow> u128 \<Rightarrow> datetime option" where
  "checked_ms_to_datetime env ms =
    (if 2 ^ 63 \<le> uint (ms div 1000) then None
     else rt_from_timestamp env (uint (ms div 1000)) (unat (ms mod 1000) * 1000000))"

definition reconstruct_status :: "(string, node_run_row) hashmap \<Rightarrow> string \<Rightarrow> node_status" where
  "reconstruct_status node_runs name =
    (case hm_get node_runs name of
       None \<Rightarrow> Pending
     | Some nr \<Rightarrow> (case node_success nr of Some True \<Rightarrow> Success | Some False \<Rightarrow> Failed | None \<Rightarrow> Running))"

definition reconstruct_run_state_from_postgres :: "pipeline \<Rightarrow> (string, node_run_row) hashmap \<Rightarrow> run_state" where
  "reconstruct_run_state_from_postgres p node_runs =
    (let nodes = pipeline_node_info p in
     \<lparr> rs_version = 0,
       rs_statuses = hm_collect (map (\<lambda>n. (ni_name n, reconstruct_status node_runs (ni_name n))) nodes),
       rs_dependencies = hm_collect (map (\<lambda>n. (ni_name n, ni_dependencies n)) nodes),
       rs_pipeline = p \<rparr>)"

text \<open>One iteration of the loop that completes the history of a node from S3.\<close>

definition reconcile_node ::
  "'w coordinator_env \<Rightarrow> string \<Rightarrow> (string, node_run_row) hashmap \<Rightarrow> string \<Rightarrow> ('w, (string, node_run_row) hashmap) state" where
  "reconcile_node env run_id by_name node_name =
    (case hm_get by_name node_name of
       None \<Rightarrow> State_Monad.return by_name
     | Some existing \<Rightarrow>
        if node_success existing \<noteq> None then State_Monad.return by_name
        else do {
          r \<leftarrow> dp_get_node_outcome (sv_dispatcher env) run_id node_name;
          (case r of
             Inr (Some outcome) \<Rightarrow>
              (case (no_success outcome, no_finished_at outcome) of
                 (Some success, Some finished_ms) \<Rightarrow> do {
                   let started_at = Option.bind (no_started_at outcome) (checked_ms_to_datetime env);
                   let completed_at = checked_ms_to_datetime env finished_ms;
                   w \<leftarrow> rh_record_node_run (sv_run_history env)
                     \<lparr> nr_run_id = run_id, nr_node_name = node_name, nr_node_definition = node_definition existing,
                       nr_success = success, nr_created_at = node_created_at existing, nr_started_at = started_at,
                       nr_completed_at = completed_at, nr_output_log = None, nr_failure_reason = None \<rparr>;
                   State_Monad.return (case w of
                       Inl _ \<Rightarrow> by_name
                     | Inr _ \<Rightarrow> hm_insert node_name (existing\<lparr>node_success := Some success,
                         node_started_at := started_at, node_completed_at := completed_at\<rparr>) by_name)
                 }
               | _ \<Rightarrow> State_Monad.return by_name)
           | _ \<Rightarrow> State_Monad.return by_name)
        })"

fun reconcile_nodes ::
  "'w coordinator_env \<Rightarrow> string \<Rightarrow> (string, node_run_row) hashmap \<Rightarrow> string list \<Rightarrow>
    ('w, (string, node_run_row) hashmap) state" where
  "reconcile_nodes env run_id by_name [] = State_Monad.return by_name"
| "reconcile_nodes env run_id by_name (n # ns) = do {
    by_name' \<leftarrow> reconcile_node env run_id by_name n;
    reconcile_nodes env run_id by_name' ns
  }"

definition known_success :: "(string, node_run_row) hashmap \<Rightarrow> string \<Rightarrow> bool option" where
  "known_success by_name n = Option.bind (hm_get by_name n) node_success"

definition reconcile_postgres_in_progress_run ::
  "'w coordinator_env \<Rightarrow> 'w reaper_env \<Rightarrow> string \<Rightarrow> pipeline_run_row \<Rightarrow>
    ('w, run_history_error + 'w task list) state" where
  "reconcile_postgres_in_progress_run env rp run_id row =
    (case from_yaml (rp_yaml rp) (row_pipeline_definition row) of
       Inl _ \<Rightarrow> State_Monad.return (Inr [])
     | Inr p \<Rightarrow> do {
         let expected = map ni_name (pipeline_node_info p);
         node_runs \<leftarrow> rh_list_node_runs (sv_run_history env) run_id;
         (case node_runs of
            Inl e \<Rightarrow> State_Monad.return (Inl e)
          | Inr rows \<Rightarrow> do {
              by_name \<leftarrow> reconcile_nodes env run_id (hm_collect (map (\<lambda>nr. (node_node_name nr, nr)) rows)) expected;
              if list_all (\<lambda>n. known_success by_name n \<noteq> None) expected then do {
                now \<leftarrow> rt_now env;
                _ \<leftarrow> rh_finalize_pipeline_run_status (sv_run_history env) run_id
                  (if list_all (\<lambda>n. known_success by_name n = Some True) expected then RunSuccess else RunFailure) now;
                _ \<leftarrow> dp_cleanup_run (sv_dispatcher env) run_id;
                State_Monad.return (Inr [])
              }
              else do {
                saved \<leftarrow> ss_save_run (sv_state_store env) run_id (reconstruct_run_state_from_postgres p by_name) 0;
                if saved = Inr True then do {
                  tasks \<leftarrow> resume_run env rp run_id p (run_context_from_row rp row);
                  State_Monad.return (Inr tasks)
                }
                else State_Monad.return (Inr [])
              }
            })
       })"

definition reconcile_in_progress_row ::
  "'w coordinator_env \<Rightarrow> 'w reaper_env \<Rightarrow> pipeline_run_row \<Rightarrow> ('w, 'w task list) state" where
  "reconcile_in_progress_row env rp row = do {
    let run_id = rp_uuid_to_string rp (row_run_id row);
    loaded \<leftarrow> ss_load_run (sv_state_store env) run_id;
    (case loaded of
       Inr None \<Rightarrow> do {
         r \<leftarrow> reconcile_postgres_in_progress_run env rp run_id row;
         State_Monad.return (case r of Inr tasks \<Rightarrow> tasks | Inl _ \<Rightarrow> [])
       }
     | _ \<Rightarrow> State_Monad.return [])
  }"

definition sweep_postgres_in_progress_runs :: "'w coordinator_env \<Rightarrow> 'w reaper_env \<Rightarrow> ('w, 'w task list) state" where
  "sweep_postgres_in_progress_runs env rp = do {
    in_progress \<leftarrow> rh_list_in_progress_runs (sv_run_history env);
    (case in_progress of
       Inl _ \<Rightarrow> State_Monad.return []
     | Inr rows \<Rightarrow> collect_M (reconcile_in_progress_row env rp) rows)
  }"

definition reap_kube_resources :: "'w coordinator_env \<Rightarrow> string \<Rightarrow> ('w, unit) state" where
  "reap_kube_resources env run_id = do {
    loaded \<leftarrow> ss_load_run (sv_state_store env) run_id;
    (case loaded of
       Inr (Some _) \<Rightarrow> State_Monad.return ()
     | Inr None \<Rightarrow> do { _ \<leftarrow> dp_cleanup_run (sv_dispatcher env) run_id; State_Monad.return () }
     | Inl _ \<Rightarrow> do {
         _ \<leftarrow> dp_cleanup_run (sv_dispatcher env) run_id;
         _ \<leftarrow> ss_delete_run (sv_state_store env) run_id;
         State_Monad.return ()
       })
  }"

definition sweep_orphan_kube_resources :: "'w coordinator_env \<Rightarrow> ('w, unit) state" where
  "sweep_orphan_kube_resources env = do {
    managed \<leftarrow> dp_list_managed_run_ids (sv_dispatcher env);
    (case managed of
       Inl _ \<Rightarrow> State_Monad.return ()
     | Inr run_ids \<Rightarrow> for_M (reap_kube_resources env) run_ids)
  }"

definition sweep_stranded_resources :: "'w coordinator_env \<Rightarrow> 'w reaper_env \<Rightarrow> ('w, 'w task list) state" where
  "sweep_stranded_resources env rp = do {
    sweep_terminal_redis_runs env;
    tasks \<leftarrow> sweep_postgres_in_progress_runs env rp;
    sweep_orphan_kube_resources env;
    State_Monad.return tasks
  }"

text \<open>The task of the reaper: a sweep at the start, then one per tick of either interval.\<close>

datatype reaper_tick = LeaseTick | SweepTick

fun reaper_tick_step :: "'w coordinator_env \<Rightarrow> 'w reaper_env \<Rightarrow> reaper_tick \<Rightarrow> ('w, 'w task list) state" where
  "reaper_tick_step env rp LeaseTick = reclaim_orphaned_runs env rp"
| "reaper_tick_step env rp SweepTick = sweep_stranded_resources env rp"

definition start_reaper :: "'w coordinator_env \<Rightarrow> 'w reaper_env \<Rightarrow> reaper_tick list \<Rightarrow> ('w, 'w task list) state" where
  "start_reaper env rp ticks = do {
    reclaimed \<leftarrow> reclaim_orphaned_runs env rp;
    resumed \<leftarrow> sweep_stranded_resources env rp;
    later \<leftarrow> collect_M (reaper_tick_step env rp) ticks;
    State_Monad.return (reclaimed @ resumed @ later)
  }"

section \<open>Rebuilding a run from the history\<close>

lemma map_hm_insert: "map (\<lambda>(k, v). (k, f v)) (hm_insert k v m) = hm_insert k (f v) (map (\<lambda>(k, v). (k, f v)) m)"
  unfolding hm_insert_def by (induction m) auto

lemma map_hm_extend:
  "map (\<lambda>(k, v). (k, f v)) (hm_extend m xs) = hm_extend (map (\<lambda>(k, v). (k, f v)) m) (map (\<lambda>(k, v). (k, f v)) xs)"
proof (induction xs arbitrary: m)
  case (Cons x xs)
  obtain k v where "x = (k, v)" by force
  with Cons show ?case by (simp add: hm_extend_Cons map_hm_insert)
qed simp

lemma map_hm_collect: "map (\<lambda>(k, v). (k, f v)) (hm_collect xs) = hm_collect (map (\<lambda>(k, v). (k, f v)) xs)"
  using map_hm_extend[of f "[]" xs] by (simp add: hm_collect_def)

lemma hm_get_collect_fun:
  "hm_get (hm_collect (map (\<lambda>n. (g n, f (g n))) xs)) k = (if k \<in> g ` set xs then Some (f k) else None)"
  by (induction xs rule: rev_induct) (auto simp: hm_get_collect)

lemma reconstructed_statuses:
  "hm_get (pr_statuses (from_run_state (reconstruct_run_state_from_postgres p m))) n =
    (if n \<in> ni_name ` set (pipeline_node_info p) then Some (reconstruct_status m n) else None)"
  using hm_get_collect_fun[of ni_name "reconstruct_status m" "pipeline_node_info p" n]
  by (simp add: from_run_state_def reconstruct_run_state_from_postgres_def Let_def)

lemma reconstructed_dependencies:
  "pr_dependencies (from_run_state (reconstruct_run_state_from_postgres p m)) =
    pr_dependencies (pr_new (pipeline_node_info p))"
proof -
  let ?xs = "map (\<lambda>n. (ni_name n, ni_dependencies n)) (pipeline_node_info p)"
  have "map (\<lambda>(k, v). (k, remdups v)) (hm_collect ?xs) = hm_collect (map (\<lambda>n. (ni_name n, remdups (ni_dependencies n))) (pipeline_node_info p))"
    by (simp add: map_hm_collect comp_def)
  moreover have "hm_collect (hm_collect xs) = hm_collect xs" for xs :: "(string \<times> string list) list"
    by (rule hm_collect_id) simp
  ultimately show ?thesis
    by (simp add: from_run_state_def reconstruct_run_state_from_postgres_def pr_new_def Let_def)
qed

lemma reconstructed_wf: "pr_wf (from_run_state (reconstruct_run_state_from_postgres p m))"
proof -
  let ?r = "from_run_state (reconstruct_run_state_from_postgres p m)"
  have new: "pr_wf (pr_new (pipeline_node_info p))" by (rule pr_new_wf)
  have "hm_get (pr_statuses ?r) n = None \<longleftrightarrow> hm_get (pr_statuses (pr_new (pipeline_node_info p))) n = None" for n
    using hm_get_collect_fun[of ni_name "\<lambda>_. Pending" "pipeline_node_info p" n]
    by (simp add: reconstructed_statuses pr_new_def)
  moreover have "hm_wf (pr_statuses ?r)"
    by (simp add: from_run_state_def reconstruct_run_state_from_postgres_def Let_def)
  ultimately show ?thesis using new by (simp add: pr_wf_def reconstructed_dependencies)
qed

section \<open>The reaper and running coordinators\<close>

text \<open>\<open>frame\<close>: at most the runs of \<open>K\<close> change in the store. \<open>spares\<close>: no run that is stored and leased changes.\<close>

definition frame :: "('w \<Rightarrow> observed) \<Rightarrow> string set \<Rightarrow> 'w \<Rightarrow> 'w \<Rightarrow> bool" where
  "frame view K w w' \<longleftrightarrow> (\<forall>i. i \<notin> K \<longrightarrow> ob_runs (view w') i = ob_runs (view w) i \<and>
    ob_leases (view w') i = ob_leases (view w) i)"

definition spares :: "('w \<Rightarrow> observed) \<Rightarrow> 'w \<Rightarrow> 'w \<Rightarrow> bool" where
  "spares view w w' \<longleftrightarrow> (\<forall>i. ob_runs (view w) i \<noteq> None \<and> ob_leases (view w) i \<noteq> None \<longrightarrow>
    ob_runs (view w') i = ob_runs (view w) i \<and> ob_leases (view w') i = ob_leases (view w) i)"

lemma pre_frame [simp]: "io_pre (frame view K)"
  by (simp add: io_pre_def frame_def)

lemma pre_spares [simp]: "io_pre (spares view)"
  by (auto simp: io_pre_def spares_def)

lemma frame_spares:
  "frame view K w w' \<Longrightarrow> (\<And>i. i \<in> K \<Longrightarrow> ob_runs (view w) i = None \<or> ob_leases (view w) i = None) \<Longrightarrow> spares view w w'"
  unfolding frame_def spares_def by metis

lemma frame_mono: "state_io_rel (frame view K) m \<Longrightarrow> K \<subseteq> L \<Longrightarrow> state_io_rel (frame view L) m"
  by (auto simp: state_io_rel_def frame_def)

lemma quiet_frame: "quiet view m \<Longrightarrow> state_io_rel (frame view K) m"
  by (simp add: quiet_def state_io_rel_def frame_def)

lemma frame_empty_spares: "state_io_rel (frame view {}) m \<Longrightarrow> state_io_rel (spares view) m"
  by (simp add: state_io_rel_def frame_def spares_def)

lemma io_collect_M:
  "\<lbrakk> io_pre R; \<And>x. x \<in> set xs \<Longrightarrow> state_io_rel R (f x) \<rbrakk> \<Longrightarrow> state_io_rel R (collect_M f xs)"
  by (induction xs) (auto intro!: io_return io_bind)

lemma start_coordinator_reporter:
  "start_coordinator (env\<lparr>sv_report_completed := r\<rparr>) i p rc = start_coordinator env i p rc"
  by (simp add: start_coordinator_def initialize_run_state_def cong: sum.case_cong option.case_cong)

locale reaper_services = start_services env view
  for env :: "'w coordinator_env" and view :: "'w \<Rightarrow> observed" +
  fixes rp :: "'w reaper_env"
  assumes orphaned_law: "State_Monad.run_state (ss_get_orphaned_runs (sv_state_store env)) w = (ro, w') \<Longrightarrow>
      view w' = view w \<and> (\<exists>ids. ro = Inr ids \<and> (\<forall>i\<in>set ids. ob_leases (view w) i = None) \<and>
        {i. \<exists>st. ob_runs (view w) i = Some st \<and> \<not> run_state_is_terminal st \<and> ob_leases (view w) i = None} \<subseteq> set ids)"
    and terminal_law: "State_Monad.run_state (ss_list_terminal_unleased_runs (sv_state_store env)) w = (ro, w') \<Longrightarrow>
      view w' = view w \<and> (\<exists>ids. ro = Inr ids \<and> (\<forall>i\<in>set ids. ob_leases (view w) i = None) \<and>
        {i. \<exists>st. ob_runs (view w) i = Some st \<and> run_state_is_terminal st \<and> ob_leases (view w) i = None} \<subseteq> set ids)"
    and finalize_law: "State_Monad.run_state (rh_finalize_pipeline_run_status (sv_run_history env) i st t) w = (rf, w') \<Longrightarrow>
      view w' = (view w)\<lparr>ob_rows := ob_rows (view w')\<rparr>"
    and quiet_get_run: "quiet view (rh_get_pipeline_run (sv_run_history env) i)"
    and quiet_list_nodes: "quiet view (rh_list_node_runs (sv_run_history env) i)"
    and quiet_in_progress: "quiet view (rh_list_in_progress_runs (sv_run_history env))"
    and quiet_managed: "quiet view (dp_list_managed_run_ids (sv_dispatcher env))"
    and quiet_factory: "rp_reporter_factory rp = Some factory \<Longrightarrow> quiet view (factory rc)"
begin

lemma quiet_load: "quiet view (ss_load_run (sv_state_store env) i)"
  using load_law by (auto simp: quiet_def state_io_rel_def split: prod.splits) (metis prod.collapse)

lemma quiet_reporter: "quiet view (reporter_for rp rc)"
  unfolding reporter_for_def
  by (auto split: option.splits intro: quiet_factory[unfolded quiet_def state_io_rel_def, rule_format]
      simp: quiet_def state_io_rel_def)

text \<open>Each operation on a run changes at most that run.\<close>

lemma frame_store_ops:
  "state_io_rel (frame view {i}) (ss_release_lease (sv_state_store env) i)"
  "state_io_rel (frame view {i}) (ss_delete_run (sv_state_store env) i)"
  "state_io_rel (frame view {i}) (ss_save_run (sv_state_store env) i st v)"
  "state_io_rel (frame view {i}) (ss_try_acquire_lease (sv_state_store env) i sid ttl)"
  "state_io_rel (frame view K) (rh_finalize_pipeline_run_status (sv_run_history env) j status t)"
  "state_io_rel (frame view K) (rh_record_pipeline_started (sv_run_history env) ps)"
proof -
  have rel: "state_io_rel R m" if "\<And>w r w'. State_Monad.run_state m w = (r, w') \<Longrightarrow> R w w'" for R and m :: "('w, 'r) state"
    using that by (simp add: state_io_rel_def) (metis prod.collapse)
  show "state_io_rel (frame view {i}) (ss_release_lease (sv_state_store env) i)"
    by (rule rel) (auto simp: frame_def dest!: release_law)
  show "state_io_rel (frame view {i}) (ss_delete_run (sv_state_store env) i)"
    by (rule rel) (auto simp: frame_def dest!: delete_law)
  show "state_io_rel (frame view {i}) (ss_save_run (sv_state_store env) i st v)"
    by (rule rel) (auto simp: frame_def dest!: save_law split: if_splits)
  show "state_io_rel (frame view {i}) (ss_try_acquire_lease (sv_state_store env) i sid ttl)"
    by (rule rel) (auto simp: frame_def dest!: acquire_law split: option.splits)
  show "state_io_rel (frame view K) (rh_finalize_pipeline_run_status (sv_run_history env) j status t)"
    by (rule rel) (drule finalize_law, simp add: frame_def, metis observed.select_convs(1,2) observed.surjective observed.update_convs(4))
  show "state_io_rel (frame view K) (rh_record_pipeline_started (sv_run_history env) ps)"
    by (rule rel) (drule started_law, simp add: frame_def, metis observed.select_convs(1,2) observed.surjective observed.update_convs(5))
qed

lemmas frame_intros = io_return io_bind io_if io_case_option io_case_sum io_case_prod pre_frame quiet_frame
  frame_store_ops quiet_neutral quiet_load quiet_reporter quiet_get_run quiet_list_nodes quiet_uuid quiet_start_watcher

lemma frame_start: "state_io_rel (frame view {i}) (start_coordinator env i p rc)"
  unfolding start_coordinator_def initialize_run_state_def Let_def by (intro frame_intros)

lemma frame_resume: "state_io_rel (frame view {i}) (resume_run env rp i p rc)"
  unfolding resume_run_def start_coordinator_reporter by (intro frame_intros frame_start)

lemma frame_finalize_orphan: "state_io_rel (frame view {i}) (finalize_unrecoverable_orphan env i)"
  unfolding finalize_unrecoverable_orphan_def by (intro frame_intros)

lemma frame_reclaim: "state_io_rel (frame view {i}) (reclaim_orphan env rp i)"
  unfolding reclaim_orphan_def by (intro frame_intros frame_resume frame_finalize_orphan)

lemma frame_reap_terminal: "state_io_rel (frame view {i}) (reap_terminal_run env i)"
  unfolding reap_terminal_run_def by (intro frame_intros frame_finalize_orphan)

lemma frame_reconcile_node: "state_io_rel (frame view {i}) (reconcile_node env i by_name n)"
  unfolding reconcile_node_def Let_def by (intro frame_intros)

lemma frame_reconcile_nodes: "state_io_rel (frame view {i}) (reconcile_nodes env i by_name ns)"
  by (induction ns arbitrary: by_name) (auto intro!: io_return io_bind pre_frame frame_reconcile_node)

lemma frame_reconcile_run: "state_io_rel (frame view {i}) (reconcile_postgres_in_progress_run env rp i row)"
  unfolding reconcile_postgres_in_progress_run_def Let_def
  by (intro frame_intros frame_reconcile_nodes frame_resume)

text \<open>The sweeps spare the runs that are stored and leased.\<close>

lemma spares_listed:
  assumes list: "\<And>w r w'. State_Monad.run_state m w = (r, w') \<Longrightarrow> view w' = view w \<and>
      (\<exists>ids. r = Inr ids \<and> (\<forall>i\<in>set ids. ob_leases (view w) i = None))"
    and loop: "\<And>ids. state_io_rel (frame view (set ids)) (f ids)"
  shows "state_io_rel (spares view) (m \<bind> (\<lambda>r. case r of Inl e \<Rightarrow> g e | Inr ids \<Rightarrow> f ids))"
  unfolding state_io_rel_def
proof
  fix w
  obtain r w1 where 1: "State_Monad.run_state m w = (r, w1)" by force
  from list[OF 1] obtain ids where ids: "r = Inr ids" "\<forall>i\<in>set ids. ob_leases (view w) i = None" "view w1 = view w" by auto
  obtain r2 w2 where 2: "State_Monad.run_state (f ids) w1 = (r2, w2)" by force
  from io_run_eq[OF loop 2] have "frame view (set ids) w1 w2" .
  then have "spares view w1 w2" by (rule frame_spares) (use ids in auto)
  with ids 1 2 show "spares view w (snd (State_Monad.run_state (m \<bind> (\<lambda>r. case r of Inl e \<Rightarrow> g e | Inr ids \<Rightarrow> f ids)) w))"
    by (simp add: spares_def)
qed

lemma frame_loop:
  assumes "\<And>i. state_io_rel (frame view {i}) (f i)"
  shows "state_io_rel (frame view (set ids)) (for_M f ids)"
  by (intro io_for_M pre_frame frame_mono[OF assms]) simp

lemma frame_collect:
  assumes "\<And>i. state_io_rel (frame view {i}) (f i)"
  shows "state_io_rel (frame view (set ids)) (collect_M f ids)"
  by (intro io_collect_M pre_frame frame_mono[OF assms]) simp

lemma spares_reclaim: "state_io_rel (spares view) (reclaim_orphaned_runs env rp)"
  unfolding reclaim_orphaned_runs_def
  by (rule spares_listed[OF _ frame_collect[OF frame_reclaim]]) (auto dest!: orphaned_law)

lemma spares_terminal: "state_io_rel (spares view) (sweep_terminal_redis_runs env)"
  unfolding sweep_terminal_redis_runs_def
  by (rule spares_listed[OF _ frame_loop[OF frame_reap_terminal]]) (auto dest!: terminal_law)

lemma spares_in_progress_row: "state_io_rel (spares view) (reconcile_in_progress_row env rp row)"
  unfolding state_io_rel_def
proof
  fix w
  let ?i = "rp_uuid_to_string rp (row_run_id row)"
  let ?m = "do { r \<leftarrow> reconcile_postgres_in_progress_run env rp ?i row;
      State_Monad.return (case r of Inr tasks \<Rightarrow> tasks | Inl _ \<Rightarrow> []) }"
  obtain r w1 where 1: "State_Monad.run_state (ss_load_run (sv_state_store env) ?i) w = (r, w1)" by force
  note l = load_law[OF 1]
  show "spares view w (snd (State_Monad.run_state (reconcile_in_progress_row env rp row) w))"
  proof (cases "ob_runs (view w) ?i")
    case None
    have "state_io_rel (frame view {?i}) ?m" by (intro frame_intros frame_reconcile_run)
    then have "frame view {?i} w1 (snd (State_Monad.run_state ?m w1))" by (rule io_run)
    then have "spares view w1 (snd (State_Monad.run_state ?m w1))" by (rule frame_spares) (use None l in simp)
    with None l 1 show ?thesis by (simp add: reconcile_in_progress_row_def Let_def spares_def)
  next
    case (Some st)
    with l 1 show ?thesis by (simp add: reconcile_in_progress_row_def Let_def spares_def)
  qed
qed

lemma spares_in_progress: "state_io_rel (spares view) (sweep_postgres_in_progress_runs env rp)"
  unfolding sweep_postgres_in_progress_runs_def
  by (intro io_bind io_case_sum io_return io_collect_M pre_spares spares_in_progress_row
      frame_empty_spares quiet_frame quiet_in_progress)

lemma spares_kube_run: "state_io_rel (spares view) (reap_kube_resources env i)"
proof -
  have "State_Monad.run_state (reap_kube_resources env i) w = (u, w') \<Longrightarrow> view w' = view w" for w u w'
    using load_law[of i w] io_run_eq[OF quiet_cleanup[unfolded quiet_def], of i]
    by (auto simp: reap_kube_resources_def split: prod.splits sum.splits option.splits)
  then have "view (snd (State_Monad.run_state (reap_kube_resources env i) w)) = view w" for w
    by (cases "State_Monad.run_state (reap_kube_resources env i) w") simp
  then show ?thesis by (simp add: state_io_rel_def spares_def)
qed

lemma spares_kube: "state_io_rel (spares view) (sweep_orphan_kube_resources env)"
  unfolding sweep_orphan_kube_resources_def
  by (intro io_bind io_case_sum io_return io_for_M pre_spares spares_kube_run frame_empty_spares quiet_frame quiet_managed)

lemma spares_sweep: "state_io_rel (spares view) (sweep_stranded_resources env rp)"
  unfolding sweep_stranded_resources_def
  by (intro io_bind io_return pre_spares spares_terminal spares_in_progress spares_kube)

lemma spares_reaper: "state_io_rel (spares view) (start_reaper env rp ticks)"
proof -
  have "state_io_rel (spares view) (reaper_tick_step env rp t)" for t
    by (cases t) (simp_all add: spares_reclaim spares_sweep)
  then show ?thesis unfolding start_reaper_def
    by (intro io_bind io_return io_collect_M pre_spares spares_reclaim spares_sweep)
qed

end

end
