(* ===== verification/Sweeps.thy ===== *)
theory Sweeps
  imports Simulation Reaper
begin

text \<open>
  The reaper on the closed system of \<open>Simulation\<close>: its contracts hold there, and the properties of
  its sweeps are stated.
\<close>

section \<open>The contracts hold\<close>

lemma pg_finalize_effect:
  assumes "State_Monad.run_state (pg_finalize_pipeline_run_status up i st t) db = (r, db')"
  shows "grows db db' \<and> (\<forall>u. run_present u db' \<longrightarrow> run_present u db)"
proof -
  from assms have down: "pg_down db' = pg_down db"
    and ids: "map row_run_id (pg_pipeline_runs db') = map row_run_id (pg_pipeline_runs db)"
    by (auto simp: pg_finalize_pipeline_run_status_def query_def Let_def split: sum.splits option.splits)
  show ?thesis unfolding grows_def run_present_ids ids using down by simp
qed

lemma accepts_run_same:
  "grows db db' \<and> (\<forall>u. run_present u db' \<longrightarrow> run_present u db) \<Longrightarrow> accepts_run up db' = accepts_run up db"
  by (auto simp: accepts_run_def grows_def fun_eq_iff split: sum.splits option.splits)

lemma pg_reads_pure:
  "State_Monad.run_state (pg_get_pipeline_run up i) db = (r1, db') \<Longrightarrow> db' = db"
  "State_Monad.run_state (pg_list_node_runs up i) db = (r2, db') \<Longrightarrow> db' = db"
  "State_Monad.run_state pg_list_in_progress_runs db = (r3, db') \<Longrightarrow> db' = db"
  by (auto simp: pg_get_pipeline_run_def pg_list_node_runs_def pg_list_in_progress_runs_def query_def
      split: sum.splits option.splits)

lemma mem_listing:
  "(\<forall>i \<in> set (map fst (filter (\<lambda>(i, e). P e \<and> \<not> hm_contains_key leases i) runs)). hm_get leases i = None) \<and>
   {i. \<exists>st. hm_get runs i = Some st \<and> P st \<and> hm_get leases i = None} \<subseteq>
     set (map fst (filter (\<lambda>(i, e). P e \<and> \<not> hm_contains_key leases i) runs))"
  by (force simp: hm_contains_key_get hm_get_def dest: map_of_SomeD)

text \<open>A reaper without a reporter factory.\<close>

definition quiet_reaper :: "(string \<Rightarrow> string + pipeline) \<Rightarrow> (uuid \<Rightarrow> string) \<Rightarrow> 'w reaper_env" where
  "quiet_reaper yaml uuid_to_string =
    \<lparr> rp_reporter_factory = None, rp_yaml = yaml, rp_uuid_to_string = uuid_to_string \<rparr>"

interpretation sim_reaper: reaper_services "sim_env cfg up" "sim_view up" "quiet_reaper yaml uts" for cfg up yaml uts
proof
  fix w w' i
  let ?e = "sim_env cfg up" and ?v = "sim_view up"
  show "?v w' = ?v w \<and> (\<exists>ids. ro = Inr ids \<and> (\<forall>i\<in>set ids. ob_leases (?v w) i = None) \<and>
      {i. \<exists>st. ob_runs (?v w) i = Some st \<and> \<not> run_state_is_terminal st \<and> ob_leases (?v w) i = None} \<subseteq> set ids)"
    if "State_Monad.run_state (ss_get_orphaned_runs (sv_state_store ?e)) w = (ro, w')" for ro
    using that mem_listing[where P = "\<lambda>e. \<not> run_state_is_terminal e" and leases = "mem_leases (sim_store w)" and runs = "mem_runs (sim_store w)"]
    by (auto simp: sim_defs sim_view_def mem_get_orphaned_runs_def)
  show "?v w' = ?v w \<and> (\<exists>ids. ro = Inr ids \<and> (\<forall>i\<in>set ids. ob_leases (?v w) i = None) \<and>
      {i. \<exists>st. ob_runs (?v w) i = Some st \<and> run_state_is_terminal st \<and> ob_leases (?v w) i = None} \<subseteq> set ids)"
    if "State_Monad.run_state (ss_list_terminal_unleased_runs (sv_state_store ?e)) w = (ro, w')" for ro
    using that mem_listing[where P = run_state_is_terminal and leases = "mem_leases (sim_store w)" and runs = "mem_runs (sim_store w)"]
    by (auto simp: sim_defs sim_view_def mem_list_terminal_unleased_runs_def)
  show "?v w' = (?v w)\<lparr>ob_rows := ob_rows (?v w')\<rparr>"
    if "State_Monad.run_state (rh_finalize_pipeline_run_status (sv_run_history ?e) i st t) w = (rf, w')" for st t rf
    using that by (auto simp: sim_defs sim_view_def split: prod.splits dest!: pg_finalize_effect accepts_run_same)
qed ((rule quietI)?, auto simp: sim_defs quiet_reaper_def split: prod.splits dest: pg_reads_pure)+

section \<open>Properties\<close>


text \<open>
  Claim C16. What becomes of an orphaned run, on the in-memory store with the history database: with a
  history row a coordinator takes it over with exactly the stored statuses, version and pipeline,
  the context of the row, and the lease; without a row the run is removed; when the history
  cannot be read nothing is started and the stored runs and leases stay as they are.
\<close>

theorem orphan_reclaimed:
  assumes "hm_get (mem_runs (sim_store w)) i = Some st" and "hm_get (mem_leases (sim_store w)) i = None"
    and "State_Monad.run_state (reclaim_orphan (sim_env cfg up) (quiet_reaper yaml uts) i) w = (tasks, w')"
  shows "case fst (State_Monad.run_state (pg_get_pipeline_run up i) (sim_history w)) of
      Inr (Some row) \<Rightarrow> \<exists>d. tasks = [(d, None)] \<and> c_run d = from_run_state st \<and> c_state_version d = rs_version st \<and>
        c_pipeline d = rs_pipeline st \<and> c_run_context d = run_context_from_row (quiet_reaper yaml uts :: sim_world reaper_env) row \<and>
        c_is_rehydrate d \<and> hm_get (mem_leases (sim_store w')) i = Some (lease_of d) \<and>
        hm_get (mem_runs (sim_store w')) i = Some st
    | Inr None \<Rightarrow> tasks = [] \<and> hm_get (mem_runs (sim_store w')) i = None \<and> hm_get (mem_leases (sim_store w')) i = None
    | Inl e \<Rightarrow> tasks = [] \<and> sim_store w' = sim_store w"
proof -
  let ?e = "sim_env cfg up" and ?rp = "quiet_reaper yaml uts :: sim_world reaper_env"
  have load: "State_Monad.run_state (ss_load_run (sv_state_store ?e) i) w = (Inr (Some st), w)"
    using assms(1) by (simp add: sim_defs mem_load_run_def)
  obtain r db where row: "State_Monad.run_state (pg_get_pipeline_run up i) (sim_history w) = (r, db)" by force
  then have get: "State_Monad.run_state (rh_get_pipeline_run (sv_run_history ?e) i) w = (r, w)"
    using pg_reads_pure(1)[OF row] by (simp add: sim_defs)
  consider (err) e where "r = Inl e" | (none) "r = Inr None" | (row) x where "r = Inr (Some x)"
    by (cases r) auto
  then show ?thesis
  proof cases
    case err
    with assms(3) load get row show ?thesis by (simp add: reclaim_orphan_def)
  next
    case none
    with assms(3) load get row have "State_Monad.run_state (finalize_unrecoverable_orphan ?e i) w = ((), w')" "tasks = []"
      by (simp_all add: reclaim_orphan_def split: prod.splits)
    with none row show ?thesis
      by (auto simp: finalize_unrecoverable_orphan_def sim_defs mem_release_lease_def mem_delete_run_def)
  next
    case (row x)
    obtain c w1 where start: "State_Monad.run_state (start_coordinator ?e i (rs_pipeline st) (run_context_from_row ?rp x)) w = (c, w1)"
      by force
    from sim_run.start_effect[OF start] assms(1,2) obtain d where "c = Some d" "c_run d = from_run_state st"
        "c_state_version d = rs_version st" "c_pipeline d = rs_pipeline st" "c_run_context d = run_context_from_row ?rp x"
        "c_is_rehydrate d" "hm_get (mem_leases (sim_store w1)) i = Some (lease_of d)" "hm_get (mem_runs (sim_store w1)) i = Some st"
      by (auto simp: sim_view_def)
    moreover have "tasks = (case c of Some c \<Rightarrow> [(c, None)] | None \<Rightarrow> [])" "w' = w1"
      using assms(3) load get row start
      by (simp_all add: reclaim_orphan_def resume_run_def start_coordinator_reporter reporter_for_def quiet_reaper_def)
    ultimately show ?thesis using row \<open>State_Monad.run_state (pg_get_pipeline_run up i) (sim_history w) = (r, db)\<close> by simp
  qed
qed

text \<open>
  Claim C25. A run that is rebuilt from its history is a well-formed run of the same pipeline: it has the
  dependencies of a new run, and the nodes that it hands out as ready are exactly those that no
  row of the history mentions and whose dependencies are all recorded as successful. A node
  that was dispatched before is not handed out again.
\<close>

theorem rebuilt_run_matches_history:
  "let r = from_run_state (reconstruct_run_state_from_postgres p node_runs); names = ni_name ` set (pipeline_node_info p) in
    pr_wf r \<and> pr_dependencies r = pr_dependencies (pr_new (pipeline_node_info p)) \<and>
    (\<forall>n. n \<in> set (ready_nodes r) \<longleftrightarrow> n \<in> names \<and> hm_get node_runs n = None \<and>
      (\<exists>ds. hm_get (pr_dependencies r) n = Some ds \<and> set ds \<subseteq> {d \<in> names. known_success node_runs d = Some True}))"
proof -
  let ?r = "from_run_state (reconstruct_run_state_from_postgres p node_runs)"
  have wf: "pr_wf ?r" by (rule reconstructed_wf)
  have "hm_get (pr_statuses ?r) n = Some Success \<longleftrightarrow> n \<in> ni_name ` set (pipeline_node_info p) \<and> known_success node_runs n = Some True"
    and "hm_get (pr_statuses ?r) n = Some Pending \<longleftrightarrow> n \<in> ni_name ` set (pipeline_node_info p) \<and> hm_get node_runs n = None" for n
    by (auto simp: reconstructed_statuses reconstruct_status_def known_success_def split: option.splits bool.splits)
  moreover have "hm_get (pr_dependencies ?r) n \<noteq> None" if "hm_get (pr_statuses ?r) n = Some Pending" for n
    using wf that by (simp add: pr_wf_def) (metis option.distinct(1) not_None_eq)
  moreover have "hm_wf (pr_statuses ?r)" using wf by (simp add: pr_wf_def)
  ultimately show ?thesis using wf
    by (fastforce simp: Let_def ready_nodes_iff deps_satisfied_def list_all_iff reconstructed_dependencies split: option.splits)
qed

text \<open>
  The two conversions of an outcome's milliseconds, the cast of \<open>coordinator.rs\<close> and the checked
  conversion of \<open>reaper.rs\<close>, agree on every timestamp below \<open>2^63\<close> seconds; from there on the
  checked one gives no time, while the cast wraps to a time that \<open>2^64\<close> seconds shift.
\<close>

theorem ms_conversions_agree:
  "(uint (ms div 1000) < 2 ^ 63 \<longrightarrow> checked_ms_to_datetime env ms = ms_to_datetime env ms) \<and>
   (2 ^ 63 \<le> uint (ms div 1000) \<longrightarrow> checked_ms_to_datetime env ms = None \<and>
     (\<exists>secs. secs < 2 ^ 63 \<and> - (2 ^ 63) \<le> secs \<and> secs mod 2 ^ 64 = uint (ms div 1000) mod 2 ^ 64 \<and>
       ms_to_datetime env ms = rt_from_timestamp env secs (unat (ms mod 1000) * 1000000)))"
proof -
  let ?u = "ucast (ms div 1000) :: u64"
  have u: "uint ?u = uint (ms div 1000) mod 2 ^ 64" by (simp add: unsigned_ucast_eq take_bit_eq_mod)
  have s: "sint ?u = signed_take_bit 63 (uint ?u)" by (simp add: sint_uint)
  have "sint ?u = uint (ms div 1000)" if "uint (ms div 1000) < 2 ^ 63"
    unfolding s using that u by (subst signed_take_bit_int_eq_self) (simp_all add: order_trans[OF _ uint_ge_0])
  moreover have "sint ?u < 2 ^ 63" "- (2 ^ 63) \<le> sint ?u"
    using signed_take_bit_int_less_exp[of 63 "uint ?u"] signed_take_bit_int_greater_eq_minus_exp[of 63 "uint ?u"] s by simp_all
  moreover have "sint ?u mod 2 ^ 64 = uint (ms div 1000) mod 2 ^ 64"
    using u by (simp add: uint_sint take_bit_eq_mod)
  ultimately show ?thesis by (auto simp: checked_ms_to_datetime_def ms_to_datetime_def)
qed

section \<open>Witnesses\<close>

definition demo_reaper :: "sim_world reaper_env" where
  "demo_reaper = quiet_reaper (\<lambda>_. Inr demo_pl) (\<lambda>_. ''r'')"

text \<open>The world after the server of the run stopped and its lease expired.\<close>

definition demo_orphaned :: sim_world where
  "demo_orphaned = (let w = snd (snd demo_crashed) in w\<lparr>sim_store := (sim_store w)\<lparr>mem_leases := []\<rparr>\<rparr>)"


theorem orphan_reclaimed_witness:
  "\<exists>d. fst (State_Monad.run_state (reclaim_orphan demo_env demo_reaper ''r'') demo_orphaned) = [(d, None)] \<and>
    hm_get (pr_statuses (c_run d)) ''a'' = Some Running"
proof -
  have st: "map_option (\<lambda>s. hm_get (pr_statuses (from_run_state s)) ''a'') (hm_get (mem_runs (sim_store demo_orphaned)) ''r'') = Some (Some Running)"
    by code_simp
  have free: "hm_get (mem_leases (sim_store demo_orphaned)) ''r'' = None" by code_simp
  have row: "case fst (State_Monad.run_state (pg_get_pipeline_run (\<lambda>_. Inr 7) ''r'') (sim_history demo_orphaned)) of
      Inr (Some row) \<Rightarrow> row_status row = InProgress | _ \<Rightarrow> False" by code_simp
  from st obtain s where "hm_get (mem_runs (sim_store demo_orphaned)) ''r'' = Some s"
    and run: "hm_get (pr_statuses (from_run_state s)) ''a'' = Some Running" by auto
  from orphan_reclaimed[OF this(1) free prod.collapse[symmetric], of default_config "\<lambda>_. Inr 7" "\<lambda>_. Inr demo_pl" "\<lambda>_. ''r''"] row run
  show ?thesis by (auto simp: demo_env_def demo_reaper_def split: sum.splits option.splits)
qed

theorem ms_conversions_agree_witness:
  "checked_ms_to_datetime demo_env 1500 = ms_to_datetime demo_env 1500 \<and>
   checked_ms_to_datetime demo_env (2 ^ 63 * 1000) = None"
  using ms_conversions_agree[of 1500 demo_env] ms_conversions_agree[of "2 ^ 63 * 1000" demo_env] by simp

end
