(* ===== verification/Liveness.thy ===== *)
theory Liveness
  imports Simulation
begin

text \<open>
  Progress of a run, for every implementation of the services: while a coordinator waits for an
  event, some node runs that nothing has been heard of. The argument is a triple for each handler
  over the statuses alone: what the services answer decides only whether the run stops.
\<close>

section \<open>What holds while a coordinator waits\<close>

text \<open>
  \<open>settled N\<close>: the nodes of \<open>N\<close> are neither pending nor running. \<open>idle\<close>: no node is ready. Handlers
  that stop the run need not leave it idle, hence the flag of \<open>waits\<close>.
\<close>

definition settled :: "string set \<Rightarrow> pipeline_run \<Rightarrow> bool" where
  "settled N r \<longleftrightarrow> pr_wf r \<and> (\<forall>n\<in>N. hm_get (pr_statuses r) n \<notin> {Some Pending, Some Running})"

definition ready_in :: "string set \<Rightarrow> pipeline_run \<Rightarrow> bool" where
  "ready_in M r \<longleftrightarrow> (\<forall>n. hm_get (pr_statuses r) n = Some Pending \<longrightarrow> deps_satisfied r n \<longrightarrow> n \<in> M)"

definition waits :: "bool \<Rightarrow> string set \<Rightarrow> pipeline_run \<Rightarrow> bool" where
  "waits b N r \<longleftrightarrow> settled N r \<and> (b \<longrightarrow> ready_in {} r)"

definition on_run :: "(pipeline_run \<Rightarrow> bool) \<Rightarrow> coordinator \<times> 'w \<Rightarrow> bool" where
  "on_run F s \<longleftrightarrow> F (c_run (fst s))"

lemma advances_settled: "advances r r' \<Longrightarrow> settled N r \<Longrightarrow> settled N r'"
  unfolding settled_def
  by (metis (no_types, lifting) advances_Pending_back advances_back advances_wf insert_iff less_eq_node_status_def singletonD)

lemma not_complete_running:
  "waits True N r \<Longrightarrow> \<not> is_complete r \<Longrightarrow> \<exists>n. n \<notin> N \<and> hm_get (pr_statuses r) n = Some Running"
  by (auto simp: waits_def settled_def ready_in_def pr_wf_def is_complete_iff)

lemma hoare_kept: "state_io_rel (keeps_run (\<lambda>_. [] :: string list)) m \<Longrightarrow> hoare (on_run F) m (\<lambda>_. on_run F)"
  by (erule hoare_io) (simp add: keeps_run_def on_run_def)

lemma kept_call: "state_io_rel (keeps_run (\<lambda>_. [] :: string list)) (call m)"
  by (rule io_call) (simp add: quiet_def state_io_rel_def)

lemmas kept = any_env.keeps_programs any_env.keeps_persist any_env.keeps_persist_after kept_call

lemma hoare_mark:
  "(\<And>r. F r \<Longrightarrow> G (snd (f r))) \<Longrightarrow> hoare (on_run F) (update_run f) (\<lambda>_. on_run G)"
  by (simp add: hoare_def on_run_def)

section \<open>Dispatch\<close>

lemma dispatch_node_marks:
  assumes "\<And>r. F r \<Longrightarrow> G (snd (mark_running n r))" "\<And>r. F r \<Longrightarrow> G (snd (mark_dispatch_failed n r))"
  shows "hoare (on_run F) (dispatch_node env n) (\<lambda>_. on_run G)"
  unfolding dispatch_node_def Let_def
  by (intro hoare_get_c_keep hoare_case_option hoare_bind[OF hoare_mark[where F = F and G = G]] hoare_bind[OF hoare_kept]
      hoare_case_sum hoare_if hoare_return hoare_kept kept) (auto intro: assms)

lemma mark_ready_in:
  assumes "ready_in (insert n M) r"
  shows "ready_in M (snd (mark_running n r))" "ready_in M (snd (mark_dispatch_failed n r))"
proof -
  have deps: "deps_satisfied r m" if "deps_satisfied (pr_set n s r) m" "hm_get (pr_statuses r) n = Some Pending" "s \<noteq> Success" for s m
    using that by (auto simp: deps_satisfied_def pr_set_def list_all_iff split: option.splits if_splits)
  show "ready_in M (snd (mark_running n r))" "ready_in M (snd (mark_dispatch_failed n r))"
    using assms deps by (auto simp: ready_in_def mark_defs) (auto simp: pr_set_def split: if_splits)
qed

lemma dispatch_all_idle:
  "hoare (on_run (\<lambda>r. settled N r \<and> ready_in (set ns) r)) (for_M (dispatch_node env) ns) (\<lambda>_. on_run (waits True N))"
proof (induction ns)
  case Nil
  then show ?case by (auto intro!: hoare_return simp: on_run_def waits_def)
next
  case (Cons n ns)
  have "hoare (on_run (\<lambda>r. settled N r \<and> ready_in (insert n (set ns)) r)) (dispatch_node env n)
      (\<lambda>_. on_run (\<lambda>r. settled N r \<and> ready_in (set ns) r))"
    by (rule dispatch_node_marks) (auto intro: mark_ready_in advances_settled mark_advances)
  with Cons show ?case by (auto intro: hoare_bind)
qed

lemma dispatch_ready_waits: "hoare (on_run (settled N)) (dispatch_ready_nodes env) (\<lambda>_. on_run (waits True N))"
  unfolding dispatch_ready_nodes_def
  by (rule hoare_bind[OF hoare_get_c], rule hoare_pre[OF dispatch_all_idle])
    (auto simp: on_run_def settled_def ready_in_def ready_nodes_iff pr_wf_def)

section \<open>Handlers\<close>

text \<open>A handler that ends node \<open>n\<close>: afterwards \<open>n\<close> is settled, and unless the run has to stop no node is ready.\<close>

definition ends_in :: "bool \<Rightarrow> string set \<Rightarrow> bool \<Rightarrow> coordinator \<times> 'w \<Rightarrow> bool" where
  "ends_in b N stop s \<longleftrightarrow> on_run (waits (b \<and> \<not> stop) N) s"

lemma ends_return: "on_run (waits b N) s \<Longrightarrow> ends_in b N stop s"
  by (auto simp: ends_in_def on_run_def waits_def)

lemma ends_True: "on_run (settled N) s \<Longrightarrow> ends_in b N True s"
  by (simp add: ends_in_def on_run_def waits_def)

lemma waits_settled: "waits b N r \<Longrightarrow> settled N r"
  by (simp add: waits_def)

lemma mark_settled:
  "settled N r \<Longrightarrow> settled (insert n N) (snd (mark_success n r))"
  "settled N r \<Longrightarrow> settled (insert n N) (snd (mark_failed n r))"
proof -
  assume s: "settled N r"
  note a = advances_settled[OF mark_advances(2) s, of n] advances_settled[OF mark_advances(3) s, of n]
  show "settled (insert n N) (snd (mark_success n r))" "settled (insert n N) (snd (mark_failed n r))"
    using a by (auto simp: settled_def mark_success_def mark_failed_def pr_set_def)
qed

lemma mark_failed_refused_waits:
  "waits b N r \<Longrightarrow> \<not> fst (mark_failed n r) \<Longrightarrow> waits b (insert n N) (snd (mark_failed n r))"
  by (auto simp: mark_failed_def waits_def settled_def)

lemma stop_ends: "hoare (on_run (settled N)) (stop_or_continue env) (ends_in b N)"
  unfolding stop_or_continue_def
  by (intro hoare_get_c_keep hoare_if hoare_return ends_True hoare_bind[OF dispatch_ready_waits])
    (auto simp: ends_in_def on_run_def waits_def)

lemma cancel_ends: "hoare (on_run (settled N)) (cancel_and_record env n reason) (ends_in b N)"
  unfolding cancel_and_record_def by (intro hoare_get_c_keep hoare_bind[OF hoare_kept] kept stop_ends)

text \<open>A save between the mark and the rest of a handler; a failed save stops the run.\<close>

lemma persist_ends:
  assumes "hoare (on_run (settled N)) m (ends_in b N)"
  shows "hoare (on_run (settled N)) (persist_state env \<bind> (\<lambda>r. case r of Inl e \<Rightarrow> State_Monad.return True | Inr u \<Rightarrow> m)) (ends_in b N)"
  by (intro hoare_bind[OF hoare_kept] kept hoare_case_sum hoare_return ends_True assms)

lemma mark_failed_ends:
  assumes "hoare (on_run (settled (insert n N))) m (ends_in b (insert n N))"
  shows "hoare (on_run (waits b N)) (update_run (mark_failed n) \<bind> (\<lambda>ok. if \<not> ok then State_Monad.return False else m))
    (ends_in b (insert n N))"
proof (rule hoare_bind)
  show "hoare (on_run (waits b N)) (update_run (mark_failed n))
      (\<lambda>ok. on_run (\<lambda>r. settled (insert n N) r \<and> (\<not> ok \<longrightarrow> waits b (insert n N) r)))"
    by (auto simp: hoare_def on_run_def intro: mark_settled waits_settled mark_failed_refused_waits)
  show "hoare (on_run (\<lambda>r. settled (insert n N) r \<and> (\<not> ok \<longrightarrow> waits b (insert n N) r)))
      (if \<not> ok then State_Monad.return False else m) (ends_in b (insert n N))" for ok
    by (auto intro!: hoare_return ends_return hoare_pre[OF assms] simp: on_run_def)
qed

lemma infra_ends: "hoare (on_run (waits b N)) (handle_node_infra_failed env n reason) (ends_in b (insert n N))"
  unfolding handle_node_infra_failed_def
proof (rule hoare_bind[OF hoare_get_c], rule hoare_if)
  fix c :: coordinator
  assume "status_of c n \<in> {Some Success, Some Failed}"
  then show "hoare (\<lambda>s. on_run (waits b N) s \<and> c = fst s) (State_Monad.return False) (ends_in b (insert n N))"
    by (intro hoare_return ends_return) (auto simp: on_run_def waits_def settled_def status_of_def)
next
  fix c :: coordinator
  show "hoare (\<lambda>s. on_run (waits b N) s \<and> c = fst s)
     (update_run (mark_failed n) \<bind>
      (\<lambda>ok. if \<not> ok then State_Monad.return False
            else cancel_node_timeout n \<bind>
                 (\<lambda>_. persist_state env \<bind> (\<lambda>r. case r of Inl x \<Rightarrow> State_Monad.return True | Inr x \<Rightarrow> cancel_and_record env n (Some reason)))))
     (ends_in b (insert n N))"
    by (rule hoare_pre[OF mark_failed_ends]) (intro hoare_bind[OF hoare_kept] kept persist_ends cancel_ends, simp)
qed

lemma timed_out_ends: "hoare (on_run (waits b N)) (handle_node_timed_out env n) (ends_in b (insert n N))"
  unfolding handle_node_timed_out_def by (intro mark_failed_ends persist_ends cancel_ends)

lemma completed_ends: "hoare (on_run (waits b N)) (handle_node_completed env n success) (ends_in b (insert n N))"
proof -
  have dispatch: "hoare (on_run (settled M)) (do { record_node_completed env n None; dispatch_ready_nodes env; State_Monad.return False })
      (ends_in b M)" for M
    by (intro hoare_bind[OF hoare_kept] kept hoare_bind[OF dispatch_ready_waits] hoare_return)
      (auto simp: ends_in_def on_run_def waits_def)
  have failed: "hoare (on_run (settled M)) (do { record_node_completed env n None; stop_or_continue env }) (ends_in b M)" for M
    by (intro hoare_bind[OF hoare_kept] kept stop_ends)
  show ?thesis unfolding handle_node_completed_def
    by (intro hoare_if hoare_bind[OF hoare_mark[where G = "settled (insert n N)"]] persist_ends dispatch failed)
      (auto intro: mark_settled waits_settled)
qed

lemma waits_mono: "waits b N r \<Longrightarrow> M \<subseteq> N \<Longrightarrow> (b' \<Longrightarrow> b) \<Longrightarrow> waits b' M r"
  by (auto simp: waits_def settled_def)

lemma until_ends:
  assumes "\<And>x. x \<in> set xs \<Longrightarrow> hoare (on_run (waits b N)) (f x) (ends_in b N)"
  shows "hoare (on_run (waits b N)) (until_M f xs) (ends_in b N)"
proof -
  have "hoare (on_run (waits b N)) (until_M f xs) (\<lambda>stop s. if stop then on_run (waits False N) s else on_run (waits b N) s)"
    by (rule hoare_until_M, rule hoare_post[OF assms]) (auto simp: ends_in_def)
  then show ?thesis by (rule hoare_post) (auto simp: ends_in_def split: if_splits)
qed

lemma completed_handled_ends:
  "hoare (on_run (waits b N)) (do { cancel_node_timeout n; handle_node_completed env n success }) (ends_in b (insert n N))"
  by (rule hoare_bind[OF hoare_kept]) (rule kept completed_ends)+

lemma ends_mono: "ends_in b N stop s \<Longrightarrow> M \<subseteq> N \<Longrightarrow> ends_in b M stop s"
  by (auto simp: ends_in_def on_run_def intro: waits_mono)

lemma ends_False: "hoare (on_run (waits b N)) (State_Monad.return False) (ends_in b N)"
  by (rule hoare_return) (rule ends_return)

lemma fold_ends: "hoare (on_run (waits b N)) (fold_completions_from_outcomes env outcomes) (ends_in b N)"
  unfolding fold_completions_from_outcomes_def
proof (rule until_ends)
  fix x :: "string \<times> reconcile_result"
  have "hoare (on_run (waits b N)) (do { cancel_node_timeout n; handle_node_completed env n success }) (ends_in b N)" for n success
    by (rule hoare_post[OF completed_handled_ends]) (blast intro: ends_mono)
  then show "hoare (on_run (waits b N)) (case x of (node_name, result) \<Rightarrow>
      case result of Completed success _ _ \<Rightarrow> cancel_node_timeout node_name \<bind> (\<lambda>_. handle_node_completed env node_name success)
      | _ \<Rightarrow> State_Monad.return False) (ends_in b N)"
    by (simp add: ends_False split: prod.split reconcile_result.split)
qed

lemma reconcile_ends: "hoare (on_run (waits b N)) (reconcile_running_against_s3 env) (ends_in b N)"
  unfolding reconcile_running_against_s3_def
  by (rule hoare_bind[OF hoare_kept]) (rule kept fold_ends)+

lemma promote_ends: "hoare (on_run (waits False N)) (promote_node env n) (ends_in False N)"
proof -
  have mark: "hoare (on_run (waits False N)) (update_run (mark_running n)) (\<lambda>_. on_run (waits False N))"
    by (rule hoare_mark) (auto simp: waits_def intro: advances_settled mark_advances)
  have infra: "hoare (on_run (waits False N)) (handle_node_infra_failed env n reason) (ends_in False N)" for reason
    by (rule hoare_post[OF infra_ends]) (blast intro: ends_mono)
  show ?thesis unfolding promote_node_def
    by (rule hoare_bind[OF mark], rule hoare_if, rule ends_False, rule hoare_bind[OF hoare_kept], rule kept,
        rule hoare_get_c_keep, rule hoare_bind[OF hoare_kept], rule kept)
      (auto intro: infra ends_False split: sum.split bool.split)
qed

section \<open>Steps of the loop\<close>

text \<open>The events that end the run, and those that end a node.\<close>

fun stops :: "coord_event \<Rightarrow> bool" where
  "stops PipelineDeadline \<longleftrightarrow> True"
| "stops (BackplaneMessage (Some Cancel)) \<longleftrightarrow> True"
| "stops (BackplaneMessage None) \<longleftrightarrow> True"
| "stops _ \<longleftrightarrow> False"

fun ends_node :: "coord_event \<Rightarrow> string option" where
  "ends_node (BackplaneMessage (Some (NodeCompleted n _))) = Some n"
| "ends_node (InternalMessage (Some (NodeTimedOut n))) = Some n"
| "ends_node (InternalMessage (Some (NodeInfraFailed n _))) = Some n"
| "ends_node (InternalMessage (Some (NodePodStartTimedOut n))) = Some n"
| "ends_node _ = None"

definition waiting :: "string set \<Rightarrow> pipeline_run \<Rightarrow> bool" where
  "waiting N r \<longleftrightarrow> waits True N r \<and> \<not> is_complete r"

definition goes_on :: "string set \<Rightarrow> step_result \<Rightarrow> coordinator \<times> 'w \<Rightarrow> bool" where
  "goes_on N res s \<longleftrightarrow> (res = Continue \<longrightarrow> on_run (waiting N) s)"

lemma returned: "hoare P m Q \<Longrightarrow> hoare P (do { s \<leftarrow> m; State_Monad.return (Return s) }) (goes_on N)"
  by (erule hoare_bind) (rule hoare_return, simp add: goes_on_def)

lemma after_handler_waits: "hoare (ends_in True N stop) (after_handler env stop) (goes_on N)"
  unfolding after_handler_def
proof (rule hoare_if)
  show "hoare (ends_in True N stop) (do { s \<leftarrow> fail_run env RunFailure; State_Monad.return (Return s) }) (goes_on N)"
    by (rule returned[where Q = "\<lambda>_ _. True"]) (simp add: hoare_def split: prod.split)
  show "\<not> stop \<Longrightarrow> hoare (ends_in True N stop) (do { c \<leftarrow> get_c; State_Monad.return (if is_complete (c_run c) then BreakLoop else Continue) })
      (goes_on N)"
    by (rule hoare_bind[OF hoare_get_c], rule hoare_return) (auto simp: goes_on_def ends_in_def on_run_def waiting_def)
qed


lemma handled:
  "hoare (on_run (waits True N)) m (ends_in True M) \<Longrightarrow>
    hoare (on_run (waiting N)) (do { stop \<leftarrow> m; after_handler env stop }) (goes_on M)"
  by (rule hoare_bind[OF hoare_pre[of "on_run (waits True N)"] after_handler_waits]) (auto simp: on_run_def waiting_def)

lemma handled_completion:
  "hoare (on_run (waiting N)) (do { cancel_node_timeout n; stop \<leftarrow> handle_node_completed env n success; after_handler env stop })
    (goes_on (insert n N))"
  by (rule hoare_bind[OF hoare_kept]) (rule kept handled completed_ends)+

lemma unmoved: "hoare (on_run (waiting N)) (State_Monad.return Continue) (goes_on N)"
  by (rule hoare_return) (simp add: goes_on_def)

lemma any_post: "hoare P m (\<lambda>_ _. True)"
  by (simp add: hoare_def split: prod.split)

lemma step_waits:
  "hoare (on_run (waiting N)) (coord_step env e) (goes_on (set_option (ends_node e) \<union> N))"
proof (induction env e rule: coord_step.induct)
  case (2 env)
  show ?case unfolding coord_step.simps
    by (rule hoare_get_c_keep, rule hoare_bind[OF hoare_kept], rule kept, rule hoare_if)
      (simp_all add: unmoved returned[OF any_post])
next
  case (5 env n)
  show ?case unfolding coord_step.simps
    by (rule hoare_bind[OF hoare_kept], rule kept) (simp add: unmoved)
qed (simp_all add: returned[OF any_post] handled_completion unmoved handled timed_out_ends infra_ends reconcile_ends
      handle_pod_start_timed_out_def)

lemma stops_returns: "stops e \<Longrightarrow> hoare P (coord_step env e) (\<lambda>res _. res \<noteq> Continue)"
  by (induction e rule: stops.induct) (auto intro!: hoare_bind[OF any_post] hoare_return)

definition ended_by :: "coord_event list \<Rightarrow> string set" where
  "ended_by events = (\<Union>e\<in>set events. set_option (ends_node e))"

definition unless_done :: "(pipeline_run \<Rightarrow> bool) \<Rightarrow> run_summary option \<Rightarrow> coordinator \<times> 'w \<Rightarrow> bool" where
  "unless_done F r s \<longleftrightarrow> (r = None \<longrightarrow> on_run F s)"

lemma ended_run: "hoare P (do { s \<leftarrow> m; State_Monad.return (Some s) }) (unless_done F)"
  by (rule hoare_bind[OF any_post]) (rule hoare_return, simp add: unless_done_def)

lemma loop_waits:
  "hoare (on_run (waiting N)) (coord_loop env events)
    (unless_done (\<lambda>r. (\<forall>e\<in>set events. \<not> stops e) \<and> waiting (ended_by events \<union> N) r))"
proof (induction events arbitrary: N)
  case Nil
  then show ?case by (auto intro!: hoare_return simp: unless_done_def ended_by_def)
next
  case (Cons e es)
  have step: "hoare (on_run (waiting N)) (coord_step env e)
      (\<lambda>res s. goes_on (set_option (ends_node e) \<union> N) res s \<and> (stops e \<longrightarrow> res \<noteq> Continue))"
    using step_waits[of N env e] stops_returns[of e "on_run (waiting N)" env] by (fastforce simp: hoare_def split: prod.splits)
  let ?G = "\<lambda>r. (\<forall>e\<in>set (e # es). \<not> stops e) \<and> waiting (ended_by (e # es) \<union> N) r"
  have rest: "hoare (\<lambda>s. goes_on (set_option (ends_node e) \<union> N) Continue s \<and> \<not> stops e) (coord_loop env es) (unless_done ?G)"
    using Cons.IH[of "set_option (ends_node e) \<union> N"]
    by (auto simp: hoare_def goes_on_def unless_done_def on_run_def ended_by_def Un_ac split: prod.splits)
  show ?case unfolding coord_loop.simps
  proof (rule hoare_bind[OF step])
    show "hoare (\<lambda>s. goes_on (set_option (ends_node e) \<union> N) res s \<and> (stops e \<longrightarrow> res \<noteq> Continue))
        (case res of Continue \<Rightarrow> coord_loop env es
          | BreakLoop \<Rightarrow> do { s \<leftarrow> complete_run env; State_Monad.return (Some s) }
          | Return s \<Rightarrow> State_Monad.return (Some s)) (unless_done ?G)" for res
      using rest by (cases res) (auto intro: ended_run hoare_return simp: unless_done_def)
  qed
qed

section \<open>The run\<close>

lemma subscription_waits:
  "hoare (on_run (settled N)) (run_from_subscription env events)
    (unless_done (\<lambda>r. (\<forall>e\<in>set events. \<not> stops e) \<and> waiting (ended_by events \<union> N) r))" (is "hoare _ _ ?Q")
proof -
  have loop: "hoare (on_run (waits True N))
      (do { c \<leftarrow> get_c; if is_complete (c_run c) then do { s \<leftarrow> complete_run env; State_Monad.return (Some s) } else coord_loop env events })
      ?Q"
    by (rule hoare_bind[OF hoare_get_c], rule hoare_if, rule ended_run, rule hoare_pre[OF loop_waits])
      (auto simp: on_run_def waiting_def)
  show ?thesis unfolding run_from_subscription_def
    by (rule hoare_get_c_keep, rule hoare_bind[OF hoare_kept], rule kept, rule hoare_case_sum, rule ended_run,
        rule hoare_bind[OF dispatch_ready_waits loop])
qed

lemma rehydrate_settles: "hoare (on_run (settled N)) (rehydrate env) (unless_done (settled N))"
proof -
  have weak: "on_run (settled N) s \<Longrightarrow> on_run (waits False N) s" for s :: "coordinator \<times> 'a"
    by (simp add: on_run_def waits_def)
  have strong: "ends_in False N stop s \<Longrightarrow> on_run (settled N) s" for stop and s :: "coordinator \<times> 'a"
    by (simp add: ends_in_def on_run_def waits_def)
  have promote: "hoare (on_run (settled N)) (promote_started_pending_to_running env outcomes) (\<lambda>_. on_run (settled N))" for outcomes
    unfolding promote_started_pending_to_running_def Let_def
    by (rule hoare_get_c_keep, rule hoare_conseq[OF until_ends[OF promote_ends]]) (erule weak strong)+
  have fold: "hoare (on_run (settled N)) (fold_completions_from_outcomes env outcomes) (\<lambda>_. on_run (settled N))" for outcomes
    by (rule hoare_conseq[OF fold_ends]) (erule weak strong)+
  have last: "hoare (on_run (settled N))
      (do { c \<leftarrow> get_c; if is_complete (c_run c) then do { s \<leftarrow> complete_run env; State_Monad.return (Some s) } else State_Monad.return None })
      (unless_done (settled N))"
    by (rule hoare_get_c_keep, rule hoare_if, rule ended_run, rule hoare_return) (simp add: unless_done_def)
  show ?thesis unfolding rehydrate_def
    by (rule hoare_bind[OF hoare_kept], rule kept, rule hoare_bind[OF fold], rule hoare_if, rule ended_run,
        rule hoare_bind[OF promote], rule hoare_if, rule ended_run, rule hoare_bind[OF hoare_kept], rule kept, rule last)
qed

lemma run_waits:
  "hoare (on_run (settled {})) (coordinator_run env events)
    (unless_done (\<lambda>r. (\<forall>e\<in>set events. \<not> stops e) \<and> waiting (ended_by events) r))"
proof -
  note sub = subscription_waits[of "{}" env events, simplified]
  have cont: "hoare (unless_done (settled {}) r)
      (case r of Some s \<Rightarrow> State_Monad.return (Some s) | None \<Rightarrow> run_from_subscription env events)
      (unless_done (\<lambda>r. (\<forall>e\<in>set events. \<not> stops e) \<and> waiting (ended_by events) r))" for r
    using sub by (cases r) (auto simp: unless_done_def intro: hoare_return elim: hoare_pre)
  show ?thesis unfolding coordinator_run_def
    by (rule hoare_get_c_keep, rule hoare_if, rule hoare_bind[OF rehydrate_settles cont], rule sub)
qed

text \<open>
  Claim C8. A run whose end is reported does end, whatever the Redis, Kubernetes, RabbitMQ, PostgreSQL
  and GitHub of the environment answer: started on a well-formed run, new or recovered, the
  coordinator returns a summary once it has been told of the deadline, a cancellation or the loss of
  its subscription, or once every node it still counts as running has completed, timed out or failed in
  its infrastructure. It is never left waiting with nothing running: the nodes
  that became ready were dispatched, or were failed.
\<close>

theorem reported_runs_end:
  assumes "pr_wf (c_run c)" "State_Monad.run_state (coordinator_run env events) (c, w) = (r, (c', w'))"
    and "(\<exists>e\<in>set events. stops e) \<or>
      (\<forall>n. status_of c' n = Some Running \<longrightarrow> (\<exists>e\<in>set events. ends_node e = Some n))"
  shows "\<exists>summary. r = Some summary"
proof (rule ccontr)
  assume "\<nexists>summary. r = Some summary"
  then have none: "r = None" by simp
  have start: "on_run (settled {}) (c, w)" using assms(1) by (simp add: on_run_def settled_def)
  have quiet: "\<forall>e\<in>set events. \<not> stops e" and waiting: "waiting (ended_by events) (c_run c')"
    using hoareD[OF run_waits start assms(2)] none by (auto simp: unless_done_def on_run_def)
  obtain n where "n \<notin> ended_by events" "status_of c' n = Some Running"
    using waiting not_complete_running by (auto simp: waiting_def status_of_def)
  with assms(3) quiet show False by (auto simp: ended_by_def)
qed


theorem reported_runs_end_witness: "\<exists>summary. fst demo_ended = Some summary"
proof -
  let ?c = "the (fst demo_started)" and ?c' = "fst (snd demo_ended)"
  let ?es = "[BackplaneMessage (Some (NodeCompleted ''a'' True)), HeartbeatTick, BackplaneMessage (Some (NodeCompleted ''b'' True))]"
  from start_services.start_synced[OF demo_services demo_started_eq] demo_fresh
  have wf: "pr_wf (c_run ?c)" by (auto simp: fresh_run_def synced_def owning_def)
  have run: "State_Monad.run_state (coordinator_run demo_env ?es) (?c, snd demo_started) =
      (fst demo_ended, (?c', snd (snd demo_ended)))"
    by (simp add: demo_ended_def)
  have "pr_statuses (c_run ?c') = [(''a'', Success), (''b'', Success)]" by code_simp
  then have "status_of ?c' n \<noteq> Some Running" for n by (auto simp: status_of_def hm_get_def split: if_splits)
  then have "\<forall>n. status_of ?c' n = Some Running \<longrightarrow> (\<exists>e\<in>set ?es. ends_node e = Some n)" by blast
  with reported_runs_end[OF wf run] show ?thesis by blast
qed

end
