(* ===== verification/GreenRuns.thy ===== *)
theory GreenRuns
  imports Liveness
begin

text \<open>
  Runs in which nothing goes wrong: when Kubernetes accepts every job and only good news arrives, a run of an
  acyclic pipeline never fails, and ends with every node having succeeded.
\<close>

section \<open>On course\<close>

text \<open>\<open>green c0 c\<close>: the graph is the one of \<open>c0\<close>, the pipeline knows every node, and none has failed.\<close>

definition green :: "coordinator \<Rightarrow> coordinator \<Rightarrow> bool" where
  "green c0 c \<longleftrightarrow> pr_dependencies (c_run c) = pr_dependencies (c_run c0) \<and>
    (\<forall>n. status_of c n \<noteq> Some Failed \<and> (status_of c n = None \<longleftrightarrow> status_of c0 n = None) \<and>
      (status_of c0 n \<noteq> None \<longrightarrow> hm_get (c_node_info_cache c) n \<noteq> None))"

definition on_course :: "('w \<Rightarrow> observed) \<Rightarrow> coordinator \<Rightarrow> run_status list \<Rightarrow> coordinator \<times> 'w \<Rightarrow> bool" where
  "on_course view c0 R s \<longleftrightarrow> synced view c0 R s \<and> green c0 (fst s)"

lemma green_kept: "green c0 c \<Longrightarrow> same_identity c d \<Longrightarrow> c_run d = c_run c \<Longrightarrow> green c0 d"
  by (simp add: green_def same_identity_def status_of_def)

lemma on_courseD: "on_course view c0 R s \<Longrightarrow> synced view c0 R s" "on_course view c0 R s \<Longrightarrow> green c0 (fst s)"
  by (simp_all add: on_course_def)

lemma hoare_conj: "hoare P m Q \<Longrightarrow> hoare P' m Q' \<Longrightarrow> hoare (\<lambda>s. P s \<and> P' s) m (\<lambda>a s. Q a s \<and> Q' a s)"
  by (auto simp: hoare_def split: prod.splits)

lemma course_untouched: "state_io_rel (untouched view) m \<Longrightarrow> hoare (on_course view c0 R) m (\<lambda>_. on_course view c0 R)"
  by (erule hoare_io) (auto simp: on_course_def untouched_def intro: green_kept untouched_synced[unfolded untouched_def])

lemma green_marks:
  "green c0 c \<Longrightarrow> green c0 (c\<lparr>c_run := snd (mark_running n (c_run c))\<rparr>)"
  "green c0 c \<Longrightarrow> green c0 (c\<lparr>c_run := snd (mark_success n (c_run c))\<rparr>)"
  by (auto simp: green_def status_of_def mark_running_def mark_success_def pr_set_def split: if_splits)
    (metis not_None_eq option.distinct(1))+

lemma update_green:
  "(\<And>c. green c0 c \<Longrightarrow> green c0 (c\<lparr>c_run := snd (f (c_run c))\<rparr>)) \<Longrightarrow> hoare (\<lambda>s. green c0 (fst s)) (update_run f) (\<lambda>_ s. green c0 (fst s))"
  by (auto simp: hoare_def)

text \<open>The news a run can hear that do not stop it.\<close>

fun good_news :: "coord_event \<Rightarrow> bool" where
  "good_news HeartbeatTick \<longleftrightarrow> True"
| "good_news (BackplaneMessage (Some (NodeCompleted _ success))) \<longleftrightarrow> success"
| "good_news (InternalMessage (Some (NodePodRunning _))) \<longleftrightarrow> True"
| "good_news _ \<longleftrightarrow> False"

text \<open>After good news the run goes on or is complete, still on course.\<close>

definition course_post ::
  "('w \<Rightarrow> observed) \<Rightarrow> coordinator \<Rightarrow> run_status list \<Rightarrow> step_result \<Rightarrow> coordinator \<times> 'w \<Rightarrow> bool" where
  "course_post view c0 R res s \<longleftrightarrow> on_course view c0 R s \<and>
    (res = Continue \<or> res = BreakLoop \<and> is_complete (c_run (fst s)))"

text \<open>Without failures a complete run of an acyclic graph has succeeded.\<close>

lemma green_complete:
  assumes "pr_wf (c_run c)" "green c0 c" "is_complete (c_run c)" "deps_closed (c_run c0)" "acyclic (dep_edges (c_run c0))"
  shows "outcome_status c = RunSuccess"
proof -
  have edges: "dep_edges (c_run c) = dep_edges (c_run c0)" using assms(2) by (simp add: green_def dep_edges_def)
  have "deps_closed (c_run c)" using assms(2,4) by (auto simp: deps_closed_def edges green_def status_of_def)
  note blocked = complete_pending_blocked[OF assms(1) this assms(5)[folded edges] assms(3)]
  have "s = Success" if s: "hm_get (pr_statuses (c_run c)) n = Some s" for n s
  proof (cases s)
    case Pending
    with s blocked obtain f where "status_of c f = Some Failed" by (auto simp: status_of_def)
    with assms(2) show ?thesis by (simp add: green_def)
  qed (use s assms(1,2,3) in \<open>auto simp: green_def status_of_def is_complete_iff pr_wf_def\<close>)
  then show ?thesis
    using hm_values_all[of "pr_statuses (c_run c)" "\<lambda>s. s = Success"] assms(1)
    by (auto simp: outcome_status_def list_all_iff pr_wf_def)
qed

text \<open>The run goes on, or has ended as a success, with the nodes it started with.\<close>

definition succeeded :: "coordinator \<Rightarrow> run_summary option \<Rightarrow> coordinator \<times> 'w \<Rightarrow> bool" where
  "succeeded c0 r s \<longleftrightarrow> (case r of None \<Rightarrow> True
    | Some sm \<Rightarrow> sm_status sm = RunSuccess \<and>
        (\<forall>n. hm_get (sm_node_statuses sm) n = (if status_of c0 n = None then None else Some Success)))"

section \<open>Services that accept every node\<close>

locale green_services = start_services env view
  for env :: "'w coordinator_env" and view :: "'w \<Rightarrow> observed" +
  assumes dispatch_law: "\<exists>u. fst (State_Monad.run_state (dp_dispatch (sv_dispatcher env) i md n p cfg) w) = Inr u"
begin

lemma persist_course:
  "hoare (\<lambda>s. owning view c0 R s \<and> green c0 (fst s)) (persist_state env) (\<lambda>r s. r = Inr () \<and> on_course view c0 R s)"
proof -
  have "hoare (\<lambda>s. green c0 (fst s)) (persist_state env) (\<lambda>_ s. green c0 (fst s))"
    by (rule hoare_io[OF any_env.keeps_persist]) (auto simp: keeps_run_def intro: green_kept)
  from hoare_conj[OF persist_syncs this] show ?thesis by (rule hoare_post) (simp add: on_course_def)
qed

lemma mark_course:
  assumes "\<And>c. green c0 c \<Longrightarrow> green c0 (c\<lparr>c_run := snd (f (c_run c))\<rparr>)"
    and "hoare (owning view c0 R) (update_run f) (\<lambda>_. owning view c0 R)"
  shows "hoare (on_course view c0 R) (update_run f) (\<lambda>_ s. owning view c0 R s \<and> green c0 (fst s))"
  by (rule hoare_pre[OF hoare_conj[OF assms(2) update_green[OF assms(1)]]]) (auto simp: on_course_def synced_owning)

lemma running_course:
  "hoare (on_course view c0 R) (update_run (mark_running n)) (\<lambda>_ s. owning view c0 R s \<and> green c0 (fst s))"
  by (rule mark_course[OF green_marks(1) owning_mark(1)])

lemma success_course:
  "hoare (on_course view c0 R) (update_run (mark_success n)) (\<lambda>_ s. owning view c0 R s \<and> green c0 (fst s))"
  by (rule mark_course[OF green_marks(2) owning_mark(2)])

lemma dispatch_accepted:
  "hoare (on_course view c0 R) (call (dp_dispatch (sv_dispatcher env) i md n p cfg))
    (\<lambda>r s. (\<exists>u. r = Inr u) \<and> on_course view c0 R s)"
  using course_untouched[OF quiet_dispatch[THEN io_call_untouched], of c0 R i md n p cfg] dispatch_law[of i md n p cfg]
  by (simp add: hoare_def split: prod.splits) (metis fst_conv)

lemmas course_programs = untouched_programs[THEN course_untouched]

lemma dispatch_node_course:
  assumes "status_of c0 n \<noteq> None"
  shows "hoare (on_course view c0 R) (dispatch_node env n) (\<lambda>_. on_course view c0 R)"
proof -
  have save: "hoare (\<lambda>s. owning view c0 R s \<and> green c0 (fst s)) (persist_state_after_dispatch_transition env) (\<lambda>_. on_course view c0 R)"
    unfolding persist_state_after_dispatch_transition_def
    by (rule hoare_bind[OF persist_course]) (auto intro: hoare_return)
  have "hoare (on_course view c0 R) (update_run (mark_running n)) (\<lambda>ok s. if ok then owning view c0 R s else synced view c0 R s)"
    by (rule hoare_pre[OF synced_mark(1)]) (auto intro: on_courseD)
  then have mark: "hoare (on_course view c0 R) (update_run (mark_running n))
      (\<lambda>ok s. (owning view c0 R s \<and> green c0 (fst s)) \<and> (\<not> ok \<longrightarrow> on_course view c0 R s))"
    by (rule hoare_conseq[OF hoare_conj[OF running_course]]) (auto simp: on_course_def)
  have run: "hoare (on_course view c0 R) (do {
      ok \<leftarrow> update_run (mark_running n);
      if \<not> ok then State_Monad.return ()
      else do { persist_state_after_dispatch_transition env; record_node_dispatched env n node; arm_timer n StartupPhase secs }
    }) (\<lambda>_. on_course view c0 R)" for node secs
    by (rule hoare_bind[OF mark], rule hoare_if, rule hoare_return, simp,
        rule hoare_bind[OF hoare_pre[OF save]], simp) (intro hoare_bind[OF course_programs(5)] course_programs)
  have known: "hm_get (c_node_info_cache (fst s)) n \<noteq> None" if "on_course view c0 R s" for s
    using that assms by (simp add: on_course_def green_def)
  have accepted: "hoare (on_course view c0 R) (do {
      r \<leftarrow> call (dp_dispatch (sv_dispatcher env) i md node p cfg);
      (case r of Inr x \<Rightarrow> m | Inl e \<Rightarrow> m' e) }) (\<lambda>_. on_course view c0 R)"
    if "hoare (on_course view c0 R) m (\<lambda>_. on_course view c0 R)" for i md node p cfg m m'
    by (rule hoare_bind[OF dispatch_accepted]) (use that in \<open>auto simp: hoare_def split: sum.splits\<close>)
  have node: "hoare (\<lambda>s. on_course view c0 R s \<and> c = fst s)
      (case hm_get (c_node_info_cache c) n of None \<Rightarrow> m | Some node \<Rightarrow> f node) (\<lambda>_. on_course view c0 R)"
    if "\<And>node. hoare (on_course view c0 R) (f node) (\<lambda>_. on_course view c0 R)" for m f c
    by (rule hoare_case_option, rule hoare_lift[where b = False], metis known, simp, rule hoare_pre[OF that], simp)
  show ?thesis unfolding dispatch_node_def Let_def
    by (rule hoare_bind[OF hoare_get_c], rule node, rule accepted, rule run)
qed

lemma dispatch_ready_course: "hoare (on_course view c0 R) (dispatch_ready_nodes env) (\<lambda>_. on_course view c0 R)"
  unfolding dispatch_ready_nodes_def
proof (rule hoare_bind[OF hoare_get_c])
  fix c
  show "hoare (\<lambda>s. on_course view c0 R s \<and> c = fst s) (for_M (dispatch_node env) (ready_nodes (c_run c))) (\<lambda>_. on_course view c0 R)"
  proof (rule hoare_lift[where b = "\<forall>n\<in>set (ready_nodes (c_run c)). status_of c0 n \<noteq> None"])
    show "\<forall>n\<in>set (ready_nodes (c_run c)). status_of c0 n \<noteq> None" if "on_course view c0 R s \<and> c = fst s" for s
    proof
      fix n assume "n \<in> set (ready_nodes (c_run c))"
      moreover from that have "pr_wf (c_run c)" and green: "green c0 c" by (auto simp: on_course_def synced_def owning_def)
      ultimately have "status_of c n = Some Pending" by (simp add: ready_nodes_iff pr_wf_def status_of_def)
      moreover from green have "status_of c n = None \<longleftrightarrow> status_of c0 n = None" by (simp add: green_def)
      ultimately show "status_of c0 n \<noteq> None" by simp
    qed
    show "hoare (\<lambda>s. on_course view c0 R s \<and> c = fst s) (for_M (dispatch_node env) (ready_nodes (c_run c))) (\<lambda>_. on_course view c0 R)"
      if "\<forall>n\<in>set (ready_nodes (c_run c)). status_of c0 n \<noteq> None"
      by (rule hoare_pre[OF hoare_for_M[OF dispatch_node_course]]) (use that in auto)
  qed
qed

lemma completed_course:
  "hoare (on_course view c0 R) (handle_node_completed env n True) (\<lambda>stop s. \<not> stop \<and> on_course view c0 R s)"
proof -
  have go: "hoare (on_course view c0 R) (do { record_node_completed env n None; dispatch_ready_nodes env; State_Monad.return False })
      (\<lambda>stop s. \<not> stop \<and> on_course view c0 R s)"
    by (rule hoare_bind[OF course_programs(7)], rule hoare_bind[OF dispatch_ready_course]) (simp add: hoare_return)
  show ?thesis unfolding handle_node_completed_def if_True
    by (rule hoare_bind[OF success_course], rule hoare_bind[OF persist_course])
      (use go in \<open>auto simp: hoare_def split: sum.splits\<close>)
qed

lemma heartbeat_course:
  "hoare (on_course view c0 R) (coord_step env HeartbeatTick) (\<lambda>res s. res = Continue \<and> on_course view c0 R s)"
  unfolding hoare_def
proof (intro allI impI)
  fix s assume course: "on_course view c0 R s"
  let ?m = "ss_renew_lease (sv_state_store env) (c_run_id (fst s)) (c_server_id (fst s)) (c_lease_version (fst s)) 30"
  obtain r w where renew: "State_Monad.run_state ?m (snd s) = (r, w)" by force
  from renew_law[OF renew] course have "r = Inr True"
    by (auto simp: on_course_def synced_def owning_def same_identity_def lease_of_def)
  with renew have "State_Monad.run_state (coord_step env HeartbeatTick) s = (Continue, (fst s, w))" by simp
  moreover have "untouched view s (fst s, w)"
    using io_run_eq[OF quiet_renew[unfolded quiet_def] renew] by (simp add: untouched_def)
  ultimately show "case State_Monad.run_state (coord_step env HeartbeatTick) s of (res, t) \<Rightarrow> res = Continue \<and> on_course view c0 R t"
    using course by (auto simp: on_course_def intro: untouched_synced)
qed

lemma step_course:
  assumes "good_news e"
  shows "hoare (on_course view c0 R) (coord_step env e) (course_post view c0 R)"
  using assms
proof (cases e rule: good_news.cases)
  case 1
  then show ?thesis using hoare_post[OF heartbeat_course] by (simp add: course_post_def del: coord_step.simps)
next
  case (2 n success)
  have after: "hoare (\<lambda>s. \<not> stop \<and> on_course view c0 R s) (after_handler env stop) (course_post view c0 R)" for stop
    by (auto simp: hoare_def after_handler_def course_post_def)
  have "hoare (on_course view c0 R) (do { cancel_node_timeout n; stop \<leftarrow> handle_node_completed env n True; after_handler env stop })
      (course_post view c0 R)"
    by (rule hoare_bind[OF course_programs(2)], rule hoare_bind[OF completed_course after])
  with 2 assms show ?thesis by simp
next
  case (3 n)
  have "hoare (on_course view c0 R) (do { handle_pod_running env n; State_Monad.return Continue }) (course_post view c0 R)"
    by (rule hoare_bind[OF course_programs(4)], rule hoare_return) (simp add: course_post_def)
  with 3 show ?thesis by simp
qed simp_all

lemma complete_course:
  assumes "deps_closed (c_run c0)" "acyclic (dep_edges (c_run c0))"
  shows "hoare (\<lambda>s. on_course view c0 R s \<and> is_complete (c_run (fst s)))
    (do { sm \<leftarrow> complete_run env; State_Monad.return (Some sm) }) (succeeded c0)"
proof -
  have last: "hoare (on_run (\<lambda>r. r = run)) (do { coord_cleanup env; sm \<leftarrow> build_summary env RunSuccess; State_Monad.return (Some sm) })
      (succeeded c0)" if "\<forall>n. hm_get (pr_statuses run) n = (if status_of c0 n = None then None else Some Success)" for run
    unfolding build_summary_def State_Monad.bind_assoc
    by (rule hoare_bind[OF hoare_kept[OF any_env.keeps_cleanup]], rule hoare_bind[OF hoare_kept], rule kept,
        rule hoare_bind[OF hoare_get_c], simp, rule hoare_return) (use that in \<open>simp add: succeeded_def summary_of_def on_run_def\<close>)
  have "hoare (\<lambda>s. (on_course view c0 R s \<and> is_complete (c_run (fst s))) \<and> c = fst s)
      (do { finalize_run env (outcome_status c); coord_cleanup env; sm \<leftarrow> build_summary env (outcome_status c);
        State_Monad.return (Some sm) }) (succeeded c0)" for c
  proof (rule hoare_lift[where b = "outcome_status c = RunSuccess \<and> green c0 c \<and> pr_wf (c_run c)"])
    show "outcome_status c = RunSuccess \<and> green c0 c \<and> pr_wf (c_run c)" if "(on_course view c0 R s \<and> is_complete (c_run (fst s))) \<and> c = fst s" for s
      using that green_complete[OF _ _ _ assms, of c] by (auto simp: on_course_def synced_def owning_def)
    assume c: "outcome_status c = RunSuccess \<and> green c0 c \<and> pr_wf (c_run c)"
    then have nodes: "\<forall>n. hm_get (pr_statuses (c_run c)) n = (if status_of c0 n = None then None else Some Success)"
      using hm_values_all[of "pr_statuses (c_run c)" "\<lambda>s. s = Success"]
      by (auto simp: green_def status_of_def outcome_status_def pr_wf_def list_all_iff split: if_splits)
    have whole: "hoare (\<lambda>s. owning view c0 R s \<and> is_complete (c_run (fst s)) \<and> c_run (fst s) = c_run c)
      (do { finalize_run env RunSuccess; coord_cleanup env; sm \<leftarrow> build_summary env RunSuccess;
        State_Monad.return (Some sm) }) (succeeded c0)"
      by (rule hoare_bind[OF finalize_complete], rule hoare_pre[OF last[OF nodes]]) (simp add: on_run_def)
    show "hoare (\<lambda>s. (on_course view c0 R s \<and> is_complete (c_run (fst s))) \<and> c = fst s)
      (do { finalize_run env (outcome_status c); coord_cleanup env; sm \<leftarrow> build_summary env (outcome_status c);
        State_Monad.return (Some sm) }) (succeeded c0)"
      unfolding conjunct1[OF c] by (intro hoare_pre[OF whole]) (auto simp: on_course_def synced_owning)
  qed
  then show ?thesis unfolding complete_run_def Let_def State_Monad.bind_assoc by (rule hoare_bind[OF hoare_get_c])
qed

lemma loop_course:
  assumes "deps_closed (c_run c0)" "acyclic (dep_edges (c_run c0))" "list_all good_news es"
  shows "hoare (on_course view c0 R) (coord_loop env es) (succeeded c0)"
  using assms(3)
proof (induction es)
  case Nil
  then show ?case by (simp add: hoare_return succeeded_def)
next
  case (Cons e es)
  then have rest: "hoare (on_course view c0 R) (coord_loop env es) (succeeded c0)" and e: "good_news e" by simp_all
  have go: "hoare (course_post view c0 R Continue) (coord_loop env es) (succeeded c0)"
    by (rule hoare_pre[OF rest]) (simp add: course_post_def)
  have stop: "hoare (course_post view c0 R BreakLoop) (do { s \<leftarrow> complete_run env; State_Monad.return (Some s) }) (succeeded c0)"
    by (rule hoare_pre[OF complete_course[OF assms(1,2), of R]]) (simp add: course_post_def)
  have "hoare (course_post view c0 R res) (case res of
       Continue \<Rightarrow> coord_loop env es
     | BreakLoop \<Rightarrow> do { s \<leftarrow> complete_run env; State_Monad.return (Some s) }
     | Return s \<Rightarrow> State_Monad.return (Some s)) (succeeded c0)" for res
    using go stop by (cases res) (simp_all, simp add: course_post_def hoare_def)
  then show ?case unfolding coord_loop.simps by (rule hoare_bind[OF step_course[OF e]])
qed

lemma run_course:
  assumes "deps_closed (c_run c0)" "acyclic (dep_edges (c_run c0))" "list_all good_news es"
  shows "hoare (\<lambda>s. on_course view c0 R s \<and> \<not> c_is_rehydrate (fst s)) (coordinator_run env es) (succeeded c0)"
proof -
  have sub: "hoare (on_course view c0 R) (call (bp_subscribe_run (sv_backplane env) i))
      (\<lambda>r s. (\<exists>sub. r = Inr sub) \<and> on_course view c0 R s)" for i
    using quiet_subscribe[THEN io_call_untouched, THEN course_untouched, of c0 R i] subscribe_law[of i]
    by (simp add: hoare_def split: prod.splits) (metis fst_conv)
  have go: "hoare (on_course view c0 R) (do {
      dispatch_ready_nodes env;
      c \<leftarrow> get_c;
      if is_complete (c_run c) then do { s \<leftarrow> complete_run env; State_Monad.return (Some s) }
      else coord_loop env es }) (succeeded c0)"
    by (rule hoare_bind[OF dispatch_ready_course], rule hoare_bind[OF hoare_get_c], rule hoare_if)
      (auto intro: hoare_pre[OF complete_course[OF assms(1,2)]] hoare_pre[OF loop_course[OF assms]])
  have "hoare (on_course view c0 R) (run_from_subscription env es) (succeeded c0)"
    unfolding run_from_subscription_def
    by (rule hoare_get_c_keep, rule hoare_bind[OF sub]) (use go in \<open>auto simp: hoare_def split: sum.splits\<close>)
  then show ?thesis unfolding coordinator_run_def by (auto simp: hoare_def split: prod.splits)
qed

end

section \<open>The property\<close>

lemma pr_new_status: "hm_get (pr_statuses (pr_new nodes)) n = (if n \<in> ni_name ` set nodes then Some Pending else None)"
  by (induction nodes rule: rev_induct) (auto simp: pr_new_def hm_get_collect)

lemma green_new:
  assumes "c_run c = pr_new nodes" "c_node_info_cache c = hm_collect (map (\<lambda>n. (ni_name n, n)) nodes)"
  shows "green c c"
proof -
  have "hm_get (c_node_info_cache c) k \<noteq> None" if "k \<in> ni_name ` set nodes" for k
    using that unfolding assms(2) hm_get_collect by (auto simp: map_of_eq_None_iff image_iff)
  then show ?thesis using pr_new_status[of nodes] by (auto simp: green_def status_of_def assms(1))
qed

text \<open>
  Claim C9. A run that hears only good news succeeds: when the dispatcher accepts every node, a fresh run of a
  pipeline whose dependencies exist and have no cycle, and of which only successes of nodes, started pods and
  heartbeats are heard, never fails. Once each node that was started has been reported as successful the run has
  ended, its status is success, and every node of the pipeline has succeeded; until then some started node
  has not been reported.
\<close>

theorem green_runs_succeed:
  assumes "green_services env view" "fresh_run view i rc w"
    and "deps_closed (pr_new (pipeline_node_info p))" "acyclic (dep_edges (pr_new (pipeline_node_info p)))"
    and "State_Monad.run_state (start_coordinator env i p rc) w = (Some c, w1)"
    and "list_all good_news events"
    and "State_Monad.run_state (coordinator_run env events) (c, w1) = (r, (c', w2))"
  shows "case r of
      Some sm \<Rightarrow> sm_status sm = RunSuccess \<and> (\<forall>n\<in>set (pipeline_node_info p). hm_get (sm_node_statuses sm) (ni_name n) = Some Success)
    | None \<Rightarrow> \<exists>n. status_of c' n = Some Running \<and> (\<forall>e\<in>set events. ends_node e \<noteq> Some n)"
proof -
  have start: "start_services env view" using assms(1) by (simp add: green_services_def)
  from start_services.start_synced[OF start assms(5)] assms(2)
  have c: "synced view c (ob_reports (view w)) (c, w1)" "c_run c = pr_new (pipeline_node_info p)" "\<not> c_is_rehydrate c"
      "c_node_info_cache c = hm_collect (map (\<lambda>n. (ni_name n, n)) (pipeline_node_info p))"
    by (auto simp: fresh_run_def)
  note run = hoareD[OF green_services.run_course[OF assms(1), of c] _ assms(7)]
  have ok: "succeeded c r (c', w2)"
    by (rule run) (use c assms(3,4,6) green_new[OF c(2,4)] in \<open>simp_all add: on_course_def\<close>)
  show ?thesis
  proof (cases r)
    case None
    have "on_run (settled {}) (c, w1)" using c(1) by (auto simp: on_run_def settled_def synced_def owning_def)
    from hoareD[OF run_waits this assms(7)] None have "waiting (ended_by events) (c_run c')"
      by (simp add: unless_done_def on_run_def)
    with None show ?thesis using not_complete_running by (fastforce simp: waiting_def status_of_def ended_by_def)
  next
    case (Some sm)
    have "status_of c (ni_name n) \<noteq> None" if "n \<in> set (pipeline_node_info p)" for n
      using that c(2) by (simp add: status_of_def pr_new_status)
    with ok Some show ?thesis by (simp add: succeeded_def)
  qed
qed


section \<open>Interpretation and witness\<close>

interpretation sim_green: green_services "sim_env cfg uuid_parse" "sim_view uuid_parse" for cfg uuid_parse
proof
  show "\<exists>u. fst (State_Monad.run_state (dp_dispatch (sv_dispatcher (sim_env cfg uuid_parse)) i md n p c) w) = Inr u" for i md n p c w
    by (simp add: sim_env_def sim_dispatcher_def log_dispatch_def split: prod.split)
qed

lemma demo_graph:
  "deps_closed (pr_new (pipeline_node_info demo_pl))" "acyclic (dep_edges (pr_new (pipeline_node_info demo_pl)))"
proof -
  have new: "pr_new (pipeline_node_info demo_pl) = \<lparr> pr_statuses = [(''a'', Pending), (''b'', Pending)],
      pr_dependencies = [(''a'', []), (''b'', [''a''])] \<rparr>" by code_simp
  have edges: "dep_edges (pr_new (pipeline_node_info demo_pl)) = {(''a'', ''b'')}"
    unfolding new by (auto simp: dep_edges_def hm_get_def split: if_splits)
  show "deps_closed (pr_new (pipeline_node_info demo_pl))" unfolding deps_closed_def edges by (simp add: new hm_get_def)
  show "acyclic (dep_edges (pr_new (pipeline_node_info demo_pl)))"
    unfolding edges by (rule acyclic_insert[THEN iffD2]) (simp add: wf_acyclic)
qed

theorem green_runs_succeed_witness:
  "map_option (\<lambda>sm. (sm_status sm, hm_get (sm_node_statuses sm) ''b'')) (fst demo_ended) = Some (RunSuccess, Some Success)"
proof -
  let ?c = "the (fst demo_started)"
  let ?es = "[BackplaneMessage (Some (NodeCompleted ''a'' True)), HeartbeatTick, BackplaneMessage (Some (NodeCompleted ''b'' True))]"
  have green: "green_services demo_env (sim_view (\<lambda>_. Inr 7))" unfolding demo_env_def by (rule sim_green.green_services_axioms)
  have run: "State_Monad.run_state (coordinator_run demo_env ?es) (?c, snd demo_started) = (fst demo_ended, (fst (snd demo_ended), snd (snd demo_ended)))"
    by (simp add: demo_ended_def)
  have ended: "fst demo_ended \<noteq> None" by code_simp
  then obtain sm where sm: "fst demo_ended = Some sm" by blast
  have "list_all good_news ?es" by simp
  note result = green_runs_succeed[OF green demo_fresh demo_graph demo_started_eq this run]
  have "''b'' \<in> ni_name ` set (pipeline_node_info demo_pl)" by code_simp
  with result sm show ?thesis by auto
qed

end
