(* ===== verification/ClosedRuns.thy ===== *)
theory ClosedRuns
  imports GreenRuns
begin

text \<open>
  The coordinator together with the services it is wired to in the repository's tests: the loop of
  \<open>run\<close> polls its own subscription (\<open>src/coordinator/src/coordinator.rs\<close>), the log dispatcher publishes a
  completion for every node it is given (\<open>src/coordinator/src/dispatcher.rs\<close>), and the in-memory backplane
  carries it back (\<open>src/backplane/src/lib.rs\<close>). No event is assumed: what the coordinator hears of its nodes is
  what was published. The task that publishes a completion is taken to have run before the next turn of the loop.
\<close>

section \<open>The loop with its subscription\<close>

text \<open>One turn of \<open>select!\<close>: another branch fires, or the subscription is polled.\<close>

datatype turn = Fires coord_event | PollBackplane

definition select_event :: "'w coordinator_env \<Rightarrow> nat \<Rightarrow> turn \<Rightarrow> ('w, coord_event option) coord" where
  "select_event env sub t =
    (case t of
       Fires e \<Rightarrow> State_Monad.return (Some e)
     | PollBackplane \<Rightarrow> do {
         p \<leftarrow> call (bp_next_event (sv_backplane env) sub);
         State_Monad.return (case p of
            EventReady e \<Rightarrow> Some (BackplaneMessage (Some e))
          | EventClosed \<Rightarrow> Some (BackplaneMessage None)
          | EventPending \<Rightarrow> None)
       })"

text \<open>\<open>None\<close>: the turns are used up and the loop waits.\<close>

fun select_loop :: "'w coordinator_env \<Rightarrow> nat \<Rightarrow> turn list \<Rightarrow> ('w, run_summary option) coord" where
  "select_loop env sub [] = State_Monad.return None"
| "select_loop env sub (t # ts) = do {
    event \<leftarrow> select_event env sub t;
    (case event of
       None \<Rightarrow> select_loop env sub ts
     | Some e \<Rightarrow> do {
         r \<leftarrow> coord_step env e;
         (case r of
            Continue \<Rightarrow> select_loop env sub ts
          | BreakLoop \<Rightarrow> do { s \<leftarrow> complete_run env; State_Monad.return (Some s) }
          | Return s \<Rightarrow> State_Monad.return (Some s))
       })
  }"

definition run_subscribed :: "'w coordinator_env \<Rightarrow> turn list \<Rightarrow> ('w, run_summary option) coord" where
  "run_subscribed env turns = do {
    c \<leftarrow> get_c;
    sub \<leftarrow> call (bp_subscribe_run (sv_backplane env) (c_run_id c));
    (case sub of
       Inl _ \<Rightarrow> do { s \<leftarrow> build_summary env RunFailure; State_Monad.return (Some s) }
     | Inr subscription \<Rightarrow> do {
         dispatch_ready_nodes env;
         c \<leftarrow> get_c;
         if is_complete (c_run c) then do { s \<leftarrow> complete_run env; State_Monad.return (Some s) }
         else select_loop env subscription turns
       })
  }"

definition coordinator_selects :: "'w coordinator_env \<Rightarrow> turn list \<Rightarrow> ('w, run_summary option) coord" where
  "coordinator_selects env turns = do {
    c \<leftarrow> get_c;
    if c_is_rehydrate c then do {
      r \<leftarrow> rehydrate env;
      (case r of Some s \<Rightarrow> State_Monad.return (Some s) | None \<Rightarrow> run_subscribed env turns)
    }
    else run_subscribed env turns
  }"

text \<open>With the events given instead of polled it is the loop of the other theories.\<close>

lemma select_loop_fires: "select_loop env sub (map Fires es) = coord_loop env es"
  by (induction es) (auto simp: select_event_def intro!: arg_cong2[where f = State_Monad.bind] ext split: step_result.splits)

lemma coordinator_selects_fires: "coordinator_selects env (map Fires es) = coordinator_run env es"
proof -
  have "run_subscribed env (map Fires es) = run_from_subscription env es"
    unfolding run_subscribed_def run_from_subscription_def select_loop_fires ..
  then show ?thesis unfolding coordinator_selects_def coordinator_run_def by (simp only:)
qed

section \<open>What waits in a subscription\<close>

text \<open>The successes of the nodes \<open>ns\<close>, in this order, are what receiver \<open>r\<close> of run \<open>i\<close> has not read yet.\<close>

definition pending_successes :: "nat \<Rightarrow> string \<Rightarrow> in_memory_backplane \<Rightarrow> string list \<Rightarrow> bool" where
  "pending_successes r i b ns \<longleftrightarrow> (\<exists>pos sent. listening r i pos sent b \<and> pos \<le> length sent \<and>
    drop pos sent = map (\<lambda>n. NodeCompleted n True) ns)"

lemma subscribed_pending:
  "ib_wf b \<Longrightarrow> State_Monad.run_state (ib_subscribe_run i) b = (Inr r, b') \<Longrightarrow> pending_successes r i b' []"
  using subscribe_listening by (fastforce simp: pending_successes_def)

lemma publish_pending:
  assumes "pending_successes r i b ns"
  shows "pending_successes r i (snd (State_Monad.run_state (ib_publish_event i (NodeCompleted n True)) b)) (ns @ [n])"
proof -
  from assms obtain pos sent where "listening r i pos sent b" "pos \<le> length sent"
      "drop pos sent = map (\<lambda>n. NodeCompleted n True) ns" by (auto simp: pending_successes_def)
  with listening_publish[OF this(1), of "NodeCompleted n True"] show ?thesis
    unfolding pending_successes_def by (intro exI[of _ pos] exI[of _ "sent @ [NodeCompleted n True]"]) simp
qed

lemma poll_pending:
  assumes "pending_successes r i b (n # ns)" "length (n # ns) \<le> BROADCAST_CAPACITY"
    and "State_Monad.run_state (ib_next_event r) b = (p, b')"
  shows "p = EventReady (NodeCompleted n True) \<and> pending_successes r i b' ns"
proof -
  from assms(1) obtain pos sent where l: "listening r i pos sent b" "pos \<le> length sent"
      and unread: "drop pos sent = map (\<lambda>n. NodeCompleted n True) (n # ns)" by (auto simp: pending_successes_def)
  from unread have "length (drop pos sent) = length (n # ns)" by (metis length_map)
  with assms(2) have len: "length sent - pos \<le> BROADCAST_CAPACITY" and pos: "pos < length sent" by auto
  from unread Cons_nth_drop_Suc[OF pos] have "sent ! pos = NodeCompleted n True"
      "drop (Suc pos) sent = map (\<lambda>n. NodeCompleted n True) ns" by (metis list.inject list.simps(9))+
  with listening_poll[OF l(1) len l(2) assms(3)] pos show ?thesis
    unfolding pending_successes_def by (metis Suc_eq_plus1 Suc_leI)
qed

section \<open>Nodes in flight\<close>

text \<open>
  The nodes that run are exactly those whose success waits in the subscription, and those of \<open>xs\<close>, which
  was taken from it and is being handled; the pipeline knows every node.
\<close>

definition in_flight ::
  "(nat \<Rightarrow> string \<Rightarrow> 'v \<Rightarrow> string list \<Rightarrow> bool) \<Rightarrow> ('w \<Rightarrow> 'v) \<Rightarrow> nat \<Rightarrow> string list \<Rightarrow> coordinator \<times> 'w \<Rightarrow> bool" where
  "in_flight unread inbox r xs s \<longleftrightarrow> coord_ok (fst s) \<and>
    (\<forall>n. status_of (fst s) n \<noteq> None \<longrightarrow> hm_get (c_node_info_cache (fst s)) n \<noteq> None) \<and>
    (\<exists>ns. unread r (c_run_id (fst s)) (inbox (snd s)) ns \<and> distinct (xs @ ns) \<and>
      set (xs @ ns) = {n. status_of (fst s) n = Some Running})"

lemma in_flight_kept: "state_io_rel (keeps_run inbox) m \<Longrightarrow> hoare (in_flight unread inbox r xs) m (\<lambda>_. in_flight unread inbox r xs)"
  by (erule hoare_io) (simp add: in_flight_def keeps_run_def same_identity_def status_of_def coord_ok_def)

lemma in_flight_success:
  "hoare (in_flight unread inbox r [n]) (update_run (mark_success n)) (\<lambda>_. in_flight unread inbox r [])"
proof -
  have "in_flight unread inbox r [] (c\<lparr>c_run := snd (mark_success n (c_run c))\<rparr>, w)" if f: "in_flight unread inbox r [n] (c, w)" for c w
  proof -
    let ?d = "c\<lparr>c_run := snd (mark_success n (c_run c))\<rparr>"
    from f obtain ns where ns: "unread r (c_run_id c) (inbox w) ns" "distinct (n # ns)" "insert n (set ns) = {n. status_of c n = Some Running}"
      by (auto simp: in_flight_def)
    then have running: "status_of c n = Some Running" by auto
    then have st: "status_of ?d m = (if m = n then Some Success else status_of c m)" for m
      by (auto simp: status_of_def mark_success_def pr_set_def)
    with ns have "set ns = {n. status_of ?d n = Some Running}" by auto
    moreover have "coord_ok ?d" using f by (auto simp: in_flight_def coord_ok_def intro: mark_wf)
    moreover have "hm_get (c_node_info_cache c) m \<noteq> None" if "status_of ?d m \<noteq> None" for m
      using that f running by (auto simp: in_flight_def st split: if_splits)
    ultimately show ?thesis using ns by (auto simp: in_flight_def)
  qed
  then show ?thesis by (auto simp: hoare_def)
qed

text \<open>The turns of a run in which nothing but its own subscription tells it of its nodes.\<close>

fun harmless :: "turn \<Rightarrow> bool" where
  "harmless PollBackplane \<longleftrightarrow> True"
| "harmless (Fires HeartbeatTick) \<longleftrightarrow> True"
| "harmless (Fires ReconcileTick) \<longleftrightarrow> True"
| "harmless (Fires (InternalMessage None)) \<longleftrightarrow> True"
| "harmless (Fires (InternalMessage (Some (NodePodRunning _)))) \<longleftrightarrow> True"
| "harmless _ \<longleftrightarrow> False"

definition polls :: "turn list \<Rightarrow> nat" where
  "polls ts = length (filter (\<lambda>t. t = PollBackplane) ts)"

text \<open>
  \<open>steady\<close>: between two turns of such a run, in which the successes of the nodes of \<open>N\<close> have been handled.
  \<open>turn_post\<close>: after a turn it goes on, or is complete. \<open>ended_well\<close>: it has ended as a success, and if \<open>b\<close> it has ended.
\<close>

definition steady ::
  "('w \<Rightarrow> observed) \<Rightarrow> coordinator \<Rightarrow> run_status list \<Rightarrow> (string list \<Rightarrow> coordinator \<times> 'w \<Rightarrow> bool) \<Rightarrow> string set \<Rightarrow> string list \<Rightarrow>
    coordinator \<times> 'w \<Rightarrow> bool" where
  "steady view c0 R flying N xs s \<longleftrightarrow> on_course view c0 R s \<and> flying xs s \<and> on_run (waiting N) s"

definition turn_post ::
  "('w \<Rightarrow> observed) \<Rightarrow> coordinator \<Rightarrow> run_status list \<Rightarrow> (string list \<Rightarrow> coordinator \<times> 'w \<Rightarrow> bool) \<Rightarrow> string set \<Rightarrow> step_result \<Rightarrow>
    coordinator \<times> 'w \<Rightarrow> bool" where
  "turn_post view c0 R flying N res s \<longleftrightarrow> (res = Continue \<and> steady view c0 R flying N [] s) \<or>
    (res = BreakLoop \<and> on_course view c0 R s \<and> is_complete (c_run (fst s)))"

definition ended_well ::
  "('w \<Rightarrow> observed) \<Rightarrow> coordinator \<Rightarrow> run_status list \<Rightarrow> bool \<Rightarrow> run_summary option \<Rightarrow> coordinator \<times> 'w \<Rightarrow> bool" where
  "ended_well view c0 R b res s \<longleftrightarrow> succeeded c0 res s \<and> run_post view c0 R res s \<and> (b \<longrightarrow> res \<noteq> None)"

lemma until_none: "(\<And>x. x \<in> set xs \<Longrightarrow> f x = State_Monad.return False) \<Longrightarrow> until_M f xs = State_Monad.return False"
  by (induction xs) auto

lemma green_known: "green c0 c \<Longrightarrow> status_of c n = Some x \<Longrightarrow> status_of c0 n \<noteq> None"
  by (metis green_def option.distinct(1))

lemma hoare_ex: "(\<And>x. hoare (P x) m Q) \<Longrightarrow> hoare (\<lambda>s. \<exists>x. P x s) m Q"
  unfolding hoare_def by metis

lemma hoare_fact: "(b \<Longrightarrow> hoare P m Q) \<Longrightarrow> hoare (\<lambda>s. b \<and> P s) m Q"
  by (auto simp: hoare_def)

lemma nodes_finite: "finite {n. status_of c n \<noteq> None}"
  using finite_dom_map_of[of "pr_statuses (c_run c)"] by (simp add: status_of_def hm_get_def dom_def)

text \<open>
  Services that echo: a dispatched node is accepted and its success is waiting for the subscriber, who gets what
  waits in order, as long as it is not more than \<open>capacity\<close>. No outcomes are stored anywhere else.
\<close>

locale echo_services = green: green_services env view + bus: services_quiet env inbox
  for env :: "'w coordinator_env" and view :: "'w \<Rightarrow> observed" and inbox :: "'w \<Rightarrow> 'v" +
  fixes inbox_ok :: "'v \<Rightarrow> bool" and unread :: "nat \<Rightarrow> string \<Rightarrow> 'v \<Rightarrow> string list \<Rightarrow> bool" and capacity :: nat
  assumes subscribe_echo: "\<lbrakk> inbox_ok (inbox w); State_Monad.run_state (bp_subscribe_run (sv_backplane env) i) w = (Inr r, w') \<rbrakk> \<Longrightarrow>
      unread r i (inbox w') []"
    and dispatch_echo: "\<lbrakk> unread r i (inbox w) ns; State_Monad.run_state (dp_dispatch (sv_dispatcher env) i md info p cfg) w = (x, w') \<rbrakk> \<Longrightarrow>
      unread r i (inbox w') (ns @ [ni_name info])"
    and poll_echo: "\<lbrakk> unread r i (inbox w) (n # ns); length (n # ns) \<le> capacity;
      State_Monad.run_state (bp_next_event (sv_backplane env) r) w = (e, w') \<rbrakk> \<Longrightarrow>
      e = EventReady (NodeCompleted n True) \<and> unread r i (inbox w') ns"
    and quiet_poll: "quiet view (bp_next_event (sv_backplane env) r)"
    and no_outcomes: "\<lbrakk> State_Monad.run_state (dp_read_outcomes (sv_dispatcher env) i names) w = (found, w'); (n, res) \<in> set found \<rbrakk> \<Longrightarrow>
      res = StillRunning"
begin

lemma dispatch_node_runs:
  assumes run: "State_Monad.run_state (dispatch_node env n) s = (u, t)"
    and info: "hm_get (c_node_info_cache (fst s)) n = Some info"
  shows "\<exists>x w. State_Monad.run_state (dp_dispatch (sv_dispatcher env) (c_run_id (fst s)) (run_context_metadata (c_run_context (fst s)))
        info (c_pipeline (fst s)) (sv_config env)) (snd s) = (Inr x, w) \<and>
      keeps_run inbox ((fst s)\<lparr>c_run := snd (mark_running n (c_run (fst s)))\<rparr>, w) t"
proof -
  let ?c = "fst s"
  let ?m = "dp_dispatch (sv_dispatcher env) (c_run_id ?c) (run_context_metadata (c_run_context ?c)) info (c_pipeline ?c) (sv_config env)"
  obtain x w where d: "State_Monad.run_state ?m (snd s) = (Inr x, w)"
    using green.dispatch_law by (metis prod.collapse)
  define secs where "secs = (case ni_startup_timeout_secs info of Some s \<Rightarrow> s
    | None \<Rightarrow> default_node_startup_timeout_secs (sv_config env))"
  let ?rest = "if \<not> fst (mark_running n (c_run ?c)) then State_Monad.return ()
    else do { persist_state_after_dispatch_transition env; record_node_dispatched env n info; arm_timer n StartupPhase secs }"
  have "state_io_rel (keeps_run inbox) ?rest"
    by (intro bus.keeps_intros bus.keeps_persist_after bus.keeps_programs)
  moreover have "State_Monad.run_state ?rest (?c\<lparr>c_run := snd (mark_running n (c_run ?c))\<rparr>, w) = (u, t)"
    using run info d by (simp add: dispatch_node_def Let_def secs_def split: if_split_asm)
  ultimately show ?thesis using d io_run_eq by blast
qed

lemma dispatch_node_in_flight:
  assumes "n \<notin> set ns"
  shows "hoare (\<lambda>s. in_flight unread inbox r [] s \<and> (\<forall>m\<in>set (n # ns). status_of (fst s) m = Some Pending))
    (dispatch_node env n) (\<lambda>_ s. in_flight unread inbox r [] s \<and> (\<forall>m\<in>set ns. status_of (fst s) m = Some Pending))"
  unfolding hoare_def
proof (intro allI impI)
  fix s
  assume pre: "in_flight unread inbox r [] s \<and> (\<forall>m\<in>set (n # ns). status_of (fst s) m = Some Pending)"
  let ?c = "fst s"
  obtain u t where run: "State_Monad.run_state (dispatch_node env n) s = (u, t)" by (meson surj_pair)
  from pre obtain info where info: "hm_get (c_node_info_cache ?c) n = Some info" by (fastforce simp: in_flight_def)
  with pre have name: "ni_name info = n" by (auto simp: in_flight_def coord_ok_def)
  from dispatch_node_runs[OF run info] obtain x w where d: "State_Monad.run_state (dp_dispatch (sv_dispatcher env) (c_run_id ?c)
      (run_context_metadata (c_run_context ?c)) info (c_pipeline ?c) (sv_config env)) (snd s) = (Inr x, w)"
    and kept: "keeps_run inbox (?c\<lparr>c_run := snd (mark_running n (c_run ?c))\<rparr>, w) t" by blast
  from pre obtain ms where ms: "unread r (c_run_id ?c) (inbox (snd s)) ms" "distinct ms" "set ms = {n. status_of ?c n = Some Running}"
    by (auto simp: in_flight_def)
  have st: "status_of (fst t) m = (if m = n then Some Running else status_of ?c m)" for m
    using kept pre by (auto simp: keeps_run_def status_of_def mark_running_def pr_set_def)
  from dispatch_echo[OF ms(1) d] kept have "unread r (c_run_id (fst t)) (inbox (snd t)) (ms @ [n])"
    by (simp add: keeps_run_def same_identity_def name)
  moreover have "distinct (ms @ [n])" "set (ms @ [n]) = {n. status_of (fst t) n = Some Running}"
    using ms pre by (auto simp: st)
  moreover have "coord_ok (fst t)"
    using kept pre by (auto simp: in_flight_def coord_ok_def keeps_run_def same_identity_def intro: mark_wf)
  moreover have "\<forall>m. status_of (fst t) m \<noteq> None \<longrightarrow> hm_get (c_node_info_cache (fst t)) m \<noteq> None"
    using kept pre info by (auto simp: st in_flight_def keeps_run_def same_identity_def)
  ultimately have "in_flight unread inbox r [] t" unfolding in_flight_def by (metis append_Nil)
  moreover have "\<forall>m\<in>set ns. status_of (fst t) m = Some Pending" using pre assms by (auto simp: st)
  ultimately show "case State_Monad.run_state (dispatch_node env n) s of (u, t) \<Rightarrow>
      in_flight unread inbox r [] t \<and> (\<forall>m\<in>set ns. status_of (fst t) m = Some Pending)" by (simp add: run)
qed

lemma dispatch_all_in_flight:
  "distinct ns \<Longrightarrow> hoare (\<lambda>s. in_flight unread inbox r [] s \<and> (\<forall>m\<in>set ns. status_of (fst s) m = Some Pending))
    (for_M (dispatch_node env) ns) (\<lambda>_. in_flight unread inbox r [])"
proof (induction ns)
  case Nil
  then show ?case by (auto intro!: hoare_return)
next
  case (Cons n ns)
  then have "n \<notin> set ns" and rest: "hoare (\<lambda>s. in_flight unread inbox r [] s \<and> (\<forall>m\<in>set ns. status_of (fst s) m = Some Pending))
      (for_M (dispatch_node env) ns) (\<lambda>_. in_flight unread inbox r [])" by auto
  from hoare_bind[OF dispatch_node_in_flight[OF this(1)] rest] show ?case by simp
qed

lemma dispatch_ready_in_flight:
  "hoare (in_flight unread inbox r []) (dispatch_ready_nodes env) (\<lambda>_. in_flight unread inbox r [])"
  unfolding dispatch_ready_nodes_def
proof (rule hoare_bind[OF hoare_get_c])
  fix c
  show "hoare (\<lambda>s. in_flight unread inbox r [] s \<and> c = fst s) (for_M (dispatch_node env) (ready_nodes (c_run c)))
      (\<lambda>_. in_flight unread inbox r [])"
  proof (rule hoare_lift[where b = "coord_ok c"])
    assume "coord_ok c"
    then have wf: "hm_wf (pr_statuses (c_run c))" by (simp add: coord_ok_def pr_wf_def)
    then have "distinct (ready_nodes (c_run c))" by (simp add: ready_nodes_def hm_wf_def distinct_map_filter)
    then show "hoare (\<lambda>s. in_flight unread inbox r [] s \<and> c = fst s) (for_M (dispatch_node env) (ready_nodes (c_run c)))
      (\<lambda>_. in_flight unread inbox r [])"
      by (rule hoare_pre[OF dispatch_all_in_flight]) (auto simp: status_of_def ready_nodes_iff[OF wf])
  qed (simp add: in_flight_def)
qed

end

context echo_services
begin

lemma reconcile_idle:
  assumes "hoare P (read_outcomes_for_non_terminal env) (\<lambda>_. P)"
  shows "hoare P (coord_step env ReconcileTick) (\<lambda>res s. P s \<and> (res = Continue \<or> res = BreakLoop \<and> is_complete (c_run (fst s))))"
proof -
  have call: "hoare (\<lambda>_. True) (call (dp_read_outcomes (sv_dispatcher env) i names)) (\<lambda>found _. \<forall>(n, x)\<in>set found. x = StillRunning)" for i names
    by (auto simp: hoare_def split: prod.splits dest: no_outcomes)
  have "hoare (\<lambda>_. True) (read_outcomes_for_non_terminal env) (\<lambda>found _. \<forall>(n, x)\<in>set found. x = StillRunning)"
    unfolding read_outcomes_for_non_terminal_def Let_def
    by (rule hoare_get_c_keep, rule hoare_if, rule hoare_return, simp, rule hoare_bind[OF any_post], rule hoare_if)
      (auto intro: hoare_pre[OF call] hoare_return)
  from hoare_conj[OF assms this] have read: "hoare P (read_outcomes_for_non_terminal env)
      (\<lambda>found s. P s \<and> (\<forall>(n, x)\<in>set found. x = StillRunning))" by simp
  have fold: "hoare (\<lambda>s. P s \<and> (\<forall>(n, x)\<in>set found. x = StillRunning)) (fold_completions_from_outcomes env found)
      (\<lambda>stop s. P s \<and> \<not> stop)" for found
  proof (rule hoare_lift[where b = "\<forall>(n, x)\<in>set found. x = StillRunning"])
    assume still: "\<forall>(n, x)\<in>set found. x = StillRunning"
    have "fold_completions_from_outcomes env found = State_Monad.return False"
      unfolding fold_completions_from_outcomes_def by (rule until_none) (use still in auto)
    then show "hoare (\<lambda>s. P s \<and> (\<forall>(n, x)\<in>set found. x = StillRunning)) (fold_completions_from_outcomes env found)
      (\<lambda>stop s. P s \<and> \<not> stop)" by (simp add: hoare_def)
  qed simp
  have after: "hoare (\<lambda>s. P s \<and> \<not> stop) (after_handler env stop)
      (\<lambda>res s. P s \<and> (res = Continue \<or> res = BreakLoop \<and> is_complete (c_run (fst s))))" for stop
    by (auto simp: hoare_def after_handler_def)
  show ?thesis unfolding coord_step.simps reconcile_running_against_s3_def State_Monad.bind_assoc
    by (rule hoare_bind[OF read hoare_bind[OF fold after]])
qed

text \<open>Harmless events keep the run on course, and what is in flight stays in flight.\<close>

lemma harmless_course:
  assumes "harmless (Fires e)"
  shows "hoare (on_course view c0 R) (coord_step env e) (course_post view c0 R)"
proof (cases "good_news e")
  case False
  with assms have "e = ReconcileTick \<or> e = InternalMessage None" by (cases "Fires e" rule: harmless.cases) auto
  moreover have "hoare (on_course view c0 R) (coord_step env ReconcileTick) (course_post view c0 R)"
    by (rule hoare_post[OF reconcile_idle[OF green.course_programs(9)]]) (auto simp: course_post_def)
  moreover have "hoare (on_course view c0 R) (coord_step env (InternalMessage None)) (course_post view c0 R)"
    by (simp add: hoare_def course_post_def)
  ultimately show ?thesis by blast
qed (rule green.step_course)

lemma harmless_in_flight:
  assumes "harmless (Fires e)"
  shows "hoare (in_flight unread inbox r []) (coord_step env e) (\<lambda>_. in_flight unread inbox r [])"
  using assms
proof (cases "Fires e" rule: harmless.cases)
  case 2
  then have e: "e = HeartbeatTick" by simp
  have "state_io_rel (keeps_run inbox) (coord_step env HeartbeatTick)"
    unfolding coord_step.simps by (intro bus.keeps_intros bus.keeps_programs)
  then show ?thesis unfolding e by (rule in_flight_kept)
next
  case 3
  then have e: "e = ReconcileTick" by simp
  show ?thesis unfolding e by (rule hoare_post[OF reconcile_idle[OF in_flight_kept[OF bus.keeps_programs(9)]]]) simp
next
  case (5 n)
  then have e: "e = InternalMessage (Some (NodePodRunning n))" by simp
  have "state_io_rel (keeps_run inbox) (coord_step env e)"
    unfolding e coord_step.simps by (intro bus.keeps_intros bus.keeps_programs)
  then show ?thesis by (rule in_flight_kept)
qed (auto intro: hoare_return)

lemma completed_in_flight:
  "hoare (in_flight unread inbox r [n]) (coord_step env (BackplaneMessage (Some (NodeCompleted n True))))
    (\<lambda>res s. res = Continue \<longrightarrow> in_flight unread inbox r [] s)"
proof -
  have rest: "hoare (in_flight unread inbox r []) (do { record_node_completed env n None; dispatch_ready_nodes env; State_Monad.return False })
      (\<lambda>_. in_flight unread inbox r [])"
    by (intro hoare_bind[OF in_flight_kept[OF bus.keeps_programs(7)]] hoare_bind[OF dispatch_ready_in_flight] hoare_return)
  have handle: "hoare (in_flight unread inbox r [n]) (handle_node_completed env n True) (\<lambda>_. in_flight unread inbox r [])"
    unfolding handle_node_completed_def if_True
    by (intro hoare_bind[OF in_flight_success] hoare_bind[OF in_flight_kept[OF bus.keeps_persist]] hoare_case_sum hoare_return rest)
  have after: "hoare (in_flight unread inbox r []) (after_handler env stop) (\<lambda>res s. res = Continue \<longrightarrow> in_flight unread inbox r [] s)" for stop
    unfolding after_handler_def
    by (rule hoare_if, rule hoare_bind[OF any_post], rule hoare_return, simp, rule hoare_get_c_keep, rule hoare_return) blast
  show ?thesis unfolding coord_step.simps
    by (rule hoare_bind[OF in_flight_kept[OF bus.keeps_programs(2)]], rule hoare_bind[OF handle after])
qed

lemma step_steady:
  assumes "hoare (on_course view c0 R) (coord_step env e) (course_post view c0 R)"
    and "hoare (in_flight unread inbox r xs) (coord_step env e) (\<lambda>res s. res = Continue \<longrightarrow> in_flight unread inbox r [] s)"
  shows "hoare (steady view c0 R (in_flight unread inbox r) N xs) (coord_step env e) (turn_post view c0 R (in_flight unread inbox r) (set_option (ends_node e) \<union> N))"
  by (rule hoare_conseq[OF hoare_conj[OF hoare_conj[OF assms] step_waits]])
    (auto simp: steady_def turn_post_def course_post_def goes_on_def)

lemma harmless_steady:
  assumes "harmless (Fires e)"
  shows "hoare (steady view c0 R (in_flight unread inbox r) N []) (coord_step env e) (turn_post view c0 R (in_flight unread inbox r) N)"
proof -
  have "ends_node e = None" using assms by (cases "Fires e" rule: harmless.cases) auto
  with step_steady[OF harmless_course[OF assms] hoare_post[OF harmless_in_flight[OF assms]]]
  show ?thesis by fastforce
qed

lemma completed_steady:
  "hoare (steady view c0 R (in_flight unread inbox r) N [n]) (coord_step env (BackplaneMessage (Some (NodeCompleted n True))))
    (turn_post view c0 R (in_flight unread inbox r) (insert n N))"
  using step_steady[OF green.step_course completed_in_flight, of n] by simp

end

context echo_services
begin

text \<open>
  A run that waits has a node running, so a poll of its subscription finds the success of a node that has not
  been handled before.
\<close>

lemma poll_steady:
  assumes "card {n. status_of c0 n \<noteq> None} \<le> capacity"
  shows "hoare (steady view c0 R (in_flight unread inbox r) N []) (select_event env r PollBackplane)
    (\<lambda>e s. \<exists>n. e = Some (BackplaneMessage (Some (NodeCompleted n True))) \<and> n \<notin> N \<and> status_of c0 n \<noteq> None \<and>
      steady view c0 R (in_flight unread inbox r) N [n] s)"
  unfolding hoare_def
proof (intro allI impI)
  fix s
  assume s: "steady view c0 R (in_flight unread inbox r) N [] s"
  let ?c = "fst s" and ?w = "snd s"
  from s have course: "on_course view c0 R s" and fly: "in_flight unread inbox r [] s" and wait: "on_run (waiting N) s"
    by (simp_all add: steady_def)
  from fly obtain ns where ns: "unread r (c_run_id ?c) (inbox ?w) ns" "distinct ns" "set ns = {n. status_of ?c n = Some Running}"
    by (auto simp: in_flight_def)
  have known: "set ns \<subseteq> {n. status_of c0 n \<noteq> None}"
    using course ns(3) by (auto simp: on_course_def dest: green_known)
  from wait not_complete_running[of N "c_run ?c"] ns(3) have "ns \<noteq> []" by (auto simp: on_run_def waiting_def status_of_def)
  then obtain n ms where n: "ns = n # ms" by (cases ns) auto
  have len: "length (n # ms) \<le> capacity"
    using card_mono[OF nodes_finite known] distinct_card[OF ns(2)] assms by (simp add: n)
  obtain p w where poll: "State_Monad.run_state (bp_next_event (sv_backplane env) r) ?w = (p, w)" by (meson surj_pair)
  from poll_echo[OF ns(1)[unfolded n] len poll] have p: "p = EventReady (NodeCompleted n True)" and ms: "unread r (c_run_id ?c) (inbox w) ms"
    by auto
  have "untouched view s (?c, w)"
    using io_run_eq[OF quiet_poll[unfolded quiet_def] poll] by (simp add: untouched_def)
  with course have "on_course view c0 R (?c, w)" by (auto simp: on_course_def intro: untouched_synced)
  moreover have "in_flight unread inbox r [n] (?c, w)" using fly ms ns(2,3) by (auto simp: in_flight_def n)
  moreover have "n \<notin> N"
  proof
    assume "n \<in> N"
    with wait have "status_of ?c n \<noteq> Some Running" by (auto simp: on_run_def waiting_def waits_def settled_def status_of_def)
    with ns(3) n show False by auto
  qed
  moreover have "status_of c0 n \<noteq> None" using known n by auto
  ultimately show "case State_Monad.run_state (select_event env r PollBackplane) s of (e, t) \<Rightarrow>
      \<exists>n. e = Some (BackplaneMessage (Some (NodeCompleted n True))) \<and> n \<notin> N \<and> status_of c0 n \<noteq> None \<and>
        steady view c0 R (in_flight unread inbox r) N [n] t"
    using wait poll p by (simp add: select_event_def steady_def on_run_def)
qed

lemma complete_ends_well:
  assumes "deps_closed (c_run c0)" "acyclic (dep_edges (c_run c0))"
  shows "hoare (\<lambda>s. on_course view c0 R s \<and> is_complete (c_run (fst s)))
    (do { sm \<leftarrow> complete_run env; State_Monad.return (Some sm) }) (ended_well view c0 R b)"
proof -
  have some: "hoare (\<lambda>_. True) (do { sm \<leftarrow> complete_run env; State_Monad.return (Some sm) }) (\<lambda>res _. res \<noteq> None)"
    by (rule hoare_bind[OF any_post]) (simp add: hoare_return)
  show ?thesis
    by (rule hoare_conseq[OF hoare_conj[OF hoare_conj[OF green.complete_course[OF assms] green.complete_run_some] some]])
      (auto simp: ended_well_def on_course_def)
qed

text \<open>As many polls as nodes are left are enough.\<close>

lemma loop_ends_well:
  assumes "deps_closed (c_run c0)" "acyclic (dep_edges (c_run c0))" "card {n. status_of c0 n \<noteq> None} \<le> capacity"
    and "list_all harmless ts" "card ({n. status_of c0 n \<noteq> None} - N) \<le> polls ts \<longleftrightarrow> b"
  shows "hoare (steady view c0 R (in_flight unread inbox r) N []) (select_loop env r ts) (ended_well view c0 R b)"
  using assms(4,5)
proof (induction ts arbitrary: N b)
  case Nil
  have "\<not> b" if s: "steady view c0 R (in_flight unread inbox r) N [] s" for s
  proof
    assume b
    with Nil nodes_finite have "{n. status_of c0 n \<noteq> None} \<subseteq> N" by (simp add: polls_def)
    moreover obtain n where "n \<notin> N" "status_of (fst s) n = Some Running"
      using s not_complete_running[of N "c_run (fst s)"] by (auto simp: steady_def on_run_def waiting_def status_of_def)
    moreover have "status_of c0 n \<noteq> None" using s calculation(3) by (auto simp: steady_def on_course_def dest: green_known)
    ultimately show False by auto
  qed
  then show ?case by (auto intro!: hoare_return simp: ended_well_def succeeded_def run_post_def steady_def on_course_def)
next
  case (Cons t ts)
  have after: "hoare (turn_post view c0 R (in_flight unread inbox r) M res) (case res of
       Continue \<Rightarrow> select_loop env r ts
     | BreakLoop \<Rightarrow> do { s \<leftarrow> complete_run env; State_Monad.return (Some s) }
     | Return s \<Rightarrow> State_Monad.return (Some s)) (ended_well view c0 R b)"
    if "card ({n. status_of c0 n \<noteq> None} - M) \<le> polls ts \<longleftrightarrow> b" for M res
    using Cons.IH[OF _ that] Cons.prems(1) complete_ends_well[OF assms(1,2), of R b]
    by (cases res) (auto simp: turn_post_def hoare_def)
  show ?case
  proof (cases t)
    case (Fires e)
    with Cons.prems have e: "harmless (Fires e)" and b: "card ({n. status_of c0 n \<noteq> None} - N) \<le> polls ts \<longleftrightarrow> b"
      by (simp_all add: polls_def)
    from hoare_bind[OF harmless_steady[OF e] after[OF b]] show ?thesis by (simp add: Fires select_event_def)
  next
    case PollBackplane
    have fewer: "card ({n. status_of c0 n \<noteq> None} - insert n N) \<le> polls ts \<longleftrightarrow> b" if "n \<notin> N" "status_of c0 n \<noteq> None" for n
    proof -
      have "{n. status_of c0 n \<noteq> None} - N = insert n ({n. status_of c0 n \<noteq> None} - insert n N)" using that by auto
      then have "card ({n. status_of c0 n \<noteq> None} - N) = Suc (card ({n. status_of c0 n \<noteq> None} - insert n N))"
        using nodes_finite[of c0] by (metis Diff_iff card_insert_disjoint finite_Diff insertI1)
      with Cons.prems(2) PollBackplane show ?thesis by (simp add: polls_def)
    qed
    show ?thesis unfolding PollBackplane select_loop.simps
    proof (rule hoare_bind[OF poll_steady[OF assms(3)]])
      fix e
      show "hoare (\<lambda>s. \<exists>n. e = Some (BackplaneMessage (Some (NodeCompleted n True))) \<and> n \<notin> N \<and> status_of c0 n \<noteq> None \<and>
            steady view c0 R (in_flight unread inbox r) N [n] s)
          (case e of None \<Rightarrow> select_loop env r ts
           | Some e \<Rightarrow> coord_step env e \<bind> (\<lambda>res. case res of Continue \<Rightarrow> select_loop env r ts
              | BreakLoop \<Rightarrow> complete_run env \<bind> (\<lambda>s. State_Monad.return (Some s)) | Return s \<Rightarrow> State_Monad.return (Some s)))
          (ended_well view c0 R b)"
        by (intro hoare_ex hoare_fact) (simp only: option.case, rule hoare_bind[OF completed_steady after[OF fewer]])
    qed
  qed
qed

lemma selects_ends_well:
  assumes "deps_closed (c_run c0)" "acyclic (dep_edges (c_run c0))" "card {n. status_of c0 n \<noteq> None} \<le> capacity"
    and "list_all harmless ts" "card {n. status_of c0 n \<noteq> None} \<le> polls ts"
  shows "hoare (\<lambda>s. on_course view c0 R s \<and> in_flight (\<lambda>_ _ v ns. inbox_ok v \<and> ns = []) inbox 0 [] s \<and> \<not> c_is_rehydrate (fst s))
    (coordinator_selects env ts) (ended_well view c0 R True)"
proof -
  let ?idle = "in_flight (\<lambda>_ _ v ns. inbox_ok v \<and> ns = []) inbox 0 []"
  have sub: "hoare (\<lambda>s. (on_course view c0 R s \<and> ?idle s) \<and> c = fst s) (call (bp_subscribe_run (sv_backplane env) (c_run_id c)))
      (\<lambda>x s. case x of Inl _ \<Rightarrow> False | Inr r \<Rightarrow> on_course view c0 R s \<and> in_flight unread inbox r [] s)" for c
  proof -
    have "hoare (on_course view c0 R) (call (bp_subscribe_run (sv_backplane env) (c_run_id c)))
      (\<lambda>x s. (\<exists>r. x = Inr r) \<and> on_course view c0 R s)"
      using green.quiet_subscribe[THEN io_call_untouched, THEN course_untouched, of c0 R "c_run_id c"] green.subscribe_law[of "c_run_id c"]
      by (simp add: hoare_def split: prod.splits) (metis fst_conv)
    moreover have "in_flight unread inbox r [] (c, w')" if idle: "?idle (c, w)"
        and sub: "State_Monad.run_state (bp_subscribe_run (sv_backplane env) (c_run_id c)) w = (Inr r, w')" for w r w'
      using idle subscribe_echo[OF _ sub] by (auto simp: in_flight_def)
    ultimately show ?thesis by (fastforce simp: hoare_def split: prod.splits sum.splits)
  qed
  have go: "hoare (\<lambda>s. on_course view c0 R s \<and> in_flight unread inbox r [] s) (do {
      dispatch_ready_nodes env;
      c \<leftarrow> get_c;
      if is_complete (c_run c) then do { s \<leftarrow> complete_run env; State_Monad.return (Some s) }
      else select_loop env r ts }) (ended_well view c0 R True)" for r
  proof -
    have ready: "hoare (\<lambda>s. on_course view c0 R s \<and> in_flight unread inbox r [] s) (dispatch_ready_nodes env)
        (\<lambda>_ s. on_course view c0 R s \<and> in_flight unread inbox r [] s \<and> on_run (waits True {}) s)"
      by (rule hoare_conseq[OF hoare_conj[OF hoare_conj[OF green.dispatch_ready_course dispatch_ready_in_flight] dispatch_ready_waits]])
        (auto simp: on_run_def settled_def on_course_def synced_def owning_def)
    have loop: "hoare (steady view c0 R (in_flight unread inbox r) {} []) (select_loop env r ts) (ended_well view c0 R True)"
      by (rule loop_ends_well[OF assms(1-4)]) (use assms(5) in simp)
    show ?thesis
      by (rule hoare_bind[OF ready], rule hoare_bind[OF hoare_get_c], rule hoare_if,
          rule hoare_pre[OF complete_ends_well[OF assms(1,2), of R]], simp, rule hoare_pre[OF loop])
        (auto simp: steady_def on_run_def waiting_def)
  qed
  have "hoare (\<lambda>s. on_course view c0 R s \<and> ?idle s) (run_subscribed env ts) (ended_well view c0 R True)"
    unfolding run_subscribed_def
    by (rule hoare_bind[OF hoare_get_c], rule hoare_bind[OF sub]) (use go in \<open>auto simp: hoare_def split: sum.splits\<close>)
  then show ?thesis unfolding coordinator_selects_def by (auto simp: hoare_def split: prod.splits)
qed

end

section \<open>Interpretation\<close>

text \<open>Only a dispatch and the subscription itself change the backplane.\<close>

interpretation sim_bus: services_quiet "sim_env cfg up" sim_backplane for cfg up
proof
  show "quiet sim_backplane (dp_read_outcomes (sv_dispatcher (sim_env cfg up)) i nms)" for i nms
    by (simp add: sim_defs) (intro default_read_quiet quietI, simp)
qed (rule quietI, auto simp: sim_defs split: prod.splits)+

lemma hm_insert_values: "(a, b) \<in> set (hm_insert k v m) \<Longrightarrow> b = v \<or> (a, b) \<in> set m"
  by (induction m) (auto simp: hm_insert_def split: if_splits)

lemma log_read_still_running:
  "State_Monad.run_state (default_read_outcomes (\<lambda>_ _. State_Monad.return (Inr None)) i out names) w = (found, w') \<Longrightarrow>
    \<forall>(n, x)\<in>set out. x = StillRunning \<Longrightarrow> \<forall>(n, x)\<in>set found. x = StillRunning"
proof (induction names arbitrary: out)
  case (Cons n names)
  have "\<forall>(n, x)\<in>set (hm_insert n StillRunning out). x = StillRunning"
    using Cons.prems(2) by (fastforce dest: hm_insert_values)
  with Cons show ?case by (simp add: Let_def)
qed simp

interpretation sim_echo: echo_services "sim_env cfg up" "sim_view up" sim_backplane ib_wf pending_successes BROADCAST_CAPACITY for cfg up
proof
  let ?e = "sim_env cfg up"
  fix w w' i r
  show "pending_successes r i (sim_backplane w') []"
    if "ib_wf (sim_backplane w)" "State_Monad.run_state (bp_subscribe_run (sv_backplane ?e) i) w = (Inr r, w')"
    using that subscribed_pending[of "sim_backplane w" i r] by (auto simp: sim_defs split: prod.splits)
  show "pending_successes r i (sim_backplane w') (ns @ [ni_name info])"
    if "pending_successes r i (sim_backplane w) ns"
      "State_Monad.run_state (dp_dispatch (sv_dispatcher ?e) i md info p c) w = (x, w')" for ns md info p c x
    using that publish_pending[of r i "sim_backplane w" ns "ni_name info"]
    by (auto simp: sim_defs ib_publish_node_completed_def split: prod.splits)
  show "p = EventReady (NodeCompleted n True) \<and> pending_successes r i (sim_backplane w') ns"
    if "pending_successes r i (sim_backplane w) (n # ns)" "length (n # ns) \<le> BROADCAST_CAPACITY"
      "State_Monad.run_state (bp_next_event (sv_backplane ?e) r) w = (p, w')" for n ns p
    using that poll_pending[of r i "sim_backplane w" n ns] by (auto simp: sim_defs split: prod.splits)
  show "quiet (sim_view up) (bp_next_event (sv_backplane ?e) r)"
    by (rule quietI) (auto simp: sim_defs sim_view_def split: prod.splits)
  show "x = StillRunning" if "State_Monad.run_state (dp_read_outcomes (sv_dispatcher ?e) i names) w = (found, w')" "(n, x) \<in> set found"
    for names found n x
    using that log_read_still_running[of i "[]" names w found w'] by (auto simp: sim_defs)
qed

section \<open>The property\<close>

lemma start_keeps_backplane:
  "State_Monad.run_state (start_coordinator (sim_env cfg up) i p rc) w = (r, w') \<Longrightarrow> sim_backplane w' = sim_backplane w"
  by (auto simp: start_coordinator_def initialize_run_state_def sim_defs split: prod.splits sum.splits option.splits)

text \<open>
  Claim C10. Runs of the closed system terminate: on the in-memory backplane and store, the history and the log
  dispatcher, a fresh run of a pipeline whose dependencies exist and have no cycle, with at most 128 nodes,
  ends after as many polls of its own subscription as it has nodes, whatever heartbeats, reconciliations and started
  pods come between them. It returns a summary, of a success in which every node has succeeded, has reported that
  success once, and leaves no state and no lease behind.
\<close>

theorem log_dispatched_runs_terminate:
  assumes "ib_wf (sim_backplane w)" "fresh_run (sim_view up) i rc w"
    and "deps_closed (pr_new (pipeline_node_info p))" "acyclic (dep_edges (pr_new (pipeline_node_info p)))"
    and "length (pipeline_node_info p) \<le> 128" "length (pipeline_node_info p) \<le> polls turns" "list_all harmless turns"
    and "State_Monad.run_state (start_coordinator (sim_env cfg up) i p rc) w = (Some c, w1)"
  shows "\<exists>sm c' w2. State_Monad.run_state (coordinator_selects (sim_env cfg up) turns) (c, w1) = (Some sm, (c', w2)) \<and>
    sm_status sm = RunSuccess \<and> (\<forall>n\<in>set (pipeline_node_info p). hm_get (sm_node_statuses sm) (ni_name n) = Some Success) \<and>
    sim_reports w2 = sim_reports w @ [RunSuccess] \<and>
    hm_get (mem_runs (sim_store w2)) i = None \<and> hm_get (mem_leases (sim_store w2)) i = None"
proof -
  let ?ns = "pipeline_node_info p"
  from start_services.start_synced[OF sim_run.start_services_axioms assms(8)] assms(2)
  have c: "synced (sim_view up) c (sim_reports w) (c, w1)" "c_run c = pr_new ?ns" "\<not> c_is_rehydrate c" "c_run_id c = i"
      "c_node_info_cache c = hm_collect (map (\<lambda>n. (ni_name n, n)) ?ns)"
    by (auto simp: fresh_run_def sim_view_def)
  have nodes: "{n. status_of c n \<noteq> None} = ni_name ` set ?ns" by (auto simp: status_of_def c(2) pr_new_status)
  have few: "card {n. status_of c n \<noteq> None} \<le> length ?ns"
    unfolding nodes by (metis card_image_le card_length finite_set le_trans)
  have green: "green c c" by (rule green_new[OF c(2,5)])
  have names: "ni_name n = k" if "hm_get (hm_collect (map (\<lambda>n. (ni_name n, n)) xs)) k = Some n" for k n xs
    using map_of_SomeD[OF that[unfolded hm_get_collect]] by auto
  have idle: "in_flight (\<lambda>_ _ v ns. ib_wf v \<and> ns = []) sim_backplane 0 [] (c, w1)"
    using c green names start_keeps_backplane[OF assms(8)] assms(1)
    by (auto simp: in_flight_def coord_ok_def synced_def owning_def green_def status_of_def pr_new_status)
  obtain r c' w2 where run: "State_Monad.run_state (coordinator_selects (sim_env cfg up) turns) (c, w1) = (r, (c', w2))"
    by (metis prod.collapse)
  have "ended_well (sim_view up) c (sim_reports w) True r (c', w2)"
    by (rule hoareD[OF sim_echo.selects_ends_well _ run])
      (use c green idle few assms(3-7) in \<open>auto simp: on_course_def BROADCAST_CAPACITY_def\<close>)
  moreover obtain sm where "r = Some sm" using calculation by (auto simp: ended_well_def)
  ultimately show ?thesis
    using run nodes by (auto simp: ended_well_def succeeded_def run_post_def finished_def sim_view_def c(4))
qed

theorem log_dispatched_runs_terminate_witness:
  "\<exists>sm c' w2. State_Monad.run_state (coordinator_selects demo_env [PollBackplane, Fires HeartbeatTick, Fires ReconcileTick, PollBackplane])
      (the (fst demo_started), snd demo_started) = (Some sm, (c', w2)) \<and> sm_status sm = RunSuccess"
proof -
  have len: "length (pipeline_node_info demo_pl) = 2" by code_simp
  have bus: "ib_wf (sim_backplane demo_world)" by (simp add: demo_world_def ib_wf_def ib_new_def)
  let ?ts = "[PollBackplane, Fires HeartbeatTick, Fires ReconcileTick, PollBackplane]"
  have "length (pipeline_node_info demo_pl) \<le> 128" "length (pipeline_node_info demo_pl) \<le> polls ?ts" "list_all harmless ?ts"
    by (simp_all add: len polls_def)
  from log_dispatched_runs_terminate[OF bus demo_fresh demo_graph this demo_started_eq[unfolded demo_env_def]]
  show ?thesis unfolding demo_env_def by blast
qed

end
