(* ===== verification/Strings.thy ===== *)
theory Strings
  imports Prelude
begin

text \<open>
  What the front-end sources use of Rust's \<open>str\<close> and \<open>char\<close>. A string is its UTF-8 bytes and a
  \<open>char\<close> is the bytes of its encoding, so \<open>len()\<close> counts bytes and \<open>chars()\<close> cuts a string
  at the lead bytes.
\<close>

section \<open>Characters\<close>

type_synonym utf8_char = string

definition utf8_width :: "char \<Rightarrow> nat" where
  "utf8_width b =
    (let n = of_char b :: int in if n < 0xC0 then 1 else if n < 0xE0 then 2 else if n < 0xF0 then 3 else 4)"

lemma utf8_width_pos [simp]: "0 < utf8_width b"
  by (simp add: utf8_width_def Let_def)

function chars :: "string \<Rightarrow> utf8_char list" where
  "chars [] = []"
| "chars (b # s) = take (utf8_width b) (b # s) # chars (drop (utf8_width b) (b # s))"
  by pat_completeness auto

termination
  by (relation "measure length") (simp_all add: utf8_width_def Let_def)

text \<open>A predicate on ASCII characters, for a character.\<close>

definition ascii_char :: "(char \<Rightarrow> bool) \<Rightarrow> utf8_char \<Rightarrow> bool" where
  "ascii_char P c = (case c of [b] \<Rightarrow> P b | _ \<Rightarrow> False)"

text \<open>\<open>char::is_whitespace\<close>: the encodings of the characters with the property \<open>White_Space\<close>.\<close>

definition white_space :: "utf8_char list" where
  "white_space =
    [[CHR 0x09], [CHR 0x0A], [CHR 0x0B], [CHR 0x0C], [CHR 0x0D], [CHR 0x20], [CHR 0xC2, CHR 0x85], [CHR 0xC2, CHR 0xA0],
     [CHR 0xE1, CHR 0x9A, CHR 0x80]] @
    map (\<lambda>b. [CHR 0xE2, CHR 0x80, b])
      [CHR 0x80, CHR 0x81, CHR 0x82, CHR 0x83, CHR 0x84, CHR 0x85, CHR 0x86, CHR 0x87, CHR 0x88, CHR 0x89, CHR 0x8A,
       CHR 0xA8, CHR 0xA9, CHR 0xAF] @
    [[CHR 0xE2, CHR 0x81, CHR 0x9F], [CHR 0xE3, CHR 0x80, CHR 0x80]]"

text \<open>\<open>s.trim().is_empty()\<close>\<close>

definition is_blank :: "string \<Rightarrow> bool" where
  "is_blank s = list_all (\<lambda>c. c \<in> set white_space) (chars s)"

lemma concat_chars [simp]: "concat (chars s) = s"
  by (induction s rule: chars.induct) simp_all

lemma chars_Nil_iff [simp]: "chars s = [] \<longleftrightarrow> s = []"
  by (cases s) simp_all

lemma chars_not_empty: "c \<in> set (chars s) \<Longrightarrow> c \<noteq> []"
proof (induction s rule: chars.induct)
  case (2 b s)
  then show ?case by (auto simp: utf8_width_def Let_def split: if_splits)
qed simp

text \<open>ASCII strings: a character is a byte.\<close>

definition is_ascii_byte :: "char \<Rightarrow> bool" where
  "is_ascii_byte b \<longleftrightarrow> (of_char b :: int) < 0x80"

lemma is_ascii_byte_nat: "is_ascii_byte b \<longleftrightarrow> (of_char b :: nat) < 128"
proof -
  have "(of_char b :: int) = int (of_char b)" by (simp only: of_nat_of_char)
  then show ?thesis by (simp only: is_ascii_byte_def) simp
qed

lemma chars_ascii: "list_all is_ascii_byte s \<Longrightarrow> chars s = map (\<lambda>b. [b]) s"
  by (induction s) (simp_all add: utf8_width_def is_ascii_byte_def)

lemma ascii_all_bytes:
  assumes "\<forall>c \<in> set (chars s). ascii_char P c" shows "\<forall>b \<in> set s. P b"
proof
  fix b assume "b \<in> set s"
  then obtain c where c: "c \<in> set (chars s)" "b \<in> set c"
    by (subst (asm) concat_chars[symmetric], unfold set_concat) blast
  from assms c(1) have "ascii_char P c" by blast
  then obtain d where "c = [d]" "P d" by (auto simp: ascii_char_def split: list.splits)
  with c(2) show "P b" by simp
qed

section \<open>Numbers\<close>

text \<open>\<open>str::parse::<u64>\<close>: an optional plus sign, then digits, the value within 64 bits.\<close>

definition digit_value :: "char \<Rightarrow> int" where
  "digit_value c = of_char c - 48"

definition decimal_value :: "string \<Rightarrow> int" where
  "decimal_value = foldl (\<lambda>n c. 10 * n + digit_value c) 0"

definition parse_u64 :: "string \<Rightarrow> u64 option" where
  "parse_u64 s =
    (let digits = (case s of c # rest \<Rightarrow> if c = CHR ''+'' then rest else s | [] \<Rightarrow> []) in
     if digits = [] \<or> \<not> list_all is_ascii_digit digits \<or> 2 ^ 64 \<le> decimal_value digits then None
     else Some (of_int (decimal_value digits)))"

lemma is_ascii_digit_iff: "is_ascii_digit c \<longleftrightarrow> 48 \<le> (of_char c :: nat) \<and> (of_char c :: nat) \<le> 57"
  by (simp add: is_ascii_digit_def less_eq_char_def)

lemma show_digit_props:
  assumes "d < 10" shows "is_ascii_digit (show_digit d)" "digit_value (show_digit d) = int d"
proof -
  show "is_ascii_digit (show_digit d)" using assms by (simp add: is_ascii_digit_iff show_digit_def)
  have "(of_char (show_digit d) :: int) = int (of_char (show_digit d))" by (simp only: of_nat_of_char)
  also have "(of_char (show_digit d) :: nat) = 48 + d" using assms by (simp add: show_digit_def)
  finally show "digit_value (show_digit d) = int d" by (simp add: digit_value_def)
qed

lemma decimal_snoc [simp]: "decimal_value (xs @ [c]) = 10 * decimal_value xs + digit_value c"
  by (simp add: decimal_value_def)

lemma decimal_show [simp]: "decimal_value (show_nat n) = int n"
proof (induction n rule: show_nat.induct)
  case (1 n)
  then show ?case
    by (subst show_nat.simps) (auto simp: show_digit_props decimal_value_def zdiv_int zmod_int)
qed

lemma show_digits: "list_all is_ascii_digit (show_nat n) \<and> show_nat n \<noteq> []"
proof (induction n rule: show_nat.induct)
  case (1 n)
  then show ?case by (subst (1 2) show_nat.simps) (auto simp: show_digit_props)
qed

lemma parse_show_u64: "parse_u64 (show_nat (unat (w :: u64))) = Some w"
proof -
  obtain c s where s: "show_nat (unat w) = c # s" using show_digits[of "unat w"] by (cases "show_nat (unat w)") auto
  moreover have "is_ascii_digit c" using show_digits[of "unat w"] s by simp
  then have "c \<noteq> CHR ''+''" by (auto simp: is_ascii_digit_iff)
  moreover have "int (unat w) < 2 ^ 64" using uint_lt2p[of w] by simp
  ultimately show ?thesis using show_digits[of "unat w"] decimal_show[of "unat w"] by (simp add: parse_u64_def)
qed

end
