(* ===== verification/KubeDispatcher.thy ===== *)
theory KubeDispatcher
  imports Dispatcher Strings
begin

text \<open>
  The dispatcher of the production system, \<open>src/coordinator/src/kube_dispatcher.rs\<close>: a node becomes a
  Kubernetes job with a config map that holds its script. The operations of the cluster are the
  record \<open>kube_client\<close>; SHA-256 and its hexadecimal text are parameters. Of the Kubernetes
  objects the records have the fields that the code sets.
\<close>

section \<open>Names\<close>

text \<open>\<open>Sha256::digest\<close> and \<open>hex::encode\<close>\<close>

record hash_ops =
  ho_sha256 :: "string \<Rightarrow> string"
  ho_hex :: "string \<Rightarrow> string"

definition to_ascii_lowercase :: "char \<Rightarrow> char" where
  "to_ascii_lowercase b = (if is_ascii_uppercase b then char_of ((of_char b :: nat) + 32) else b)"

definition trim_end_matches :: "char \<Rightarrow> string \<Rightarrow> string" where
  "trim_end_matches c s = rev (dropWhile (\<lambda>b. b = c) (rev s))"

definition trim_matches :: "char \<Rightarrow> string \<Rightarrow> string" where
  "trim_matches c s = trim_end_matches c (dropWhile (\<lambda>b. b = c) s)"

text \<open>The result is ASCII, one byte for each character of the argument.\<close>

definition sanitize_char :: "utf8_char \<Rightarrow> char" where
  "sanitize_char c = (if ascii_char is_ascii_alphanumeric c then to_ascii_lowercase (hd c) else CHR ''-'')"

definition sanitize_k8s_name :: "string \<Rightarrow> string" where
  "sanitize_k8s_name s = trim_matches CHR ''-'' (map sanitize_char (chars s))"

definition RUN_ID_PREFIX_LEN :: nat where "RUN_ID_PREFIX_LEN = 8"
definition NODE_NAME_PREFIX_LEN :: nat where "NODE_NAME_PREFIX_LEN = 24"
definition STABLE_HASH_LEN :: nat where "STABLE_HASH_LEN = 8"

definition stable_hash :: "hash_ops \<Rightarrow> string \<Rightarrow> string" where
  "stable_hash h s = ho_hex h (take (STABLE_HASH_LEN div 2) (ho_sha256 h s))"

definition truncate_with_hash :: "hash_ops \<Rightarrow> string \<Rightarrow> nat \<Rightarrow> string" where
  "truncate_with_hash h s prefix_len =
    (let sanitized = sanitize_k8s_name s in
     if length sanitized \<le> prefix_len + 1 + STABLE_HASH_LEN then sanitized
     else trim_end_matches CHR ''-'' (take prefix_len sanitized) @ ''-'' @ stable_hash h s)"

definition short_run_id :: "hash_ops \<Rightarrow> string \<Rightarrow> string" where
  "short_run_id h run_id = truncate_with_hash h run_id RUN_ID_PREFIX_LEN"

definition short_node_name :: "hash_ops \<Rightarrow> string \<Rightarrow> string" where
  "short_node_name h node_name = truncate_with_hash h node_name NODE_NAME_PREFIX_LEN"

definition job_name :: "hash_ops \<Rightarrow> string \<Rightarrow> string \<Rightarrow> string" where
  "job_name h run_id node_name = ''run-'' @ short_run_id h run_id @ ''-'' @ short_node_name h node_name"

definition configmap_name :: "hash_ops \<Rightarrow> string \<Rightarrow> string \<Rightarrow> string" where
  "configmap_name h run_id node_name = job_name h run_id node_name @ ''-script''"

type_synonym btree_map = "(string \<times> string) list"

definition run_labels :: "string \<Rightarrow> btree_map" where
  "run_labels run_id = bmap_extend [] [(''the-conn.com/run-id'', run_id), (''the-conn.com/managed-by'', ''jefferies'')]"

definition node_annotations :: "string \<Rightarrow> btree_map" where
  "node_annotations node_name = [(NODE_NAME_ANNOTATION, node_name)]"

section \<open>Secrets\<close>

definition VAULT_SECRETS_MOUNT_PATH :: string where "VAULT_SECRETS_MOUNT_PATH = ''/etc/tube/secrets''"
definition VAULT_ENV_SUBDIR :: string where "VAULT_ENV_SUBDIR = ''env''"
definition VAULT_FILES_SUBDIR :: string where "VAULT_FILES_SUBDIR = ''files''"
definition REPO_SLUG_SEPARATOR :: string where "REPO_SLUG_SEPARATOR = ''__''"
definition VAULT_ENV_UNIQUE_PREFIX :: string where "VAULT_ENV_UNIQUE_PREFIX = ''env-''"
definition VAULT_FILE_UNIQUE_PREFIX :: string where "VAULT_FILE_UNIQUE_PREFIX = ''f-''"

definition repo_slug :: "string \<Rightarrow> string \<Rightarrow> string" where
  "repo_slug owner repo = owner @ REPO_SLUG_SEPARATOR @ repo"

definition vault_secret_path :: "string \<Rightarrow> string \<Rightarrow> string" where
  "vault_secret_path owner repo = ''secret/data/'' @ repo_slug owner repo"

definition vault_role :: "string \<Rightarrow> string \<Rightarrow> string" where
  "vault_role owner repo = repo_slug owner repo"

definition vault_template :: "string \<Rightarrow> string \<Rightarrow> string \<Rightarrow> string" where
  "vault_template owner repo key =
    ''{{- with secret '' @ [CHR 0x22] @ vault_secret_path owner repo @ [CHR 0x22] @ '' -}}'' @ [CHR 0x0A] @
    ''  {{ index .Data.data '' @ [CHR 0x22] @ key @ [CHR 0x22] @ '' }}'' @ [CHR 0x0A] @ ''{{- end -}}''"

definition rsplit_once :: "char \<Rightarrow> string \<Rightarrow> (string \<times> string) option" where
  "rsplit_once c s =
    (let base = takeWhile (\<lambda>b. b \<noteq> c) (rev s) in
     if c \<notin> set s then None else Some (rev (drop (length base + 1) (rev s)), rev base))"

definition split_custom_path :: "string \<Rightarrow> string \<times> string" where
  "split_custom_path path =
    (case rsplit_once CHR ''/'' path of
       Some (dir, base) \<Rightarrow> (if dir = [] then (''/'', base) else (dir, base))
     | None \<Rightarrow> ([], path))"

definition vault_key :: "string \<Rightarrow> string" where
  "vault_key k = ''vault.hashicorp.com/'' @ k"

definition env_secret_entries :: "string \<Rightarrow> string \<Rightarrow> string \<Rightarrow> (string \<times> string) list" where
  "env_secret_entries owner repo key =
    (let i = VAULT_ENV_UNIQUE_PREFIX @ key in
     [(vault_key (''agent-inject-secret-'' @ i), vault_secret_path owner repo),
      (vault_key (''agent-inject-template-'' @ i), vault_template owner repo key),
      (vault_key (''agent-inject-file-'' @ i), VAULT_ENV_SUBDIR @ ''/'' @ key)])"

definition file_secret_entries :: "string \<Rightarrow> string \<Rightarrow> file_secret_spec \<Rightarrow> (string \<times> string) list" where
  "file_secret_entries owner repo spec =
    (let i = VAULT_FILE_UNIQUE_PREFIX @ fs_name spec in
     [(vault_key (''agent-inject-secret-'' @ i), vault_secret_path owner repo),
      (vault_key (''agent-inject-template-'' @ i), vault_template owner repo (fs_name spec))] @
     (case fs_path spec of
        None \<Rightarrow> [(vault_key (''agent-inject-file-'' @ i), VAULT_FILES_SUBDIR @ ''/'' @ fs_name spec)]
      | Some custom \<Rightarrow>
         (let (dir, basename) = split_custom_path custom in
          [(vault_key (''secret-volume-path-'' @ i), dir), (vault_key (''agent-inject-file-'' @ i), basename)])))"

definition vault_annotations :: "string list \<Rightarrow> file_secret_spec list \<Rightarrow> string \<Rightarrow> string \<Rightarrow> btree_map" where
  "vault_annotations env_secrets file_secrets owner repo =
    (if env_secrets = [] \<and> file_secrets = [] then []
     else bmap_extend []
       ([(vault_key ''agent-inject'', ''true''), (vault_key ''agent-pre-populate-only'', ''true''),
         (vault_key ''secret-volume-path'', VAULT_SECRETS_MOUNT_PATH), (vault_key ''role'', vault_role owner repo)] @
        concat (map (env_secret_entries owner repo) env_secrets) @
        concat (map (file_secret_entries owner repo) file_secrets)))"

section \<open>The job of a node\<close>

definition build_script :: "string list \<Rightarrow> string" where
  "build_script steps =
    ''#!/bin/bash'' @ [CHR 0x0A] @ ''set -euxo pipefail'' @ [CHR 0x0A] @ concat (map (\<lambda>step. step @ [CHR 0x0A]) steps)"

type_synonym env_var = "string \<times> string"

definition poke_url_for :: "string \<Rightarrow> string \<Rightarrow> string \<Rightarrow> string" where
  "poke_url_for backend_namespace run_id node_name =
    ''http://jefferies.'' @ backend_namespace @ ''.svc.cluster.local./api/v1/runs/'' @ run_id @ ''/nodes/'' @ node_name @ ''/poke''"

definition build_env_vars :: "string \<Rightarrow> string \<Rightarrow> string \<Rightarrow> string \<Rightarrow> string \<Rightarrow> string \<Rightarrow> env_var list" where
  "build_env_vars run_id node_name status_put_url logs_put_url get_url poke_url =
    [(''TUBE__EXECUTION__USER_SCRIPT_PATH'', ''/etc/conn/script.sh''),
     (''TUBE__EXECUTION__RUN_ID'', run_id), (''TUBE__EXECUTION__NODE_NAME'', node_name),
     (''TUBE__EXECUTION__STATUS_PUT_URL'', status_put_url), (''TUBE__EXECUTION__LOGS_PUT_URL'', logs_put_url),
     (''TUBE__EXECUTION__POKE_URL'', poke_url), (''TUBE__EXECUTION__LOG_LEVEL'', ''info''),
     (''TUBE__LOG__LEVEL'', ''warn''), (''TUBE__WORKSPACE__GET_URL'', get_url),
     (''TUBE__WORKSPACE__DIR'', ''/workspace''),
     (''TUBE__SECRETS__DIR'', VAULT_SECRETS_MOUNT_PATH @ ''/'' @ VAULT_ENV_SUBDIR)]"

definition jefferies_env_vars :: "string \<Rightarrow> run_metadata \<Rightarrow> env_var list" where
  "jefferies_env_vars run_id md =
    [(''JEFFERIES_RUN_ID'', run_id), (''JEFFERIES_TRIGGER'', rm_trigger md), (''JEFFERIES_OWNER'', rm_owner md),
     (''JEFFERIES_REPO'', rm_repo md), (''JEFFERIES_SHA'', rm_sha md),
     (''JEFFERIES_BRANCH'', unwrap_str (rm_branch md)), (''JEFFERIES_TARGET_BRANCH'', unwrap_str (rm_target_branch md)),
     (''JEFFERIES_TAG'', unwrap_str (rm_tag md)),
     (''JEFFERIES_PR_NUMBER'', unwrap_str (map_option show_int (rm_pr_number md)))]"

definition SAFETY_DEADLINE_BUFFER_SECS :: u64 where "SAFETY_DEADLINE_BUFFER_SECS = 60"

definition compute_safety_deadline_secs :: "node_info \<Rightarrow> app_config \<Rightarrow> i64" where
  "compute_safety_deadline_secs node cfg =
    (let runtime = (case ni_timeout_secs node of Some t \<Rightarrow> t | None \<Rightarrow> default_node_timeout_secs cfg);
         startup = (case ni_startup_timeout_secs node of Some t \<Rightarrow> t | None \<Rightarrow> default_node_startup_timeout_secs cfg);
         total = saturating_add_u64 (saturating_add_u64 startup runtime) SAFETY_DEADLINE_BUFFER_SECS
     in if uint total < 2 ^ 63 then uint total else 2 ^ 63 - 1)"

text \<open>Kubernetes objects.\<close>

record object_meta =
  om_name :: "string option"
  om_namespace :: "string option"
  om_labels :: "btree_map option"
  om_annotations :: "btree_map option"

record volume_mount =
  vm_name :: string
  vm_mount_path :: string
  vm_sub_path :: "string option"

record empty_dir =
  ed_medium :: "string option"
  ed_size_limit :: "string option"

record config_map_source =
  cv_name :: string
  cv_default_mode :: "int option"

record volume =
  vo_name :: string
  vo_empty_dir :: "empty_dir option"
  vo_config_map :: "config_map_source option"

record resource_requirements =
  rr_requests :: btree_map
  rr_limits :: btree_map

record container =
  ct_name :: string
  ct_image :: "string option"
  ct_command :: "string list option"
  ct_args :: "string list option"
  ct_env :: "env_var list option"
  ct_resources :: "resource_requirements option"
  ct_privileged :: "bool option"
  ct_volume_mounts :: "volume_mount list option"

record pod_spec =
  sp_restart_policy :: "string option"
  sp_runtime_class_name :: "string option"
  sp_service_account_name :: "string option"
  sp_init_containers :: "container list option"
  sp_containers :: "container list"
  sp_volumes :: "volume list option"

record job =
  jb_metadata :: object_meta
  jb_active_deadline_seconds :: i64
  jb_backoff_limit :: int
  jb_template_metadata :: object_meta
  jb_template_spec :: pod_spec

record config_map =
  cm_metadata :: object_meta
  cm_data :: btree_map

definition make_resource_requirements :: "string \<Rightarrow> string \<Rightarrow> resource_requirements" where
  "make_resource_requirements cpu memory =
    (let m = bmap_extend [] [(''cpu'', cpu), (''memory'', memory)] in \<lparr> rr_requests = m, rr_limits = m \<rparr>)"

definition CACHE_MOUNT_PATH :: string where "CACHE_MOUNT_PATH = ''/tmp/cache''"

definition plain_mount :: "string \<Rightarrow> string \<Rightarrow> volume_mount" where
  "plain_mount name path = \<lparr> vm_name = name, vm_mount_path = path, vm_sub_path = None \<rparr>"

definition empty_dir_volume :: "string \<Rightarrow> volume" where
  "empty_dir_volume name =
    \<lparr> vo_name = name, vo_empty_dir = Some \<lparr> ed_medium = None, ed_size_limit = None \<rparr>, vo_config_map = None \<rparr>"

definition append_user_volumes ::
  "(string, string) hashmap \<Rightarrow> volume_mount list \<Rightarrow> volume list \<Rightarrow> volume_mount list \<times> volume list" where
  "append_user_volumes user_volumes mounts volumes =
    (let names = sort (hm_keys user_volumes) in
     (mounts @ map (\<lambda>n. plain_mount n (the (hm_get user_volumes n))) names, volumes @ map empty_dir_volume names))"

record 'w kube_client =
  kb_create_configmap :: "string \<Rightarrow> config_map \<Rightarrow> ('w, string + unit) state"
  kb_create_job :: "string \<Rightarrow> job \<Rightarrow> ('w, string + unit) state"
  kb_delete_job :: "string \<Rightarrow> string \<Rightarrow> ('w, string + unit) state"
  kb_delete_configmap :: "string \<Rightarrow> string \<Rightarrow> ('w, string + unit) state"
  kb_delete_jobs :: "string \<Rightarrow> string \<Rightarrow> ('w, string + unit) state"
  kb_delete_configmaps :: "string \<Rightarrow> string \<Rightarrow> ('w, string + unit) state"
  kb_list_jobs :: "string \<Rightarrow> string \<Rightarrow> ('w, string + job list) state"
  kb_list_configmaps :: "string \<Rightarrow> string \<Rightarrow> ('w, string + config_map list) state"
  kb_list_pods :: "string \<Rightarrow> string \<Rightarrow> ('w, string + pod list) state"
  kb_start_watcher :: "string list \<Rightarrow> string \<Rightarrow> string hashset \<Rightarrow> ('w, unit) state"

record 'w kube_dispatcher =
  kd_source_manager :: "'w s3_client"
  kd_client :: "'w kube_client"
  kd_hash :: hash_ops
  kd_namespace :: string
  kd_backend_namespace :: string
  kd_tube_image :: string
  kd_default_node_image :: string
  kd_service_account_privileged :: string
  kd_service_account_default :: string
  kd_runtime_class :: string
  kd_default_cpu :: string
  kd_default_memory :: string

text \<open>\<open>KubeDispatcher::new\<close>, after the client has been made.\<close>

definition kube_dispatcher_new ::
  "app_config \<Rightarrow> 'w s3_client \<Rightarrow> 'w kube_client \<Rightarrow> hash_ops \<Rightarrow> string \<Rightarrow> 'w kube_dispatcher" where
  "kube_dispatcher_new cfg source_manager client h default_namespace =
    \<lparr> kd_source_manager = source_manager, kd_client = client, kd_hash = h, kd_namespace = kubernetes_namespace cfg,
      kd_backend_namespace = default_namespace, kd_tube_image = tube_image cfg,
      kd_default_node_image = default_node_image cfg, kd_service_account_privileged = service_account_privileged cfg,
      kd_service_account_default = service_account_default cfg, kd_runtime_class = runtime_class cfg,
      kd_default_cpu = default_node_cpu cfg, kd_default_memory = default_node_memory cfg \<rparr>"

record job_context =
  jc_run_id :: string
  jc_node_name :: string
  jc_cm_name :: string
  jc_labels :: btree_map
  jc_annotations :: btree_map
  jc_env_vars :: "env_var list"
  jc_safety_deadline_secs :: i64

definition job_volumes :: "job_context \<Rightarrow> node_info \<Rightarrow> volume_mount list \<times> volume list" where
  "job_volumes ctx node =
    (let mounts = [plain_mount ''tube-bin'' ''/shared'', plain_mount ''workspace'' ''/workspace'',
           \<lparr> vm_name = ''user-script'', vm_mount_path = ''/etc/conn/script.sh'', vm_sub_path = Some ''script.sh'' \<rparr>];
         volumes = [empty_dir_volume ''tube-bin'', empty_dir_volume ''workspace'',
           \<lparr> vo_name = ''user-script'', vo_empty_dir = None,
             vo_config_map = Some \<lparr> cv_name = jc_cm_name ctx, cv_default_mode = Some 493 \<rparr> \<rparr>];
         (mounts, volumes) = (case ni_cache_size node of
             None \<Rightarrow> (mounts, volumes)
           | Some cache_size \<Rightarrow>
              (mounts @ [plain_mount ''cache'' CACHE_MOUNT_PATH],
               volumes @ [\<lparr> vo_name = ''cache'',
                 vo_empty_dir = Some \<lparr> ed_medium = Some ''Memory'', ed_size_limit = Some cache_size \<rparr>,
                 vo_config_map = None \<rparr>]))
     in append_user_volumes (ni_volumes node) mounts volumes)"

definition build_job :: "'w kube_dispatcher \<Rightarrow> job_context \<Rightarrow> node_info \<Rightarrow> job" where
  "build_job kd ctx node =
    (let image = (if ni_image node = [] then kd_default_node_image kd else ni_image node);
         cpu = (case ni_cpu node of Some c \<Rightarrow> c | None \<Rightarrow> kd_default_cpu kd);
         memory = (case ni_memory node of Some m \<Rightarrow> m | None \<Rightarrow> kd_default_memory kd);
         (mounts, volumes) = job_volumes ctx node
     in \<lparr> jb_metadata = \<lparr> om_name = Some (job_name (kd_hash kd) (jc_run_id ctx) (jc_node_name ctx)),
           om_namespace = Some (kd_namespace kd), om_labels = Some (jc_labels ctx),
           om_annotations = Some (jc_annotations ctx) \<rparr>,
         jb_active_deadline_seconds = jc_safety_deadline_secs ctx,
         jb_backoff_limit = 0,
         jb_template_metadata = \<lparr> om_name = None, om_namespace = None, om_labels = Some (jc_labels ctx),
           om_annotations = Some (jc_annotations ctx) \<rparr>,
         jb_template_spec = \<lparr> sp_restart_policy = Some ''Never'',
           sp_runtime_class_name = (if ni_privileged node then Some (kd_runtime_class kd) else None),
           sp_service_account_name = Some (if ni_privileged node then kd_service_account_privileged kd
             else kd_service_account_default kd),
           sp_init_containers = Some [\<lparr> ct_name = ''tube-init'', ct_image = Some (kd_tube_image kd),
             ct_command = Some [''cp'', ''/usr/local/bin/tube'', ''/shared/tube''], ct_args = None, ct_env = None,
             ct_resources = None, ct_privileged = None,
             ct_volume_mounts = Some [plain_mount ''tube-bin'' ''/shared''] \<rparr>],
           sp_containers = [\<lparr> ct_name = ''tube'', ct_image = Some image, ct_command = Some [''/shared/tube''],
             ct_args = Some [], ct_env = Some (jc_env_vars ctx),
             ct_resources = Some (make_resource_requirements cpu memory),
             ct_privileged = (if ni_privileged node then Some True else None), ct_volume_mounts = Some mounts \<rparr>],
           sp_volumes = Some volumes \<rparr> \<rparr>)"

section \<open>Operations\<close>

definition kube_err :: "('w, string + 'a) state \<Rightarrow> ('w, dispatch_error + 'a) state" where
  "kube_err m = do { r \<leftarrow> m; State_Monad.return (map_sum KubeFailure id r) }"

definition source_err :: "('w, source_error + 'a) state \<Rightarrow> ('w, dispatch_error + 'a) state" where
  "source_err m = do { r \<leftarrow> m; State_Monad.return (map_sum SourceFailure id r) }"

definition script_configmap :: "string \<Rightarrow> string \<Rightarrow> string \<Rightarrow> string \<Rightarrow> config_map" where
  "script_configmap run_id cm_name script namespace =
    \<lparr> cm_metadata = \<lparr> om_name = Some cm_name, om_namespace = Some namespace,
        om_labels = Some (run_labels run_id), om_annotations = None \<rparr>,
      cm_data = [(''script.sh'', script)] \<rparr>"

definition create_script_configmap ::
  "'w kube_dispatcher \<Rightarrow> string \<Rightarrow> string \<Rightarrow> string \<Rightarrow> string \<Rightarrow> string \<Rightarrow> ('w, dispatch_error + unit) state" where
  "create_script_configmap kd run_id node_name cm_name script namespace =
    kube_err (kb_create_configmap (kd_client kd) namespace (script_configmap run_id cm_name script namespace))"

definition create_job_or_rollback_configmap ::
  "'w kube_dispatcher \<Rightarrow> string \<Rightarrow> job \<Rightarrow> string \<Rightarrow> string \<Rightarrow> string \<Rightarrow> ('w, dispatch_error + unit) state" where
  "create_job_or_rollback_configmap kd namespace j cm_name run_id node_name = do {
    r \<leftarrow> kb_create_job (kd_client kd) namespace j;
    (case r of
       Inr _ \<Rightarrow> State_Monad.return (Inr ())
     | Inl e \<Rightarrow> do {
         _ \<leftarrow> kb_delete_configmap (kd_client kd) namespace cm_name;
         State_Monad.return (Inl (KubeFailure e))
       })
  }"

definition job_context_for ::
  "'w kube_dispatcher \<Rightarrow> string \<Rightarrow> run_metadata \<Rightarrow> node_info \<Rightarrow> app_config \<Rightarrow> string \<Rightarrow> string \<Rightarrow> string \<Rightarrow> job_context" where
  "job_context_for kd run_id md node cfg status_put_url logs_put_url get_url =
    (let vault = vault_annotations (ni_env_secrets node) (ni_file_secrets node) (rm_owner md) (rm_repo md);
         poke_url = poke_url_for (kd_backend_namespace kd) run_id (ni_name node)
     in \<lparr> jc_run_id = run_id, jc_node_name = ni_name node,
          jc_cm_name = configmap_name (kd_hash kd) run_id (ni_name node), jc_labels = run_labels run_id,
          jc_annotations = (if vault = [] then node_annotations (ni_name node)
            else bmap_extend (node_annotations (ni_name node)) vault),
          jc_env_vars = build_env_vars run_id (ni_name node) status_put_url logs_put_url get_url poke_url @
            jefferies_env_vars run_id md @ ni_env node,
          jc_safety_deadline_secs = compute_safety_deadline_secs node cfg \<rparr>)"

definition kube_dispatch ::
  "'w kube_dispatcher \<Rightarrow> string \<Rightarrow> run_metadata \<Rightarrow> node_info \<Rightarrow> pipeline \<Rightarrow> app_config \<Rightarrow> ('w, dispatch_error + unit) state" where
  "kube_dispatch kd run_id md node p cfg =
    (if (ni_env_secrets node \<noteq> [] \<or> ni_file_secrets node \<noteq> []) \<and> (rm_owner md = [] \<or> rm_repo md = []) then
       State_Monad.return (Inl (DispatchFailure ''Vault injection requested but owner/repo missing on RunContext''))
     else
       bind_ok (source_err (put_status_url (kd_source_manager kd) run_id (ni_name node))) (\<lambda>status_put_url.
       bind_ok (source_err (put_logs_url (kd_source_manager kd) run_id (ni_name node))) (\<lambda>logs_put_url.
       bind_ok (if ni_checkout node then source_err (get_source_url (kd_source_manager kd) run_id)
                else State_Monad.return (Inr [])) (\<lambda>get_url.
       let ctx = job_context_for kd run_id md node cfg status_put_url logs_put_url get_url in
       bind_ok (create_script_configmap kd run_id (ni_name node) (jc_cm_name ctx) (build_script (ni_steps node)) (kd_namespace kd)) (\<lambda>_.
       create_job_or_rollback_configmap kd (kd_namespace kd) (build_job kd ctx node) (jc_cm_name ctx) run_id (ni_name node))))))"

definition kube_cancel_node :: "'w kube_dispatcher \<Rightarrow> string \<Rightarrow> string \<Rightarrow> app_config \<Rightarrow> ('w, dispatch_error + unit) state" where
  "kube_cancel_node kd run_id node_name cfg = do {
    _ \<leftarrow> kb_delete_job (kd_client kd) (kd_namespace kd) (job_name (kd_hash kd) run_id node_name);
    _ \<leftarrow> kb_delete_configmap (kd_client kd) (kd_namespace kd) (configmap_name (kd_hash kd) run_id node_name);
    State_Monad.return (Inr ())
  }"

definition run_selector :: "string \<Rightarrow> string" where
  "run_selector run_id = ''the-conn.com/run-id='' @ run_id"

definition kube_cleanup_run :: "'w kube_dispatcher \<Rightarrow> string \<Rightarrow> ('w, dispatch_error + unit) state" where
  "kube_cleanup_run kd run_id = do {
    _ \<leftarrow> kb_delete_jobs (kd_client kd) (kd_namespace kd) (run_selector run_id);
    _ \<leftarrow> kb_delete_configmaps (kd_client kd) (kd_namespace kd) (run_selector run_id);
    source_err (source_cleanup_run (kd_source_manager kd) run_id)
  }"

definition kube_node_pod_exists :: "'w kube_dispatcher \<Rightarrow> string \<Rightarrow> string \<Rightarrow> ('w, dispatch_error + bool) state" where
  "kube_node_pod_exists kd run_id node_name =
    bind_ok (kube_err (kb_list_pods (kd_client kd) (kd_namespace kd) (run_selector run_id))) (\<lambda>pods.
    State_Monad.return (Inr (list_ex (\<lambda>p. node_name_for p = Some node_name) pods)))"

definition kube_get_node_outcome ::
  "'w kube_dispatcher \<Rightarrow> string \<Rightarrow> string \<Rightarrow> ('w, dispatch_error + node_outcome option) state" where
  "kube_get_node_outcome kd run_id node_name = do {
    r \<leftarrow> get_node_status (kd_source_manager kd) run_id node_name;
    State_Monad.return (case r of
        Inr outcome \<Rightarrow> Inr (Some outcome)
      | Inl (SourceNotFound _) \<Rightarrow> Inr None
      | Inl e \<Rightarrow> Inl (SourceFailure e))
  }"

text \<open>The runs of the labels of a list of objects.\<close>

definition labelled_runs :: "object_meta list \<Rightarrow> string list" where
  "labelled_runs metas = List.map_filter (\<lambda>m. Option.bind (om_labels m) (\<lambda>l. map_of l ''the-conn.com/run-id'')) metas"

definition kube_list_managed_run_ids :: "'w kube_dispatcher \<Rightarrow> ('w, dispatch_error + string list) state" where
  "kube_list_managed_run_ids kd =
    (let selector = ''the-conn.com/managed-by=jefferies'' in
     bind_ok (kube_err (kb_list_jobs (kd_client kd) (kd_namespace kd) selector)) (\<lambda>jobs.
     bind_ok (kube_err (kb_list_configmaps (kd_client kd) (kd_namespace kd) selector)) (\<lambda>cms.
     State_Monad.return (Inr (remdups (labelled_runs (map jb_metadata jobs) @ labelled_runs (map cm_metadata cms)))))))"

text \<open>The trait object; \<open>order\<close> is the order in which concurrent reads complete.\<close>

definition kube_dispatcher_ops ::
  "((string \<times> reconcile_result) list \<Rightarrow> (string \<times> reconcile_result) list) \<Rightarrow> 'w kube_dispatcher \<Rightarrow> 'w dispatcher_ops" where
  "kube_dispatcher_ops order kd =
    \<lparr> dp_dispatch = kube_dispatch kd,
      dp_cancel_node = kube_cancel_node kd,
      dp_cleanup_run = kube_cleanup_run kd,
      dp_get_node_outcome = kube_get_node_outcome kd,
      dp_read_outcomes = source_read_outcomes order (kd_source_manager kd),
      dp_get_node_log = (\<lambda>run_id node_name. source_err (source_get_node_log (kd_source_manager kd) run_id node_name)),
      dp_node_pod_exists = kube_node_pod_exists kd,
      dp_start_pod_watcher = (\<lambda>run_id seed_running. do {
        kb_start_watcher (kd_client kd) [kd_namespace kd] run_id seed_running;
        State_Monad.return True
      }),
      dp_list_managed_run_ids = kube_list_managed_run_ids kd \<rparr>"

end
