(* ===== verification/KubeLaws.thy ===== *)
theory KubeLaws
  imports KubeDispatcher
begin

text \<open>
  Properties of the Kubernetes dispatcher: the names it gives to objects, the deadline and the
  annotations of a job, the volumes of a job of an accepted pipeline, and dispatch and clean-up
  on a cluster that behaves as documented.
\<close>

section \<open>Names\<close>

text \<open>The bytes of a Kubernetes name.\<close>

definition name_byte :: "char \<Rightarrow> bool" where
  "name_byte b \<longleftrightarrow> is_ascii_lowercase b \<or> is_ascii_digit b \<or> b = CHR ''-''"

definition hash_ok :: "hash_ops \<Rightarrow> bool" where
  "hash_ok h \<longleftrightarrow> (\<forall>s. length (ho_sha256 h s) = 32) \<and>
    (\<forall>bs. length (ho_hex h bs) = 2 * length bs \<and> (\<forall>b\<in>set (ho_hex h bs). name_byte b \<and> b \<noteq> CHR ''-''))"

lemma to_ascii_lowercase_byte: "is_ascii_alphanumeric b \<Longrightarrow> name_byte (to_ascii_lowercase b) \<and> to_ascii_lowercase b \<noteq> CHR ''-''"
proof -
  assume alnum: "is_ascii_alphanumeric b"
  show ?thesis
  proof (cases "is_ascii_uppercase b")
    case True
    then have r: "65 \<le> (of_char b :: nat) \<and> (of_char b :: nat) \<le> 90" by (simp add: is_ascii_uppercase_def less_eq_char_def)
    then have "(of_char (char_of ((of_char b :: nat) + 32) :: char) :: nat) = of_char b + 32" by simp
    moreover have "(char_of ((of_char b :: nat) + 32) :: char) \<noteq> CHR ''-''"
    proof
      assume "(char_of ((of_char b :: nat) + 32) :: char) = CHR ''-''"
      from arg_cong[where f = "of_char :: char \<Rightarrow> nat", OF this] r show False by simp
    qed
    ultimately show ?thesis using True r
      by (auto simp: to_ascii_lowercase_def name_byte_def is_ascii_lowercase_def less_eq_char_def)
  next
    case False
    with alnum show ?thesis
      by (auto simp: to_ascii_lowercase_def name_byte_def is_ascii_alphanumeric_def is_ascii_alphabetic_def
          is_ascii_lowercase_def is_ascii_digit_def less_eq_char_def)
  qed
qed

lemma sanitize_char_byte: "name_byte (sanitize_char c)"
  by (auto simp: sanitize_char_def ascii_char_def to_ascii_lowercase_byte name_byte_def split: list.splits)
    (auto dest: to_ascii_lowercase_byte simp: name_byte_def)

lemma set_trim: "set (trim_matches c s) \<subseteq> set s" "set (trim_end_matches c s) \<subseteq> set s"
  by (auto simp: trim_matches_def trim_end_matches_def dest!: set_dropWhileD)

lemma length_trim: "length (trim_end_matches c s) \<le> length s"
  by (simp add: trim_end_matches_def) (metis length_dropWhile_le length_rev)

lemma last_trim: "trim_end_matches c s \<noteq> [] \<Longrightarrow> last (trim_end_matches c s) \<noteq> c"
  using hd_dropWhile[of "\<lambda>b. b = c" "rev s"] by (simp add: trim_end_matches_def last_rev)

lemma sanitize_bytes: "b \<in> set (sanitize_k8s_name s) \<Longrightarrow> name_byte b"
  using set_trim(1)[of "CHR ''-''" "map sanitize_char (chars s)"] by (auto simp: sanitize_k8s_name_def sanitize_char_byte)

lemma sanitize_last: "sanitize_k8s_name s \<noteq> [] \<Longrightarrow> last (sanitize_k8s_name s) \<noteq> CHR ''-''"
  by (simp add: sanitize_k8s_name_def trim_matches_def last_trim)

lemma truncate_props:
  assumes "hash_ok h"
  shows "length (truncate_with_hash h s n) \<le> n + 9 \<and> (\<forall>b\<in>set (truncate_with_hash h s n). name_byte b) \<and>
    (sanitize_k8s_name s \<noteq> [] \<longrightarrow> truncate_with_hash h s n \<noteq> [] \<and> last (truncate_with_hash h s n) \<noteq> CHR ''-'')"
proof (cases "length (sanitize_k8s_name s) \<le> n + 1 + STABLE_HASH_LEN")
  case True
  then have "truncate_with_hash h s n = sanitize_k8s_name s" by (simp add: truncate_with_hash_def)
  with True sanitize_bytes sanitize_last show ?thesis by (auto simp: STABLE_HASH_LEN_def)
next
  case False
  let ?p = "trim_end_matches CHR ''-'' (take n (sanitize_k8s_name s))"
  have eq: "truncate_with_hash h s n = ?p @ ''-'' @ stable_hash h s" using False by (simp add: truncate_with_hash_def)
  have hash: "length (stable_hash h s) = 8" "\<forall>b\<in>set (stable_hash h s). name_byte b \<and> b \<noteq> CHR ''-''"
    using assms by (auto simp: hash_ok_def stable_hash_def STABLE_HASH_LEN_def)
  moreover have "length ?p \<le> n" using length_trim[of "CHR ''-''" "take n (sanitize_k8s_name s)"] by simp
  moreover have "\<forall>b\<in>set ?p. name_byte b"
    using set_trim(2)[of "CHR ''-''" "take n (sanitize_k8s_name s)"] by (auto intro: sanitize_bytes dest: in_set_takeD)
  moreover have ne: "stable_hash h s \<noteq> []" using hash(1) by auto
  moreover from hash(2) last_in_set[OF ne] have "last (stable_hash h s) \<noteq> CHR ''-''" by blast
  moreover have "name_byte CHR ''-''" by (simp add: name_byte_def)
  ultimately show ?thesis unfolding eq by (simp add: ball_Un)
qed

section \<open>Properties\<close>

text \<open>
  Claim C31. The names of the objects of a node are legal Kubernetes names whatever the names of the run and
  the node: a job name has at most 55 bytes and a config map name at most 62, below the limit
  of 63, of lowercase letters, digits and dashes, starting with a letter, and ending with a
  letter or digit as soon as the node's name has a letter or digit.
\<close>

theorem job_names_legal:
  assumes "hash_ok h"
  shows "length (job_name h run_id node_name) \<le> 55 \<and> length (configmap_name h run_id node_name) \<le> 62 \<and>
    (\<forall>b\<in>set (configmap_name h run_id node_name). name_byte b) \<and> hd (job_name h run_id node_name) = CHR ''r'' \<and>
    (sanitize_k8s_name node_name \<noteq> [] \<longrightarrow> last (job_name h run_id node_name) \<noteq> CHR ''-'')"
proof -
  have "name_byte b" if "b \<in> set ''run--script''" for b
    using that by (auto simp: name_byte_def is_ascii_lowercase_def less_eq_char_def)
  with truncate_props[OF assms, of run_id RUN_ID_PREFIX_LEN] truncate_props[OF assms, of node_name NODE_NAME_PREFIX_LEN]
  show ?thesis
    by (auto simp: job_name_def configmap_name_def short_run_id_def short_node_name_def RUN_ID_PREFIX_LEN_def NODE_NAME_PREFIX_LEN_def)
qed

text \<open>
  Claim C32. The deadline of a job is its start-up and run time and one minute, computed without overflow:
  exact while it fits a 64-bit signed integer, and the largest such integer otherwise.
\<close>

theorem safety_deadline_exact:
  "compute_safety_deadline_secs node cfg =
    min (2 ^ 63 - 1)
      (uint (case ni_startup_timeout_secs node of Some t \<Rightarrow> t | None \<Rightarrow> default_node_startup_timeout_secs cfg) +
       uint (case ni_timeout_secs node of Some t \<Rightarrow> t | None \<Rightarrow> default_node_timeout_secs cfg) + 60)"
proof -
  let ?s = "case ni_startup_timeout_secs node of Some t \<Rightarrow> t | None \<Rightarrow> default_node_startup_timeout_secs cfg"
  let ?r = "case ni_timeout_secs node of Some t \<Rightarrow> t | None \<Rightarrow> default_node_timeout_secs cfg"
  let ?t = "saturating_add_u64 (saturating_add_u64 ?s ?r) SAFETY_DEADLINE_BUFFER_SECS"
  have "unat ?t = min (min (unat ?s + unat ?r) (2 ^ 64 - 1) + 60) (2 ^ 64 - 1)"
    by (simp add: unat_saturating_add_u64 SAFETY_DEADLINE_BUFFER_SECS_def)
  then have "int (unat ?t) = int (min (min (unat ?s + unat ?r) (2 ^ 64 - 1) + 60) (2 ^ 64 - 1))" by simp
  then have t: "uint ?t = min (min (uint ?s + uint ?r) (2 ^ 64 - 1) + 60) (2 ^ 64 - 1)" by (simp add: of_nat_min)
  have "(if t < 2 ^ 63 then t else 2 ^ 63 - 1) = min (2 ^ 63 - 1) (a + b + 60)"
    if "t = min (min (a + b) (2 ^ 64 - 1) + 60) (2 ^ 64 - 1)" for t a b :: int using that by (simp add: min_def split: if_splits)
  from this[OF t] show ?thesis by (simp only: compute_safety_deadline_secs_def Let_def)
qed

lemma mount_path_fresh:
  assumes "volume_ok (k, m)"
  shows "m \<noteq> ''/shared'' \<and> m \<noteq> ''/workspace'' \<and> m \<noteq> ''/etc/conn/script.sh'' \<and> m \<noteq> CACHE_MOUNT_PATH"
proof -
  have "\<not> prefix (path_segments r) (path_segments m)" if "r \<in> set RESERVED_MOUNT_PATHS" for r
    using assms that by (auto simp: volume_ok_def)
  from this[of "''/shared''"] this[of "''/workspace''"] this[of "''/etc/conn''"] this[of "''/tmp/cache''"]
  show ?thesis by (auto simp: RESERVED_MOUNT_PATHS_def CACHE_MOUNT_PATH_def path_segments_def)
qed

lemma user_paths_distinct:
  assumes "distinct (map fst v)" "distinct (map snd v)"
  shows "distinct (map (\<lambda>k. the (map_of v k)) (sort (map fst v)))"
proof -
  have "inj_on (\<lambda>k. the (map_of v k)) (fst ` set v)"
  proof (rule inj_onI)
    fix a b assume "a \<in> fst ` set v" "b \<in> fst ` set v" and eq: "the (map_of v a) = the (map_of v b)"
    then obtain x y where "(a, x) \<in> set v" "(b, y) \<in> set v" by auto
    with eq assms(1) have "(a, x) \<in> set v" "(b, x) \<in> set v" by auto
    then show "a = b" using assms(2) by (metis distinct_map inj_on_def fst_conv snd_conv)
  qed
  with assms(1) show ?thesis by (simp add: distinct_map)
qed

lemma from_yaml_volumes_ok: "from_yaml decode yaml = Inr p \<Longrightarrow> volumes_ok p"
  by (auto simp: from_yaml_def ok_iff split: sum.splits)

text \<open>
  Claim C26. The pod of a node of an accepted pipeline is consistent: its volumes have distinct names, its
  mounts have distinct paths, and the mounts are those of the volumes, in the same order. No
  volume of the user shadows one that the dispatcher adds.
\<close>

theorem accepted_pod_volumes_consistent:
  assumes "from_yaml decode yaml = Inr p" and "node \<in> set (pipeline_node_info p)" and "hm_wf (ni_volumes node)"
  shows "case job_volumes ctx node of (mounts, volumes) \<Rightarrow>
    distinct (map vo_name volumes) \<and> distinct (map vm_mount_path mounts) \<and> map vm_name mounts = map vo_name volumes"
proof -
  let ?v = "ni_volumes node"
  from assms(2) obtain n where n: "n \<in> set (pl_nodes p)" "?v = pn_volumes n"
    by (auto simp: pipeline_node_info_def node_info_of_def)
  with from_yaml_volumes_ok[OF assms(1)] have paths: "distinct (map snd ?v)" and vol: "\<And>k m. (k, m) \<in> set ?v \<Longrightarrow> volume_ok (k, m)"
    by (auto simp: volumes_ok_def)
  have keys: "distinct (map fst ?v)" using assms(3) by (simp add: hm_wf_def)
  let ?names = "sort (map fst ?v)" and ?path = "\<lambda>k. the (map_of ?v k)"
  have user: "distinct ?names" "distinct (map ?path ?names)" using keys user_paths_distinct[OF keys paths] by simp_all
  have "k \<notin> set RESERVED_VOLUME_NAMES" if "k \<in> set ?names" for k
    using that vol unfolding volume_ok_def by fastforce
  then have names: "set ?names \<inter> {''tube-bin'', ''workspace'', ''user-script'', ''cache''} = {}"
    unfolding RESERVED_VOLUME_NAMES_def by auto
  have "volume_ok (k, ?path k)" if "k \<in> set ?names" for k using that keys vol by auto
  then have "?path k \<notin> {''/shared'', ''/workspace'', ''/etc/conn/script.sh'', CACHE_MOUNT_PATH}" if "k \<in> set ?names" for k
    using mount_path_fresh that by blast
  then have fresh: "set (map ?path ?names) \<inter> {''/shared'', ''/workspace'', ''/etc/conn/script.sh'', CACHE_MOUNT_PATH} = {}"
    unfolding set_map by blast
  have vols: "snd (append_user_volumes ?v ms vs) = vs @ map empty_dir_volume ?names"
    and mounts: "fst (append_user_volumes ?v ms vs) = ms @ map (\<lambda>k. plain_mount k (?path k)) ?names" for ms vs
    by (simp_all add: append_user_volumes_def hm_keys_def hm_get_def Let_def)
  from names fresh have away: "\<forall>k\<in>set ?names. k \<notin> {''tube-bin'', ''workspace'', ''user-script'', ''cache''}"
      "\<forall>m\<in>set (map ?path ?names). m \<notin> {''/shared'', ''/workspace'', ''/etc/conn/script.sh'', CACHE_MOUNT_PATH}" by blast+
  have fields: "map vo_name (map empty_dir_volume ks) = ks" "map vm_name (map (\<lambda>k. plain_mount k (f k)) ks) = ks"
      "map vm_mount_path (map (\<lambda>k. plain_mount k (f k)) ks) = map f ks" for ks f
    by (simp_all add: plain_mount_def empty_dir_volume_def comp_def)
  show ?thesis
  proof (cases "ni_cache_size node")
    case None
    then show ?thesis unfolding case_prod_unfold job_volumes_def Let_def using user away
      by (simp only: vols mounts option.case prod.case map_append fields fst_conv snd_conv)
        (simp add: plain_mount_def empty_dir_volume_def disjoint_iff del: set_sort set_map; blast?)
  next
    case (Some c)
    then show ?thesis unfolding case_prod_unfold job_volumes_def Let_def using user away
      by (simp only: vols mounts option.case prod.case map_append fields fst_conv snd_conv)
        (simp add: plain_mount_def empty_dir_volume_def disjoint_iff CACHE_MOUNT_PATH_def del: set_sort set_map; blast?)
  qed
qed

section \<open>Annotations\<close>

lemma map_of_rev_unique:
  assumes "(k, v) \<in> set xs" and "\<And>v'. (k, v') \<in> set xs \<Longrightarrow> v' = v" shows "map_of (rev xs) k = Some v"
proof -
  from assms(1) obtain v' where "map_of (rev xs) k = Some v'" by (metis map_of_eq_None_iff not_None_eq set_rev fst_conv image_eqI)
  with assms(2) map_of_SomeD[OF this] show ?thesis by simp
qed

lemmas secret_entries_defs = env_secret_entries_def file_secret_entries_def vault_key_def VAULT_ENV_UNIQUE_PREFIX_def
  VAULT_FILE_UNIQUE_PREFIX_def Let_def

lemma file_entries_key:
  "(k, v) \<in> set (file_secret_entries owner repo s) \<Longrightarrow> (k, v') \<in> set (file_secret_entries owner repo s') \<Longrightarrow> fs_name s = fs_name s'"
  by (auto simp: secret_entries_defs split: option.splits prod.splits)

lemma file_entries_fun:
  "(k, v) \<in> set (file_secret_entries owner repo s) \<Longrightarrow> (k, v') \<in> set (file_secret_entries owner repo s) \<Longrightarrow> v' = v"
  by (cases "split_custom_path (the (fs_path s))") (auto simp: secret_entries_defs split: option.splits prod.splits)

lemma env_entries_fun:
  "(k, v) \<in> set (env_secret_entries owner repo s) \<Longrightarrow> (k, v') \<in> set (env_secret_entries owner repo s') \<Longrightarrow> v' = v"
  by (auto simp: secret_entries_defs)

lemma env_file_entries:
  "(k, v) \<in> set (env_secret_entries owner repo s) \<Longrightarrow> (k, v') \<notin> set (file_secret_entries owner repo s')"
  by (auto simp: secret_entries_defs split: option.splits prod.splits)

definition vault_header :: "string \<Rightarrow> string \<Rightarrow> (string \<times> string) list" where
  "vault_header owner repo =
    [(vault_key ''agent-inject'', ''true''), (vault_key ''agent-pre-populate-only'', ''true''),
     (vault_key ''secret-volume-path'', VAULT_SECRETS_MOUNT_PATH), (vault_key ''role'', vault_role owner repo)]"

lemma header_entries:
  "(k, v) \<in> set (vault_header owner repo) \<Longrightarrow> (k, v') \<notin> set (env_secret_entries owner repo s) \<and> (k, v') \<notin> set (file_secret_entries owner repo f)"
  by (auto simp: vault_header_def secret_entries_defs split: option.splits prod.splits)

lemma vault_lookup:
  "env \<noteq> [] \<or> files \<noteq> [] \<Longrightarrow> map_of (vault_annotations env files owner repo) =
    map_of (rev (vault_header owner repo @ concat (map (env_secret_entries owner repo) env) @ concat (map (file_secret_entries owner repo) files)))"
  using bmap_extend_map_of[of "[]" "vault_header owner repo @ concat (map (env_secret_entries owner repo) env) @
    concat (map (file_secret_entries owner repo) files)"]
  by (auto simp: vault_annotations_def vault_header_def)

lemma vault_entry:
  assumes "xs = vault_annotations env files owner repo" and "env \<noteq> [] \<or> files \<noteq> []"
    and "distinct (map fs_name files)"
  shows "key \<in> set env \<Longrightarrow> (k, v) \<in> set (env_secret_entries owner repo key) \<Longrightarrow> map_of xs k = Some v"
    and "spec \<in> set files \<Longrightarrow> (k, v) \<in> set (file_secret_entries owner repo spec) \<Longrightarrow> map_of xs k = Some v"
proof -
  let ?l = "vault_header owner repo @ concat (map (env_secret_entries owner repo) env) @ concat (map (file_secret_entries owner repo) files)"
  have map: "map_of xs = map_of (rev ?l)"
    unfolding assms(1) by (rule vault_lookup[OF assms(2)])
  have same: "s = s'" if "s \<in> set files" "s' \<in> set files" "fs_name s = fs_name s'" for s s'
    using assms(3) that by (meson distinct_map inj_onD)
  show "map_of xs k = Some v" if e: "key \<in> set env" "(k, v) \<in> set (env_secret_entries owner repo key)"
    unfolding map
  proof (rule map_of_rev_unique)
    show "(k, v) \<in> set ?l" using e by auto
    show "v' = v" if "(k, v') \<in> set ?l" for v'
      using that e(2) header_entries env_entries_fun env_file_entries by (auto simp only: set_append set_concat set_map)
  qed
  show "map_of xs k = Some v" if e: "spec \<in> set files" "(k, v) \<in> set (file_secret_entries owner repo spec)"
    unfolding map
  proof (rule map_of_rev_unique)
    show "(k, v) \<in> set ?l" using e by auto
    show "v' = v" if "(k, v') \<in> set ?l" for v'
    proof -
      from that e(2) header_entries env_file_entries obtain s' where "s' \<in> set files" "(k, v') \<in> set (file_secret_entries owner repo s')"
        by (auto simp only: set_append set_concat set_map)
      with e same file_entries_key file_entries_fun show ?thesis by metis
    qed
  qed
qed

text \<open>
  Claim C27. Every secret of a node reaches its pod under its own annotations: for each environment secret
  and each file secret the agent gets the vault path of the repository, the template that reads
  that key, and the file it is written to (a custom path split at its last slash), and none of
  these entries is overwritten by another secret.
\<close>

theorem secrets_injected:
  "let node = node_info_of p n;
       m = map_of (vault_annotations (ni_env_secrets node) (ni_file_secrets node) owner repo)
   in (\<forall>key\<in>set (ni_env_secrets node).
        m (''vault.hashicorp.com/agent-inject-secret-env-'' @ key) = Some (''secret/data/'' @ owner @ ''__'' @ repo) \<and>
        m (''vault.hashicorp.com/agent-inject-template-env-'' @ key) = Some (vault_template owner repo key) \<and>
        m (''vault.hashicorp.com/agent-inject-file-env-'' @ key) = Some (''env/'' @ key)) \<and>
      (\<forall>f\<in>set (ni_file_secrets node).
        m (''vault.hashicorp.com/agent-inject-secret-f-'' @ fs_name f) = Some (''secret/data/'' @ owner @ ''__'' @ repo) \<and>
        m (''vault.hashicorp.com/agent-inject-template-f-'' @ fs_name f) = Some (vault_template owner repo (fs_name f)) \<and>
        (case fs_path f of
           None \<Rightarrow> m (''vault.hashicorp.com/agent-inject-file-f-'' @ fs_name f) = Some (''files/'' @ fs_name f)
         | Some custom \<Rightarrow>
            m (''vault.hashicorp.com/secret-volume-path-f-'' @ fs_name f) = Some (fst (split_custom_path custom)) \<and>
            m (''vault.hashicorp.com/agent-inject-file-f-'' @ fs_name f) = Some (snd (split_custom_path custom))))"
proof -
  let ?env = "ni_env_secrets (node_info_of p n)" and ?files = "ni_file_secrets (node_info_of p n)"
  let ?m = "map_of (vault_annotations ?env ?files owner repo)"
  have dist: "distinct (map fs_name ?files)"
    using merge_file_secrets_sorted by (auto simp: node_info_of_def strict_sorted_iff)
  note entry = vault_entry[OF refl _ dist, where env = ?env and owner = owner and repo = repo]
  note defs = secret_entries_defs vault_secret_path_def repo_slug_def REPO_SLUG_SEPARATOR_def VAULT_ENV_SUBDIR_def VAULT_FILES_SUBDIR_def
  have "?m (''vault.hashicorp.com/agent-inject-secret-env-'' @ key) = Some (''secret/data/'' @ owner @ ''__'' @ repo) \<and>
      ?m (''vault.hashicorp.com/agent-inject-template-env-'' @ key) = Some (vault_template owner repo key) \<and>
      ?m (''vault.hashicorp.com/agent-inject-file-env-'' @ key) = Some (''env/'' @ key)" if key: "key \<in> set ?env" for key
  proof -
    from key have "?env \<noteq> [] \<or> ?files \<noteq> []" by auto
    note e = entry(1)[OF this key]
    show ?thesis by (intro conjI; rule e; simp add: defs)
  qed
  moreover have "?m (''vault.hashicorp.com/agent-inject-secret-f-'' @ fs_name f) = Some (''secret/data/'' @ owner @ ''__'' @ repo) \<and>
      ?m (''vault.hashicorp.com/agent-inject-template-f-'' @ fs_name f) = Some (vault_template owner repo (fs_name f)) \<and>
      (case fs_path f of
         None \<Rightarrow> ?m (''vault.hashicorp.com/agent-inject-file-f-'' @ fs_name f) = Some (''files/'' @ fs_name f)
       | Some custom \<Rightarrow> ?m (''vault.hashicorp.com/secret-volume-path-f-'' @ fs_name f) = Some (fst (split_custom_path custom)) \<and>
          ?m (''vault.hashicorp.com/agent-inject-file-f-'' @ fs_name f) = Some (snd (split_custom_path custom)))"
    if f: "f \<in> set ?files" for f
  proof -
    from f have "?env \<noteq> [] \<or> ?files \<noteq> []" by auto
    note e = entry(2)[OF this f]
    show ?thesis
      by (cases "fs_path f") (simp_all only: option.case, (intro conjI; rule e; simp add: defs case_prod_unfold)+)
  qed
  ultimately show ?thesis by (simp only: Let_def) blast
qed

section \<open>Dispatch on a cluster\<close>

text \<open>What dispatch changes of a cluster: jobs and config maps by namespace and name.\<close>

record kube_view =
  kv_jobs :: "string \<times> string \<Rightarrow> job option"
  kv_cms :: "string \<times> string \<Rightarrow> config_map option"

text \<open>
  The documented behaviour of the cluster: creating an object whose name is free adds it or fails
  without effect, creating one whose name is taken fails, and deleting an object that is there
  removes it. Signing a URL does not reach the cluster.
\<close>

locale kube_services =
  fixes kd :: "'w kube_dispatcher" and view :: "'w \<Rightarrow> kube_view"
  assumes create_cm_law: "\<lbrakk> State_Monad.run_state (kb_create_configmap (kd_client kd) ns cm) w = (r, w');
        om_name (cm_metadata cm) = Some name \<rbrakk> \<Longrightarrow>
      (case r of
         Inr u \<Rightarrow> kv_cms (view w) (ns, name) = None \<and> view w' = (view w)\<lparr>kv_cms := (kv_cms (view w))((ns, name) \<mapsto> cm)\<rparr>
       | Inl e \<Rightarrow> view w' = view w)"
    and create_job_law: "\<lbrakk> State_Monad.run_state (kb_create_job (kd_client kd) ns j) w = (r, w');
        om_name (jb_metadata j) = Some name \<rbrakk> \<Longrightarrow>
      (case r of
         Inr u \<Rightarrow> kv_jobs (view w) (ns, name) = None \<and> view w' = (view w)\<lparr>kv_jobs := (kv_jobs (view w))((ns, name) \<mapsto> j)\<rparr>
       | Inl e \<Rightarrow> view w' = view w)"
    and delete_cm_law: "\<lbrakk> State_Monad.run_state (kb_delete_configmap (kd_client kd) ns name) w = (r, w');
        kv_cms (view w) (ns, name) \<noteq> None \<rbrakk> \<Longrightarrow>
      view w' = (view w)\<lparr>kv_cms := (kv_cms (view w))((ns, name) := None)\<rparr>"
    and presign_get_law: "State_Monad.run_state (s3_presign_get (kd_source_manager kd) key) w = (rs, w') \<Longrightarrow> view w' = view w"
    and presign_put_law: "State_Monad.run_state (s3_presign_put (kd_source_manager kd) key ty) w = (rs, w') \<Longrightarrow> view w' = view w"
begin

lemma presigned_view:
  "State_Monad.run_state (source_err (put_status_url (kd_source_manager kd) i n)) w = (r, w') \<Longrightarrow> view w' = view w"
  "State_Monad.run_state (source_err (put_logs_url (kd_source_manager kd) i n)) w = (r, w') \<Longrightarrow> view w' = view w"
  "State_Monad.run_state (source_err (get_source_url (kd_source_manager kd) i)) w = (r, w') \<Longrightarrow> view w' = view w"
  by (auto simp: source_err_def put_status_url_def put_logs_url_def get_source_url_def presigned_def
      split: prod.splits sum.splits dest: presign_get_law presign_put_law)

lemma create_objects:
  assumes "State_Monad.run_state (bind_ok (create_script_configmap kd i n cm_name script ns)
      (\<lambda>_. create_job_or_rollback_configmap kd ns j cm_name i n)) w = (r, w')"
    and "om_name (jb_metadata j) = Some jn"
  shows "case r of
      Inr u \<Rightarrow> kv_cms (view w) (ns, cm_name) = None \<and> kv_jobs (view w) (ns, jn) = None \<and>
        view w' = (view w)\<lparr>kv_cms := (kv_cms (view w))((ns, cm_name) \<mapsto> script_configmap i cm_name script ns),
          kv_jobs := (kv_jobs (view w))((ns, jn) \<mapsto> j)\<rparr>
    | Inl e \<Rightarrow> view w' = view w"
proof -
  let ?cm = "script_configmap i cm_name script ns"
  obtain r1 w1 where 1: "State_Monad.run_state (kb_create_configmap (kd_client kd) ns ?cm) w = (r1, w1)" by force
  have "om_name (cm_metadata ?cm) = Some cm_name" by (simp add: script_configmap_def)
  note cm = create_cm_law[OF 1 this]
  show ?thesis
  proof (cases r1)
    case (Inl e)
    with assms(1) 1 cm show ?thesis by (auto simp: create_script_configmap_def kube_err_def)
  next
    case (Inr u)
    with cm have v1: "kv_cms (view w) (ns, cm_name) = None" "view w1 = (view w)\<lparr>kv_cms := (kv_cms (view w))((ns, cm_name) \<mapsto> ?cm)\<rparr>"
      by simp_all
    obtain r2 w2 where 2: "State_Monad.run_state (kb_create_job (kd_client kd) ns j) w1 = (r2, w2)" by force
    note job = create_job_law[OF 2 assms(2)]
    obtain r3 w3 where 3: "State_Monad.run_state (kb_delete_configmap (kd_client kd) ns cm_name) w2 = (r3, w3)" by force
    from assms(1) 1 2 3 Inr have res: "(r, w') = (case r2 of Inr _ \<Rightarrow> (Inr (), w2) | Inl e \<Rightarrow> (Inl (KubeFailure e), w3))"
      by (simp add: create_script_configmap_def kube_err_def create_job_or_rollback_configmap_def split: sum.splits)
    have "view w3 = view w" if "view w2 = view w1"
      using delete_cm_law[OF 3] that v1 by (simp add: fun_upd_idem)
    with res job v1 show ?thesis by (auto split: sum.splits)
  qed
qed

lemma dispatch_effect:
  assumes "State_Monad.run_state (kube_dispatch kd i md node p cfg) w = (r, w')"
  shows "case r of
      Inr u \<Rightarrow> \<exists>status_url logs_url get_url. let ctx = job_context_for kd i md node cfg status_url logs_url get_url;
          cm = (kd_namespace kd, configmap_name (kd_hash kd) i (ni_name node));
          jb = (kd_namespace kd, job_name (kd_hash kd) i (ni_name node))
        in kv_cms (view w) cm = None \<and> kv_jobs (view w) jb = None \<and>
          view w' = (view w)\<lparr>kv_cms := (kv_cms (view w))(cm \<mapsto> script_configmap i (snd cm) (build_script (ni_steps node)) (fst cm)),
            kv_jobs := (kv_jobs (view w))(jb \<mapsto> build_job kd ctx node)\<rparr>
    | Inl e \<Rightarrow> view w' = view w"
proof (cases "(ni_env_secrets node \<noteq> [] \<or> ni_file_secrets node \<noteq> []) \<and> (rm_owner md = [] \<or> rm_repo md = [])")
  case True
  with assms show ?thesis by (auto simp: kube_dispatch_def)
next
  case False
  let ?sm = "kd_source_manager kd"
  obtain r1 w1 where 1: "State_Monad.run_state (source_err (put_status_url ?sm i (ni_name node))) w = (r1, w1)" by force
  obtain r2 w2 where 2: "State_Monad.run_state (source_err (put_logs_url ?sm i (ni_name node))) w1 = (r2, w2)" by force
  obtain r3 w3 where 3: "State_Monad.run_state (if ni_checkout node then source_err (get_source_url ?sm i)
      else State_Monad.return (Inr [])) w2 = (r3, w3)" by force
  have v: "view w1 = view w" "view w2 = view w" "view w3 = view w"
    using presigned_view(1)[OF 1] presigned_view(2)[OF 2] presigned_view(3)[of i w2] 3 by (auto split: if_splits)
  show ?thesis
  proof (cases "\<exists>a b c. r1 = Inr a \<and> r2 = Inr b \<and> r3 = Inr c")
    case False
    with \<open>\<not> (_ \<and> _)\<close> assms 1 2 3 v show ?thesis by (auto simp: kube_dispatch_def split: sum.splits)
  next
    case True
    then obtain a b c where abc: "r1 = Inr a" "r2 = Inr b" "r3 = Inr c" by blast
    let ?ctx = "job_context_for kd i md node cfg a b c"
    have cm: "jc_cm_name ?ctx = configmap_name (kd_hash kd) i (ni_name node)" by (simp add: job_context_for_def Let_def)
    have jn: "om_name (jb_metadata (build_job kd ?ctx node)) = Some (job_name (kd_hash kd) i (ni_name node))"
      by (simp add: build_job_def job_context_for_def Let_def case_prod_unfold)
    from False assms 1 2 3 abc have "State_Monad.run_state (bind_ok (create_script_configmap kd i (ni_name node) (jc_cm_name ?ctx)
        (build_script (ni_steps node)) (kd_namespace kd))
        (\<lambda>_. create_job_or_rollback_configmap kd (kd_namespace kd) (build_job kd ?ctx node) (jc_cm_name ?ctx) i (ni_name node))) w3 = (r, w')"
      by (simp only: kube_dispatch_def run_bind_ok if_False prod.case sum.case Let_def)
    from create_objects[OF this jn] v show ?thesis by (cases r) (auto simp: cm Let_def)
  qed
qed

end

text \<open>A cluster with these operations on two tables; a selector is one label and its value.\<close>

record kube_cluster =
  kl_jobs :: "(string \<times> string, job) hashmap"
  kl_cms :: "(string \<times> string, config_map) hashmap"

definition selects :: "string \<Rightarrow> object_meta \<Rightarrow> bool" where
  "selects selector meta =
    (case split_on CHR ''='' selector of
       [k, v] \<Rightarrow> Option.bind (om_labels meta) (\<lambda>l. map_of l k) = Some v
     | _ \<Rightarrow> False)"

definition create_in :: "('k, 'v) hashmap \<Rightarrow> 'k \<Rightarrow> 'v \<Rightarrow> string + ('k, 'v) hashmap" where
  "create_in m k v = (if hm_contains_key m k then Inl ''AlreadyExists'' else Inr (hm_insert k v m))"

definition cluster_client :: "kube_cluster kube_client" where
  "cluster_client =
    \<lparr> kb_create_configmap = (\<lambda>ns cm. State (\<lambda>w.
        case create_in (kl_cms w) (ns, unwrap_str (om_name (cm_metadata cm))) cm of
          Inl e \<Rightarrow> (Inl e, w) | Inr m \<Rightarrow> (Inr (), w\<lparr>kl_cms := m\<rparr>))),
      kb_create_job = (\<lambda>ns j. State (\<lambda>w.
        case create_in (kl_jobs w) (ns, unwrap_str (om_name (jb_metadata j))) j of
          Inl e \<Rightarrow> (Inl e, w) | Inr m \<Rightarrow> (Inr (), w\<lparr>kl_jobs := m\<rparr>))),
      kb_delete_job = (\<lambda>ns n. State (\<lambda>w. (Inr (), w\<lparr>kl_jobs := hm_remove (ns, n) (kl_jobs w)\<rparr>))),
      kb_delete_configmap = (\<lambda>ns n. State (\<lambda>w. (Inr (), w\<lparr>kl_cms := hm_remove (ns, n) (kl_cms w)\<rparr>))),
      kb_delete_jobs = (\<lambda>ns sel. State (\<lambda>w. (Inr (),
        w\<lparr>kl_jobs := filter (\<lambda>((n, _), j). \<not> (n = ns \<and> selects sel (jb_metadata j))) (kl_jobs w)\<rparr>))),
      kb_delete_configmaps = (\<lambda>ns sel. State (\<lambda>w. (Inr (),
        w\<lparr>kl_cms := filter (\<lambda>((n, _), c). \<not> (n = ns \<and> selects sel (cm_metadata c))) (kl_cms w)\<rparr>))),
      kb_list_jobs = (\<lambda>ns sel. State (\<lambda>w. (Inr (map snd (filter (\<lambda>((n, _), j). n = ns \<and> selects sel (jb_metadata j)) (kl_jobs w))), w))),
      kb_list_configmaps = (\<lambda>ns sel. State (\<lambda>w. (Inr (map snd (filter (\<lambda>((n, _), c). n = ns \<and> selects sel (cm_metadata c)) (kl_cms w))), w))),
      kb_list_pods = (\<lambda>ns sel. State (\<lambda>w. (Inr [], w))),
      kb_start_watcher = (\<lambda>nss i seed. State_Monad.return ()) \<rparr>"

definition cluster_view :: "kube_cluster \<Rightarrow> kube_view" where
  "cluster_view w = \<lparr> kv_jobs = hm_get (kl_jobs w), kv_cms = hm_get (kl_cms w) \<rparr>"

text \<open>A dispatcher on this cluster: the object store signs URLs and has no objects.\<close>

definition url_signer :: "'w s3_client" where
  "url_signer =
    \<lparr> s3_get_object = (\<lambda>_. State_Monad.return NoSuchKey),
      s3_list_objects_v2 = (\<lambda>_. State_Monad.return (Inr [])),
      s3_delete_objects = (\<lambda>_. State_Monad.return (Inr ())),
      s3_create_multipart_upload = (\<lambda>_. State_Monad.return (Inr None)),
      s3_upload_part = (\<lambda>_ _ _ _. State_Monad.return (Inr None)),
      s3_complete_multipart_upload = (\<lambda>_ _ _. State_Monad.return (Inr ())),
      s3_abort_multipart_upload = (\<lambda>_ _. State_Monad.return (Inr ())),
      s3_head_bucket = State_Monad.return HeadOk,
      s3_create_bucket = State_Monad.return (Inr ()),
      s3_put_lifecycle = (\<lambda>_ _. State_Monad.return (Inr ())),
      s3_presign_get = (\<lambda>k. State_Monad.return (Inr (''https://get/'' @ k))),
      s3_presign_put = (\<lambda>k _. State_Monad.return (Inr (''https://put/'' @ k))),
      s3_presign_config = (\<lambda>_. Inr ()),
      gh_download_tarball = (\<lambda>_ _ _. State_Monad.return (Inr [])),
      outcome_from_json = (\<lambda>_. Inl []),
      from_utf8_lossy = id \<rparr>"

definition cluster_dispatcher :: "hash_ops \<Rightarrow> string \<Rightarrow> kube_cluster kube_dispatcher" where
  "cluster_dispatcher h ns =
    \<lparr> kd_source_manager = url_signer, kd_client = cluster_client, kd_hash = h, kd_namespace = ns,
      kd_backend_namespace = ''backend'', kd_tube_image = ''tube'', kd_default_node_image = ''node'',
      kd_service_account_privileged = ''priv'', kd_service_account_default = ''default'', kd_runtime_class = ''rc'',
      kd_default_cpu = ''1'', kd_default_memory = ''1Gi'' \<rparr>"

interpretation cluster: kube_services "cluster_dispatcher h ns" cluster_view for h ns
  by unfold_locales
    (auto simp: cluster_dispatcher_def cluster_client_def cluster_view_def url_signer_def create_in_def unwrap_str_def
      hm_contains_key_get fun_eq_iff split: if_splits option.splits sum.splits)


section \<open>Witnesses\<close>

definition demo_hash :: hash_ops where
  "demo_hash = \<lparr> ho_sha256 = (\<lambda>s. replicate 32 CHR ''a''), ho_hex = (\<lambda>bs. replicate (2 * length bs) CHR ''f'') \<rparr>"

lemma demo_hash_ok: "hash_ok demo_hash"
  by (auto simp: hash_ok_def demo_hash_def name_byte_def is_ascii_lowercase_def less_eq_char_def)

definition demo_volume_pipeline :: pipeline where
  "demo_volume_pipeline = plain_pipeline [(plain_node ''a'' [])\<lparr>pn_volumes := [(''data'', ''/data'')]\<rparr>]"

definition demo_kube_node :: node_info where
  "demo_kube_node = hd (pipeline_node_info demo_volume_pipeline)"

definition demo_metadata :: run_metadata where
  "demo_metadata = \<lparr> rm_owner = ''o'', rm_repo = ''r'', rm_sha = ''s'', rm_branch = None, rm_target_branch = None,
    rm_tag = None, rm_pr_number = None, rm_trigger = ''push'' \<rparr>"

theorem job_names_legal_witness:
  "length (job_name demo_hash ''r'' ''Build_All'') \<le> 55 \<and> last (job_name demo_hash ''r'' ''Build_All'') \<noteq> CHR ''-''"
proof -
  have "sanitize_k8s_name ''Build_All'' \<noteq> []" by code_simp
  with job_names_legal[OF demo_hash_ok, of "''r''" "''Build_All''"] show ?thesis by blast
qed

theorem accepted_pod_volumes_consistent_witness:
  "map vo_name (snd (job_volumes \<lparr> jc_run_id = ''r'', jc_node_name = ''a'', jc_cm_name = ''c'', jc_labels = [], jc_annotations = [],
      jc_env_vars = [], jc_safety_deadline_secs = 0 \<rparr> demo_kube_node)) = [''tube-bin'', ''workspace'', ''user-script'', ''data''] \<and>
   distinct (map vo_name (snd (job_volumes \<lparr> jc_run_id = ''r'', jc_node_name = ''a'', jc_cm_name = ''c'', jc_labels = [], jc_annotations = [],
      jc_env_vars = [], jc_safety_deadline_secs = 0 \<rparr> demo_kube_node)))"
proof -
  have "from_yaml (\<lambda>_. Inr demo_volume_pipeline) [] = Inr demo_volume_pipeline"
    unfolding from_yaml_def by code_simp
  moreover have "demo_kube_node \<in> set (pipeline_node_info demo_volume_pipeline)"
    by (simp add: demo_kube_node_def pipeline_node_info_def demo_volume_pipeline_def)
  moreover have "hm_wf (ni_volumes demo_kube_node)"
    by (simp add: demo_kube_node_def pipeline_node_info_def demo_volume_pipeline_def node_info_of_def hm_wf_def)
  ultimately show ?thesis
    using accepted_pod_volumes_consistent[of "\<lambda>_. Inr demo_volume_pipeline" "[]" demo_volume_pipeline demo_kube_node
        "\<lparr> jc_run_id = ''r'', jc_node_name = ''a'', jc_cm_name = ''c'', jc_labels = [], jc_annotations = [],
          jc_env_vars = [], jc_safety_deadline_secs = 0 \<rparr>"]
    by (simp add: case_prod_unfold) code_simp
qed


theorem secrets_injected_witness:
  "map_of (vault_annotations [''K''] [] ''o'' ''r'') ''vault.hashicorp.com/agent-inject-file-env-K'' = Some ''env/K''"
proof -
  let ?p = "plain_pipeline []" and ?n = "(plain_node ''a'' [])\<lparr>pn_secrets := \<lparr> secrets_env = [''K''], secrets_files = [] \<rparr>\<rparr>"
  have "ni_env_secrets (node_info_of ?p ?n) = [''K'']" "ni_file_secrets (node_info_of ?p ?n) = []"
    by (simp_all add: node_info_of_def merge_env_secrets_def merge_file_secrets_def bset_extend_def bmap_extend_def insort_insert_key_def)
  with secrets_injected[of ?p ?n "''o''" "''r''"] show ?thesis by (simp add: Let_def)
qed

text \<open>
  Names are made legal before they are compared, so two nodes of an accepted pipeline can share one
  job: the second dispatch fails.
\<close>

theorem job_names_collide:
  "from_yaml (\<lambda>_. Inr (plain_pipeline [plain_node ''a_b'' [], plain_node ''a-b'' []])) yaml =
      Inr (plain_pipeline [plain_node ''a_b'' [], plain_node ''a-b'' []]) \<and>
    job_name h run_id ''a_b'' = job_name h run_id ''a-b''"
proof -
  have "sanitize_k8s_name ''a_b'' = ''a-b''" "sanitize_k8s_name ''a-b'' = ''a-b''" by code_simp+
  then have "short_node_name h ''a_b'' = short_node_name h ''a-b''"
    by (simp add: short_node_name_def truncate_with_hash_def NODE_NAME_PREFIX_LEN_def)
  moreover have "from_yaml (\<lambda>_. Inr (plain_pipeline [plain_node ''a_b'' [], plain_node ''a-b'' []])) yaml =
      Inr (plain_pipeline [plain_node ''a_b'' [], plain_node ''a-b'' []])" by code_simp
  ultimately show ?thesis by (simp add: job_name_def)
qed

end
