(* ===== verification/Tenancy.thy ===== *)
theory Tenancy
  imports Strings
begin

text \<open>
  The tenants of the installation, \<open>src/tenancy/src/lib.rs\<close>: the document that lists the GitHub
  apps and the tenants, its validation, and the registry that routes a webhook or a login to a
  tenant. Reading the file and decoding its YAML are parameters.
\<close>

section \<open>Data\<close>

datatype tenancy_error = TenancyNotFound string | TenancyIo string string | TenancyParse string | TenancyValidation string

record github_app_config =
  ga_id :: string
  ga_app_id :: string
  ga_webhook_secret :: string
  ga_private_key :: string

record github_tenant_binding =
  tb_org_name :: string
  tb_app_ref :: string

datatype tenant_provider = GithubProvider github_tenant_binding

record tenant_config =
  tn_slug :: string
  tn_display_name :: "string option"
  tn_connector_ids :: "string list"
  tn_provider :: tenant_provider

record tenancy_document =
  td_github_apps :: "github_app_config list"
  td_tenants :: "tenant_config list"

type_synonym github_app_registry = "(string, github_app_config) hashmap"

record tenant_registry =
  tr_by_slug :: "(string, tenant_config) hashmap"
  tr_by_connector_and_org :: "(string \<times> string, tenant_config) hashmap"
  tr_by_app_and_org :: "(string \<times> string, tenant_config) hashmap"

record tenancy_registry =
  ty_apps :: github_app_registry
  ty_tenants :: tenant_registry

definition SLUG_MAX_LEN :: nat where "SLUG_MAX_LEN = 63"
definition APP_ID_MAX_LEN :: nat where "APP_ID_MAX_LEN = 63"
definition ORG_NAME_MAX_LEN :: nat where "ORG_NAME_MAX_LEN = 39"

fun binding_of :: "tenant_provider \<Rightarrow> github_tenant_binding" where
  "binding_of (GithubProvider b) = b"

definition tn_org :: "tenant_config \<Rightarrow> string" where
  "tn_org t = tb_org_name (binding_of (tn_provider t))"

definition tn_app :: "tenant_config \<Rightarrow> string" where
  "tn_app t = tb_app_ref (binding_of (tn_provider t))"

section \<open>Validation\<close>

definition is_slug_alnum :: "utf8_char \<Rightarrow> bool" where
  "is_slug_alnum = ascii_char (\<lambda>b. is_ascii_lowercase b \<or> is_ascii_digit b)"

definition is_org_alnum :: "utf8_char \<Rightarrow> bool" where
  "is_org_alnum = ascii_char is_ascii_alphanumeric"

text \<open>The loop over the characters with their index, of which only zero matters.\<close>

fun validate_chars ::
  "(utf8_char \<Rightarrow> bool) \<Rightarrow> tenancy_error \<Rightarrow> (utf8_char \<Rightarrow> tenancy_error) \<Rightarrow> bool \<Rightarrow> utf8_char list \<Rightarrow> tenancy_error + unit" where
  "validate_chars alnum start_error char_error first [] = Inr ()"
| "validate_chars alnum start_error char_error first (c # cs) =
    (if first then
       if \<not> alnum c then Inl start_error else validate_chars alnum start_error char_error False cs
     else if \<not> alnum c \<and> c \<noteq> ''-'' then Inl (char_error c)
     else validate_chars alnum start_error char_error False cs)"

definition validate_dns_label :: "string \<Rightarrow> nat \<Rightarrow> string \<Rightarrow> tenancy_error + unit" where
  "validate_dns_label value max_len label =
    (if value = [] then Inl (TenancyValidation (label @ '' must not be empty''))
     else if max_len < length value then
       Inl (TenancyValidation (label @ '' '' @ quoted value @ '' exceeds '' @ show_nat max_len @ '' characters''))
     else validate_chars is_slug_alnum
       (TenancyValidation (label @ '' '' @ quoted value @ '' must start with a lowercase letter or digit''))
       (\<lambda>c. TenancyValidation (label @ '' '' @ quoted value @ '' contains invalid character '' @ quoted c @
          '' (allowed: a-z, 0-9, '' @ quoted ''-'' @ '')''))
       True (chars value))"

definition validate_org_name :: "string \<Rightarrow> string \<Rightarrow> tenancy_error + unit" where
  "validate_org_name slug org =
    (if org = [] then Inl (TenancyValidation (''Tenant '' @ quoted slug @ '' has empty org_name''))
     else if ORG_NAME_MAX_LEN < length org then
       Inl (TenancyValidation (''Tenant '' @ quoted slug @ '' org_name '' @ quoted org @ '' exceeds '' @
         show_nat ORG_NAME_MAX_LEN @ '' characters''))
     else validate_chars is_org_alnum
       (TenancyValidation (''Tenant '' @ quoted slug @ '' org_name '' @ quoted org @
          '' must start with an alphanumeric character''))
       (\<lambda>c. TenancyValidation (''Tenant '' @ quoted slug @ '' org_name '' @ quoted org @
          '' contains invalid character '' @ quoted c @ '' (allowed: a-z, A-Z, 0-9, '' @ quoted ''-'' @ '')''))
       True (chars org))"

definition validate_slug :: "string \<Rightarrow> tenancy_error + unit" where
  "validate_slug slug = validate_dns_label slug SLUG_MAX_LEN ''Tenant slug''"

definition validate_app_id_field :: "string \<Rightarrow> tenancy_error + unit" where
  "validate_app_id_field i = validate_dns_label i APP_ID_MAX_LEN ''github_apps id''"

definition validate_app_entry :: "github_app_config \<Rightarrow> tenancy_error + unit" where
  "validate_app_entry app =
    and_then (validate_app_id_field (ga_id app)) (\<lambda>_.
    and_then (guard_ok (parse_u64 (ga_app_id app) \<noteq> None)
      (TenancyValidation (''github_apps['' @ ga_id app @ ''] has invalid app_id '' @ quoted (ga_app_id app) @
        ''; expected unsigned integer''))) (\<lambda>_.
    and_then (guard_ok (ga_webhook_secret app \<noteq> [])
      (TenancyValidation (''github_apps['' @ ga_id app @ ''] has empty webhook_secret''))) (\<lambda>_.
    guard_ok (\<not> is_blank (ga_private_key app))
      (TenancyValidation (''github_apps['' @ ga_id app @ ''] has empty private_key'')))))"

definition validate_connector_ids :: "string \<Rightarrow> string list \<Rightarrow> tenancy_error + unit" where
  "validate_connector_ids slug ids =
    and_then (guard_ok (ids \<noteq> []) (TenancyValidation (''Tenant '' @ quoted slug @ '' has empty connector_ids''))) (\<lambda>_.
    for_each (\<lambda>i. guard_ok (\<not> is_blank i)
      (TenancyValidation (''Tenant '' @ quoted slug @ '' has empty entry in connector_ids''))) ids)"

definition validate_tenant_binding ::
  "string \<Rightarrow> github_tenant_binding \<Rightarrow> github_app_registry \<Rightarrow> tenancy_error + unit" where
  "validate_tenant_binding slug b apps =
    and_then (validate_org_name slug (tb_org_name b)) (\<lambda>_.
    guard_ok (hm_get apps (tb_app_ref b) \<noteq> None)
      (TenancyValidation (''Tenant '' @ quoted slug @ '' references unknown github_app '' @ quoted (tb_app_ref b))))"

definition validate_tenant :: "tenant_config \<Rightarrow> github_app_registry \<Rightarrow> tenancy_error + unit" where
  "validate_tenant t apps =
    and_then (validate_slug (tn_slug t)) (\<lambda>_.
    and_then (validate_connector_ids (tn_slug t) (tn_connector_ids t)) (\<lambda>_.
    validate_tenant_binding (tn_slug t) (binding_of (tn_provider t)) apps))"

section \<open>Registries\<close>

fun build_apps :: "github_app_registry \<Rightarrow> github_app_config list \<Rightarrow> tenancy_error + github_app_registry" where
  "build_apps by_id [] = Inr by_id"
| "build_apps by_id (app # apps) =
    and_then (validate_app_entry app) (\<lambda>_.
    if hm_contains_key by_id (ga_id app) then Inl (TenancyValidation (''Duplicate github_apps id: '' @ ga_id app))
    else build_apps (hm_insert (ga_id app) app by_id) apps)"

fun add_connectors ::
  "tenant_config \<Rightarrow> (string \<times> string, tenant_config) hashmap \<Rightarrow> string list \<Rightarrow>
    tenancy_error + (string \<times> string, tenant_config) hashmap" where
  "add_connectors t m [] = Inr m"
| "add_connectors t m (c # cs) =
    (if hm_contains_key m (c, tn_org t) then
       Inl (TenancyValidation (''Duplicate (connector_id, org_name) pair: ('' @ c @ '', '' @ tn_org t @ '') across tenants''))
     else add_connectors t (hm_insert (c, tn_org t) t m) cs)"

definition add_tenant ::
  "github_app_registry \<Rightarrow> tenant_config \<Rightarrow> tenant_registry \<Rightarrow> tenancy_error + tenant_registry" where
  "add_tenant apps t r =
    and_then (validate_tenant t apps) (\<lambda>_.
    if hm_contains_key (tr_by_slug r) (tn_slug t) then
      Inl (TenancyValidation (''Duplicate tenant slug: '' @ tn_slug t))
    else if hm_contains_key (tr_by_app_and_org r) (tn_app t, tn_org t) then
      Inl (TenancyValidation (''Duplicate (github_app, org_name) pair: ('' @ tn_app t @ '', '' @ tn_org t @
        '') referenced by tenant '' @ quoted (tn_slug t)))
    else and_then (add_connectors t (tr_by_connector_and_org r) (tn_connector_ids t)) (\<lambda>by_connector.
      Inr \<lparr> tr_by_slug = hm_insert (tn_slug t) t (tr_by_slug r),
        tr_by_connector_and_org = by_connector,
        tr_by_app_and_org = hm_insert (tn_app t, tn_org t) t (tr_by_app_and_org r) \<rparr>))"

fun build_tenants ::
  "github_app_registry \<Rightarrow> tenant_registry \<Rightarrow> tenant_config list \<Rightarrow> tenancy_error + tenant_registry" where
  "build_tenants apps r [] = Inr r"
| "build_tenants apps r (t # ts) = and_then (add_tenant apps t r) (\<lambda>r'. build_tenants apps r' ts)"

definition from_document :: "tenancy_document \<Rightarrow> tenancy_error + tenancy_registry" where
  "from_document d =
    and_then (build_apps [] (td_github_apps d)) (\<lambda>apps.
    and_then (build_tenants apps \<lparr> tr_by_slug = [], tr_by_connector_and_org = [], tr_by_app_and_org = [] \<rparr> (td_tenants d))
      (\<lambda>tenants. Inr \<lparr> ty_apps = apps, ty_tenants = tenants \<rparr>))"

text \<open>Reading: the outcome of the file system, and the YAML decoder.\<close>

datatype file_read = FileRead string | FileMissing | FileFailed string

definition read_tenancy_file :: "string \<Rightarrow> file_read \<Rightarrow> tenancy_error + string" where
  "read_tenancy_file path result =
    (case result of FileRead s \<Rightarrow> Inr s | FileMissing \<Rightarrow> Inl (TenancyNotFound path) | FileFailed e \<Rightarrow> Inl (TenancyIo path e))"

definition parse_tenancy_yaml :: "(string \<Rightarrow> string + tenancy_document) \<Rightarrow> string \<Rightarrow> tenancy_error + tenancy_document" where
  "parse_tenancy_yaml yaml s = (case yaml s of Inl e \<Rightarrow> Inl (TenancyParse e) | Inr d \<Rightarrow> Inr d)"

definition load_from_path ::
  "(string \<Rightarrow> file_read) \<Rightarrow> (string \<Rightarrow> string + tenancy_document) \<Rightarrow> string \<Rightarrow> tenancy_error + tenancy_registry" where
  "load_from_path fs yaml path =
    and_then (read_tenancy_file path (fs path)) (\<lambda>contents.
    and_then (parse_tenancy_yaml yaml contents) from_document)"

definition load_from_env ::
  "(string \<Rightarrow> string option) \<Rightarrow> (string \<Rightarrow> file_read) \<Rightarrow> (string \<Rightarrow> string + tenancy_document) \<Rightarrow>
    tenancy_error + tenancy_registry" where
  "load_from_env env_var fs yaml =
    load_from_path fs yaml
      (case env_var ''JEFFERIES__TENANCY__PATH'' of Some p \<Rightarrow> p | None \<Rightarrow> ''/etc/jefferies/tenancy/tenants.yaml'')"

definition find_by_slug :: "tenant_registry \<Rightarrow> string \<Rightarrow> tenant_config option" where
  "find_by_slug r slug = hm_get (tr_by_slug r) slug"

definition find_for_connector_and_org :: "tenant_registry \<Rightarrow> string \<Rightarrow> string \<Rightarrow> tenant_config option" where
  "find_for_connector_and_org r connector_id org_name = hm_get (tr_by_connector_and_org r) (connector_id, org_name)"

definition find_by_app_and_org :: "tenant_registry \<Rightarrow> string \<Rightarrow> string \<Rightarrow> tenant_config option" where
  "find_by_app_and_org r app_ref org_name = hm_get (tr_by_app_and_org r) (app_ref, org_name)"

definition find_app :: "github_app_registry \<Rightarrow> string \<Rightarrow> github_app_config option" where
  "find_app apps i = hm_get apps i"

text \<open>\<open>Debug\<close> of an app: the secrets are replaced.\<close>

definition REDACTED :: string where "REDACTED = ''<redacted>''"

definition debug_fields :: "github_app_config \<Rightarrow> (string \<times> string) list" where
  "debug_fields app =
    [(''id'', ga_id app), (''app_id'', ga_app_id app), (''webhook_secret'', REDACTED), (''private_key'', REDACTED)]"

section \<open>What validation accepts\<close>

text \<open>Labels and organisation names, on bytes.\<close>

definition label_ok :: "(char \<Rightarrow> bool) \<Rightarrow> nat \<Rightarrow> string \<Rightarrow> bool" where
  "label_ok P n s \<longleftrightarrow> s \<noteq> [] \<and> length s \<le> n \<and> P (hd s) \<and> (\<forall>b\<in>set s. P b \<or> b = CHR ''-'')"

definition slug_byte :: "char \<Rightarrow> bool" where
  "slug_byte b \<longleftrightarrow> is_ascii_lowercase b \<or> is_ascii_digit b"

lemma validate_chars_rest:
  "validate_chars alnum e f False cs = Inr u \<longleftrightarrow> (\<forall>c\<in>set cs. alnum c \<or> c = ''-'')"
  by (induction cs) auto

lemma validate_chars_iff:
  "cs \<noteq> [] \<Longrightarrow> validate_chars alnum e f True cs = Inr u \<longleftrightarrow> alnum (hd cs) \<and> (\<forall>c\<in>set (tl cs). alnum c \<or> c = ''-'')"
  by (cases cs) (auto simp: validate_chars_rest)

lemma ascii_or_dash: "ascii_char P c \<or> c = ''-'' \<longleftrightarrow> ascii_char (\<lambda>b. P b \<or> b = CHR ''-'') c"
  by (auto simp: ascii_char_def split: list.splits)

lemma dash_ascii: "(\<forall>b\<in>set s. P b \<or> b = CHR ''-'') \<Longrightarrow> (\<And>b. P b \<Longrightarrow> is_ascii_byte b) \<Longrightarrow> list_all is_ascii_byte s"
proof -
  have "is_ascii_byte CHR ''-''" by (simp add: is_ascii_byte_def)
  then show "(\<forall>b\<in>set s. P b \<or> b = CHR ''-'') \<Longrightarrow> (\<And>b. P b \<Longrightarrow> is_ascii_byte b) \<Longrightarrow> list_all is_ascii_byte s"
    unfolding list_all_iff by blast
qed

lemma label_chars:
  assumes "s \<noteq> []" and ascii: "\<And>b. P b \<Longrightarrow> is_ascii_byte b"
  shows "ascii_char P (hd (chars s)) \<and> (\<forall>c\<in>set (tl (chars s)). ascii_char P c \<or> c = ''-'') \<longleftrightarrow>
    P (hd s) \<and> (\<forall>b\<in>set s. P b \<or> b = CHR ''-'')" (is "?l = ?r")
proof
  assume l: ?l
  have ne: "chars s \<noteq> []" using assms(1) by simp
  with l have "\<forall>c\<in>set (chars s). ascii_char (\<lambda>b. P b \<or> b = CHR ''-'') c"
    by (cases "chars s") (auto simp: ascii_or_dash[symmetric])
  then have all: "\<forall>b\<in>set s. P b \<or> b = CHR ''-''" by (rule ascii_all_bytes)
  then have ascii: "list_all is_ascii_byte s" using dash_ascii[of s P] ascii by blast
  from l[unfolded chars_ascii[OF ascii]] all assms(1) show ?r by (cases s) (auto simp: ascii_char_def)
next
  assume r: ?r
  then have ascii: "list_all is_ascii_byte s" using dash_ascii[of s P] ascii by blast
  from r assms(1) show ?l unfolding chars_ascii[OF ascii] by (cases s) (auto simp: ascii_char_def)
qed

lemma ascii_bytes: "slug_byte b \<Longrightarrow> is_ascii_byte b" "is_ascii_alphanumeric b \<Longrightarrow> is_ascii_byte b"
  by (auto simp: slug_byte_def is_ascii_byte_nat is_ascii_alphanumeric_def is_ascii_alphabetic_def is_ascii_lowercase_def
      is_ascii_uppercase_def is_ascii_digit_def less_eq_char_def)

lemma validate_dns_label_iff [ok_iff]: "validate_dns_label s n l = Inr u \<longleftrightarrow> label_ok slug_byte n s"
proof (cases "s = []")
  case False
  then show ?thesis
    using label_chars[OF False, of slug_byte] ascii_bytes(1)
    by (auto simp: validate_dns_label_def validate_chars_iff label_ok_def is_slug_alnum_def slug_byte_def[abs_def])
qed (simp add: validate_dns_label_def label_ok_def)

lemma validate_org_name_iff [ok_iff]: "validate_org_name slug s = Inr u \<longleftrightarrow> label_ok is_ascii_alphanumeric ORG_NAME_MAX_LEN s"
proof (cases "s = []")
  case False
  then show ?thesis
    using label_chars[OF False, of is_ascii_alphanumeric] ascii_bytes(2)
    by (auto simp: validate_org_name_def validate_chars_iff label_ok_def is_org_alnum_def)
qed (simp add: validate_org_name_def label_ok_def)

definition app_ok :: "github_app_config \<Rightarrow> bool" where
  "app_ok app \<longleftrightarrow> label_ok slug_byte APP_ID_MAX_LEN (ga_id app) \<and> parse_u64 (ga_app_id app) \<noteq> None \<and>
    ga_webhook_secret app \<noteq> [] \<and> \<not> is_blank (ga_private_key app)"

definition tenant_ok :: "string set \<Rightarrow> tenant_config \<Rightarrow> bool" where
  "tenant_ok app_ids t \<longleftrightarrow> label_ok slug_byte SLUG_MAX_LEN (tn_slug t) \<and>
    tn_connector_ids t \<noteq> [] \<and> (\<forall>c\<in>set (tn_connector_ids t). \<not> is_blank c) \<and>
    label_ok is_ascii_alphanumeric ORG_NAME_MAX_LEN (tn_org t) \<and> tn_app t \<in> app_ids"

definition connector_pairs :: "tenant_config \<Rightarrow> (string \<times> string) list" where
  "connector_pairs t = map (\<lambda>c. (c, tn_org t)) (tn_connector_ids t)"

definition document_ok :: "tenancy_document \<Rightarrow> bool" where
  "document_ok d \<longleftrightarrow>
    (\<forall>a\<in>set (td_github_apps d). app_ok a) \<and> distinct (map ga_id (td_github_apps d)) \<and>
    (\<forall>t\<in>set (td_tenants d). tenant_ok (ga_id ` set (td_github_apps d)) t) \<and>
    distinct (map tn_slug (td_tenants d)) \<and> distinct (map (\<lambda>t. (tn_app t, tn_org t)) (td_tenants d)) \<and>
    distinct (concat (map connector_pairs (td_tenants d)))"

lemma validate_app_entry_iff [ok_iff]: "validate_app_entry app = Inr u \<longleftrightarrow> app_ok app"
  by (simp add: validate_app_entry_def validate_app_id_field_def app_ok_def ok_iff)

lemma validate_tenant_iff [ok_iff]: "validate_tenant t apps = Inr u \<longleftrightarrow> tenant_ok {i. hm_get apps i \<noteq> None} t"
  by (auto simp: validate_tenant_def validate_slug_def validate_connector_ids_def validate_tenant_binding_def
      tenant_ok_def tn_org_def tn_app_def ok_iff)

section \<open>The registries\<close>

lemma hm_insert_fresh: "\<not> hm_contains_key m k \<Longrightarrow> hm_insert k v m = m @ [(k, v)]"
  by (induction m) (auto simp: hm_insert_def hm_contains_key_def hm_keys_def)

lemma contains_key_keys: "hm_contains_key m k \<longleftrightarrow> k \<in> fst ` set m"
  by (simp add: hm_contains_key_def hm_keys_def)

lemma build_apps_iff:
  "build_apps m apps = Inr m' \<longleftrightarrow> (\<forall>a\<in>set apps. app_ok a) \<and> distinct (map ga_id apps) \<and>
    fst ` set m \<inter> ga_id ` set apps = {} \<and> m' = m @ map (\<lambda>a. (ga_id a, a)) apps"
  by (induction apps arbitrary: m) (auto simp: ok_iff hm_insert_fresh contains_key_keys)

lemma add_connectors_iff:
  "add_connectors t m cs = Inr m' \<longleftrightarrow> distinct cs \<and> fst ` set m \<inter> (\<lambda>c. (c, tn_org t)) ` set cs = {} \<and>
    m' = m @ map (\<lambda>c. ((c, tn_org t), t)) cs"
  by (induction cs arbitrary: m) (auto simp: hm_insert_fresh contains_key_keys)

text \<open>The registry of a list of tenants.\<close>

definition registry_of :: "tenant_config list \<Rightarrow> tenant_registry" where
  "registry_of ts =
    \<lparr> tr_by_slug = map (\<lambda>t. (tn_slug t, t)) ts,
      tr_by_connector_and_org = concat (map (\<lambda>t. map (\<lambda>p. (p, t)) (connector_pairs t)) ts),
      tr_by_app_and_org = map (\<lambda>t. ((tn_app t, tn_org t), t)) ts \<rparr>"

definition distinct_tenants :: "tenant_config list \<Rightarrow> bool" where
  "distinct_tenants ts \<longleftrightarrow> distinct (map tn_slug ts) \<and> distinct (map (\<lambda>t. (tn_app t, tn_org t)) ts) \<and>
    distinct (concat (map connector_pairs ts))"

lemma add_tenant_iff:
  assumes "distinct_tenants ts"
  shows "add_tenant apps t (registry_of ts) = Inr r \<longleftrightarrow>
    tenant_ok {i. hm_get apps i \<noteq> None} t \<and> distinct_tenants (ts @ [t]) \<and> r = registry_of (ts @ [t])"
proof -
  have keys: "fst ` set (concat (map (\<lambda>t. map (\<lambda>p. (p, t)) (connector_pairs t)) ts)) = set (concat (map connector_pairs ts))"
    by (force simp: image_iff)
  have pairs: "distinct (map (\<lambda>c. (c, tn_org t)) cs) \<longleftrightarrow> distinct cs" for cs :: "string list"
    by (auto simp: distinct_map inj_on_def)
  show ?thesis
    using assms
    by (auto simp: add_tenant_def ok_iff add_connectors_iff registry_of_def distinct_tenants_def contains_key_keys
        hm_insert_fresh keys[simplified] pairs connector_pairs_def[of t] comp_def image_iff)
qed

lemma build_tenants_iff:
  "distinct_tenants ts \<Longrightarrow> build_tenants apps (registry_of ts) us = Inr r \<longleftrightarrow>
    (\<forall>t\<in>set us. tenant_ok {i. hm_get apps i \<noteq> None} t) \<and> distinct_tenants (ts @ us) \<and> r = registry_of (ts @ us)"
proof (induction us arbitrary: ts)
  case (Cons t us)
  have "distinct_tenants (ts @ t # us) \<Longrightarrow> distinct_tenants (ts @ [t])" by (auto simp: distinct_tenants_def)
  with Cons show ?case by (auto simp: and_then_Inr_iff add_tenant_iff)
qed auto

lemma from_document_iff:
  "from_document d = Inr reg \<longleftrightarrow> document_ok d \<and>
    reg = \<lparr> ty_apps = map (\<lambda>a. (ga_id a, a)) (td_github_apps d), ty_tenants = registry_of (td_tenants d) \<rparr>"
proof -
  have empty: "\<lparr> tr_by_slug = [], tr_by_connector_and_org = [], tr_by_app_and_org = [] \<rparr> = registry_of []"
    by (simp add: registry_of_def)
  have "distinct_tenants []" by (simp add: distinct_tenants_def)
  moreover have ids: "{i. \<exists>y. hm_get (map (\<lambda>a. (ga_id a, a)) as) i = Some y} = ga_id ` set as" for as
  proof -
    have "dom (map_of (map (\<lambda>a. (ga_id a, a)) as)) = ga_id ` set as"
      by (simp add: dom_map_of_conv_image_fst image_image)
    then show ?thesis by (simp only: hm_get_def dom_def not_None_eq)
  qed
  ultimately show ?thesis
    unfolding from_document_def empty
    by (auto simp: ids and_then_Inr_iff build_apps_iff build_tenants_iff document_ok_def distinct_tenants_def)
qed

section \<open>Properties\<close>

lemma map_of_distinct_iff: "distinct (map fst m) \<Longrightarrow> hm_get m k = Some v \<longleftrightarrow> (k, v) \<in> set m"
  unfolding hm_get_def by (rule map_of_eq_Some_iff)

lemma connector_keys: "map fst (concat (map (\<lambda>t. map (\<lambda>p. (p, t)) (connector_pairs t)) ts)) = concat (map connector_pairs ts)"
  by (simp add: map_concat comp_def)

text \<open>
  A tenancy document is loaded exactly when every app and every tenant is well formed, every
  tenant names an app of the document, and apps, slugs, pairs of app and organisation, and
  pairs of connector and organisation are all unambiguous.
\<close>

theorem tenancy_document_accepted: "(\<exists>reg. from_document d = Inr reg) \<longleftrightarrow> document_ok d"
  by (simp add: from_document_iff)

lemma registry_lookups:
  assumes "from_document d = Inr reg"
  shows "find_by_slug (ty_tenants reg) s = Some t \<longleftrightarrow> t \<in> set (td_tenants d) \<and> tn_slug t = s"
    and "find_by_app_and_org (ty_tenants reg) a org = Some t \<longleftrightarrow> t \<in> set (td_tenants d) \<and> tn_app t = a \<and> tn_org t = org"
    and "find_for_connector_and_org (ty_tenants reg) c org = Some t \<longleftrightarrow>
      t \<in> set (td_tenants d) \<and> c \<in> set (tn_connector_ids t) \<and> tn_org t = org"
    and "t \<in> set (td_tenants d) \<Longrightarrow> \<exists>app \<in> set (td_github_apps d). find_app (ty_apps reg) (tn_app t) = Some app \<and> ga_id app = tn_app t"
proof -
  from assms have ok: "document_ok d" and apps: "ty_apps reg = map (\<lambda>a. (ga_id a, a)) (td_github_apps d)"
    and reg: "ty_tenants reg = registry_of (td_tenants d)" by (simp_all add: from_document_iff)
  from ok have dist: "distinct (map fst (tr_by_slug (ty_tenants reg)))" "distinct (map fst (tr_by_app_and_org (ty_tenants reg)))"
      "distinct (map fst (tr_by_connector_and_org (ty_tenants reg)))" "distinct (map fst (ty_apps reg))"
    by (simp_all add: reg apps registry_of_def document_ok_def comp_def connector_keys)
  show "find_by_slug (ty_tenants reg) s = Some t \<longleftrightarrow> t \<in> set (td_tenants d) \<and> tn_slug t = s"
    unfolding find_by_slug_def map_of_distinct_iff[OF dist(1)] by (auto simp: reg registry_of_def)
  show "find_by_app_and_org (ty_tenants reg) a org = Some t \<longleftrightarrow> t \<in> set (td_tenants d) \<and> tn_app t = a \<and> tn_org t = org"
    unfolding find_by_app_and_org_def map_of_distinct_iff[OF dist(2)] by (auto simp: reg registry_of_def)
  show "find_for_connector_and_org (ty_tenants reg) c org = Some t \<longleftrightarrow>
      t \<in> set (td_tenants d) \<and> c \<in> set (tn_connector_ids t) \<and> tn_org t = org"
    unfolding find_for_connector_and_org_def map_of_distinct_iff[OF dist(3)]
    by (auto simp: reg registry_of_def connector_pairs_def)
  show "\<exists>app \<in> set (td_github_apps d). find_app (ty_apps reg) (tn_app t) = Some app \<and> ga_id app = tn_app t"
    if "t \<in> set (td_tenants d)"
    using ok that unfolding find_app_def map_of_distinct_iff[OF dist(4)]
    by (fastforce simp: apps document_ok_def tenant_ok_def)
qed

text \<open>
  Claim C24. Routing to a tenant is exact: in a loaded registry each of the three lookups returns a tenant
  exactly when that tenant of the document matches, so no webhook and no login reaches another
  tenant, and the app that a tenant refers to is there.
\<close>

theorem tenant_lookup_exact:
  assumes "from_document d = Inr reg"
  shows "(find_by_slug (ty_tenants reg) s = Some t \<longleftrightarrow> t \<in> set (td_tenants d) \<and> tn_slug t = s) \<and>
    (find_by_app_and_org (ty_tenants reg) a org = Some t \<longleftrightarrow> t \<in> set (td_tenants d) \<and> tn_app t = a \<and> tn_org t = org) \<and>
    (find_for_connector_and_org (ty_tenants reg) c org = Some t \<longleftrightarrow>
      t \<in> set (td_tenants d) \<and> c \<in> set (tn_connector_ids t) \<and> tn_org t = org) \<and>
    (t \<in> set (td_tenants d) \<longrightarrow> (\<exists>app \<in> set (td_github_apps d). find_app (ty_apps reg) (tn_app t) = Some app \<and> ga_id app = tn_app t))"
  using registry_lookups[OF assms] by simp

definition demo_tenant :: tenant_config where
  "demo_tenant = \<lparr> tn_slug = ''t'', tn_display_name = None, tn_connector_ids = [''g''],
    tn_provider = GithubProvider \<lparr> tb_org_name = ''A-1'', tb_app_ref = ''p'' \<rparr> \<rparr>"

definition demo_document :: tenancy_document where
  "demo_document = \<lparr> td_github_apps = [\<lparr> ga_id = ''p'', ga_app_id = ''12'', ga_webhook_secret = ''s'', ga_private_key = ''k'' \<rparr>],
    td_tenants = [demo_tenant] \<rparr>"

theorem tenant_lookup_exact_witness:
  "\<exists>reg. from_document demo_document = Inr reg \<and> find_by_app_and_org (ty_tenants reg) ''p'' ''A-1'' = Some demo_tenant"
proof -
  have "\<not> isl (from_document demo_document)" by code_simp
  then obtain reg where reg: "from_document demo_document = Inr reg" by (cases "from_document demo_document") auto
  with tenant_lookup_exact[OF reg, of _ demo_tenant] show ?thesis
    by (auto simp: demo_document_def demo_tenant_def tn_app_def tn_org_def)
qed

end
