(* ===== verification/Github.thy ===== *)
theory Github
  imports Reaper Tenancy
begin

text \<open>
  The GitHub provider, \<open>src/providers/src/github.rs\<close> and \<open>src/providers/src/lib.rs\<close>: webhooks, their
  signatures and tenants, the pipelines they start, retries, and check runs. The GitHub client,
  JSON and the decoding of webhook events, HMAC and hexadecimal decoding are parameters. A
  coordinator that a handler starts is part of its result, as for the reaper.
\<close>

section \<open>Data\<close>

definition GITHUB_EVENT_PUSH :: string where "GITHUB_EVENT_PUSH = ''push''"
definition GITHUB_EVENT_PULL_REQUEST :: string where "GITHUB_EVENT_PULL_REQUEST = ''pull_request''"
definition GITHUB_EVENT_CHECK_RUN :: string where "GITHUB_EVENT_CHECK_RUN = ''check_run''"
definition GITHUB_EVENT_CHECK_SUITE :: string where "GITHUB_EVENT_CHECK_SUITE = ''check_suite''"
definition GITHUB_EVENT_INSTALLATION :: string where "GITHUB_EVENT_INSTALLATION = ''installation''"
definition TRIGGER_RETRY :: string where "TRIGGER_RETRY = ''retry''"
definition JEFFERIES_DIR :: string where "JEFFERIES_DIR = ''.jefferies''"

type_synonym status_code = nat

datatype github_error =
    OctocrabError string
  | InvalidAppId string
  | InvalidPrivateKey string
  | InvalidPayload string
  | TenantBindingMissing string

datatype retry_error = UnknownRun | RetryBackend string

text \<open>Webhook events as \<open>octocrab\<close> decodes them; \<open>external_id\<close> and \<open>head_sha\<close> are the strings at these keys, if any.\<close>

record event_repository =
  er_owner :: "string option"
  er_name :: string

record pull_request =
  pq_head_repo :: "event_repository option"
  pq_head_sha :: string
  pq_head_ref :: string
  pq_base_ref :: string
  pq_number :: u64

datatype event_payload =
    PushPayload string string
  | PullRequestPayload string pull_request
  | CheckRunPayload string "string option"
  | CheckSuitePayload string "string option"
  | OtherPayload

record webhook_event =
  we_specific :: event_payload
  we_repository :: "event_repository option"

text \<open>Decoders: \<open>wc_json\<close> gives the strings of a JSON document by pointer.\<close>

record webhook_codec =
  wc_event :: "string \<Rightarrow> string \<Rightarrow> string + webhook_event"
  wc_json :: "string \<Rightarrow> string + (string \<Rightarrow> string option)"
  wc_hex_decode :: "string \<Rightarrow> string option"
  wc_hmac :: "string \<Rightarrow> string \<Rightarrow> string option"

type_synonym crab = nat

record content_item =
  it_type :: string
  it_name :: string
  it_path :: string
  it_decoded :: "string option"

datatype content_error = GithubStatus nat string | ContentFailed string

datatype check_conclusion = ConclusionSuccess | ConclusionFailure | ConclusionCancelled | ConclusionNeutral

record 'w github_client =
  gc_encoding_key :: "string \<Rightarrow> string + string"
  gc_build_app :: "u64 \<Rightarrow> string \<Rightarrow> string + crab"
  gc_repository_installation :: "crab \<Rightarrow> string \<Rightarrow> string \<Rightarrow> ('w, string + int) state"
  gc_installation :: "crab \<Rightarrow> int \<Rightarrow> string + crab"
  gc_get_content :: "crab \<Rightarrow> string \<Rightarrow> string \<Rightarrow> string \<Rightarrow> string \<Rightarrow> ('w, content_error + content_item list) state"
  gc_create_check_run :: "crab \<Rightarrow> string \<Rightarrow> string \<Rightarrow> string \<Rightarrow> string \<Rightarrow> string \<Rightarrow> ('w, string + u64) state"
  gc_update_check_run :: "crab \<Rightarrow> string \<Rightarrow> string \<Rightarrow> u64 \<Rightarrow> check_conclusion \<Rightarrow> datetime \<Rightarrow> ('w, string + unit) state"
  gc_source_manager :: "crab \<Rightarrow> 'w s3_client"

text \<open>
  \<open>ProviderState\<close>: the services of a coordinator, the registries, and what the handlers call. The
  source manager downloads with the installation client that it is handed.
\<close>

record 'w provider_state =
  pv_services :: "'w coordinator_env"
  pv_tenants :: tenant_registry
  pv_github_apps :: github_app_registry
  pv_github :: "'w github_client"
  pv_codec :: webhook_codec
  pv_yaml :: "string \<Rightarrow> string + pipeline"
  pv_uuid_to_string :: "uuid \<Rightarrow> string"

definition provider_state_new ::
  "'w coordinator_env \<Rightarrow> tenancy_registry \<Rightarrow> 'w github_client \<Rightarrow> webhook_codec \<Rightarrow> (string \<Rightarrow> string + pipeline) \<Rightarrow>
    (uuid \<Rightarrow> string) \<Rightarrow> 'w provider_state" where
  "provider_state_new env tenancy github codec yaml uuid_to_string =
    \<lparr> pv_services = env, pv_tenants = ty_tenants tenancy, pv_github_apps = ty_apps tenancy, pv_github = github,
      pv_codec = codec, pv_yaml = yaml, pv_uuid_to_string = uuid_to_string \<rparr>"

text \<open>Headers: a value that is not visible ASCII counts as absent (\<open>None\<close>).\<close>

type_synonym header_map = "string \<Rightarrow> string option"

definition get_header :: "header_map \<Rightarrow> string \<Rightarrow> string" where
  "get_header headers key = unwrap_str (headers key)"

section \<open>Pure parts\<close>

definition parse_push_ref :: "string \<Rightarrow> string option \<times> string option" where
  "parse_push_ref git_ref =
    (case strip_prefix git_ref ''refs/heads/'' of
       Some branch \<Rightarrow> (Some branch, None)
     | None \<Rightarrow>
        (case strip_prefix git_ref ''refs/tags/'' of
           Some tag \<Rightarrow> (None, Some tag)
         | None \<Rightarrow> (None, None)))"

datatype owner_kind = OwnerUser | OwnerOrganization | OwnerUnknown

record owner_info =
  oi_login :: string
  oi_kind :: owner_kind

definition parse_owner_kind :: "string option \<Rightarrow> owner_kind" where
  "parse_owner_kind raw =
    (if raw = Some ''Organization'' then OwnerOrganization else if raw = Some ''User'' then OwnerUser else OwnerUnknown)"

definition extract_owner_info :: "webhook_codec \<Rightarrow> string \<Rightarrow> owner_info option" where
  "extract_owner_info codec body =
    (case wc_json codec body of
       Inl _ \<Rightarrow> None
     | Inr pointer \<Rightarrow>
        (case pointer ''/repository/owner/login'' of
           Some login \<Rightarrow> Some \<lparr> oi_login = login, oi_kind = parse_owner_kind (pointer ''/repository/owner/type'') \<rparr>
         | None \<Rightarrow>
            (case pointer ''/organization/login'' of
               Some login \<Rightarrow> Some \<lparr> oi_login = login, oi_kind = OwnerOrganization \<rparr>
             | None \<Rightarrow>
                (case pointer ''/installation/account/login'' of
                   Some login \<Rightarrow> Some \<lparr> oi_login = login, oi_kind = parse_owner_kind (pointer ''/installation/account/type'') \<rparr>
                 | None \<Rightarrow> None))))"

definition signature_matches :: "webhook_codec \<Rightarrow> string \<Rightarrow> string \<Rightarrow> string \<Rightarrow> bool" where
  "signature_matches codec payload signature_header secret =
    (case strip_prefix signature_header ''sha256='' of
       None \<Rightarrow> False
     | Some hex_hash \<Rightarrow>
        (case wc_hex_decode codec hex_hash of
           None \<Rightarrow> False
         | Some expected_signature \<Rightarrow>
            (case wc_hmac codec secret payload of
               None \<Rightarrow> False
             | Some tag \<Rightarrow> tag = expected_signature)))"

definition identify_signing_app :: "webhook_codec \<Rightarrow> github_app_registry \<Rightarrow> string \<Rightarrow> string \<Rightarrow> github_app_config option" where
  "identify_signing_app codec apps body signature_header =
    find (\<lambda>app. signature_matches codec body signature_header (ga_webhook_secret app)) (hm_values apps)"

definition resolve_app_for_tenant :: "'w provider_state \<Rightarrow> tenant_config \<Rightarrow> github_app_config option" where
  "resolve_app_for_tenant st t = find_app (pv_github_apps st) (tb_app_ref (binding_of (tn_provider t)))"

text \<open>Apart from its log line, the answer to an installation event.\<close>

definition handle_installation :: "string \<Rightarrow> 'w provider_state \<Rightarrow> status_code" where
  "handle_installation body st = 200"

section \<open>The installation client and check runs\<close>

definition octo_err :: "('w, string + 'a) state \<Rightarrow> ('w, github_error + 'a) state" where
  "octo_err m = do { r \<leftarrow> m; State_Monad.return (map_sum OctocrabError id r) }"

definition build_installation_client ::
  "'w github_client \<Rightarrow> string \<Rightarrow> string \<Rightarrow> github_app_config \<Rightarrow> ('w, github_error + crab) state" where
  "build_installation_client gh owner repo app =
    (case parse_u64 (ga_app_id app) of
       None \<Rightarrow> State_Monad.return (Inl (InvalidAppId (ga_app_id app)))
     | Some app_id \<Rightarrow>
        (case gc_encoding_key gh (ga_private_key app) of
           Inl e \<Rightarrow> State_Monad.return (Inl (InvalidPrivateKey e))
         | Inr key \<Rightarrow>
            (case gc_build_app gh app_id key of
               Inl e \<Rightarrow> State_Monad.return (Inl (OctocrabError e))
             | Inr app_crab \<Rightarrow>
                bind_ok (octo_err (gc_repository_installation gh app_crab owner repo)) (\<lambda>installation.
                State_Monad.return (map_sum OctocrabError id (gc_installation gh app_crab installation))))))"

fun conclusion_of :: "run_status \<Rightarrow> check_conclusion" where
  "conclusion_of RunSuccess = ConclusionSuccess"
| "conclusion_of RunFailure = ConclusionFailure"
| "conclusion_of RunCancelled = ConclusionCancelled"
| "conclusion_of InProgress = ConclusionNeutral"

text \<open>\<open>GithubCheckRunReporter\<close>\<close>

definition check_run_reporter ::
  "'w provider_state \<Rightarrow> crab \<Rightarrow> string \<Rightarrow> string \<Rightarrow> u64 \<Rightarrow> 'w reporter" where
  "check_run_reporter st cr owner repo check_run_id status = do {
    now \<leftarrow> rt_now (pv_services st);
    _ \<leftarrow> gc_update_check_run (pv_github st) cr owner repo check_run_id (conclusion_of status) now;
    State_Monad.return ()
  }"

definition create_check_run_reporter ::
  "'w provider_state \<Rightarrow> crab \<Rightarrow> string \<Rightarrow> string \<Rightarrow> string \<Rightarrow> string \<Rightarrow> string \<Rightarrow>
    ('w, 'w reporter option \<times> i64 option) state" where
  "create_check_run_reporter st cr owner repo sha run_id pipeline_name = do {
    r \<leftarrow> gc_create_check_run (pv_github st) cr owner repo pipeline_name sha run_id;
    State_Monad.return (case r of
        Inr i \<Rightarrow> (Some (check_run_reporter st cr owner repo i), Some (sint i))
      | Inl _ \<Rightarrow> (None, None))
  }"

text \<open>\<open>GithubCheckRunReporterFactory::for_run\<close>\<close>

definition for_run :: "'w provider_state \<Rightarrow> run_context \<Rightarrow> ('w, 'w reporter option) state" where
  "for_run st rc =
    (case rc_github_check_run_id rc of
       None \<Rightarrow> State_Monad.return None
     | Some check_run_id \<Rightarrow>
        (case Option.bind (rc_tenant_slug rc) (\<lambda>slug. Option.bind (find_by_slug (pv_tenants st) slug) (resolve_app_for_tenant st)) of
           None \<Rightarrow> State_Monad.return None
         | Some app \<Rightarrow> do {
             r \<leftarrow> build_installation_client (pv_github st) (rc_owner rc) (rc_repo rc) app;
             State_Monad.return (case r of
                 Inl _ \<Rightarrow> None
               | Inr cr \<Rightarrow> Some (check_run_reporter st cr (rc_owner rc) (rc_repo rc) (word_of_int check_run_id)))
           }))"

section \<open>Starting runs\<close>

definition launch_coordinator_for_pipeline ::
  "pipeline \<Rightarrow> run_context \<Rightarrow> crab \<Rightarrow> 'w provider_state \<Rightarrow> ('w, (string \<times> 'w task) option) state" where
  "launch_coordinator_for_pipeline p rc cr st = do {
    run_id \<leftarrow> rt_new_uuid (pv_services st);
    uploaded \<leftarrow> (if list_ex ni_checkout (pipeline_node_info p)
      then upload_source (gc_source_manager (pv_github st) cr) run_id (rc_owner rc) (rc_repo rc) (rc_sha rc)
      else State_Monad.return (Inr ()));
    (case uploaded of
       Inl _ \<Rightarrow> State_Monad.return None
     | Inr _ \<Rightarrow> do {
         (reporter, check_run_id) \<leftarrow>
           create_check_run_reporter st cr (rc_owner rc) (rc_repo rc) (rc_sha rc) run_id (pl_name p);
         handle \<leftarrow> start_coordinator ((pv_services st)\<lparr>sv_report_completed := reporter\<rparr>) run_id p
           (rc\<lparr>rc_github_check_run_id := check_run_id\<rparr>);
         State_Monad.return (case handle of None \<Rightarrow> None | Some c \<Rightarrow> Some (run_id, (c, reporter)))
       })
  }"

definition fetch_file_content ::
  "'w github_client \<Rightarrow> crab \<Rightarrow> string \<Rightarrow> string \<Rightarrow> string \<Rightarrow> string \<Rightarrow> ('w, github_error + string option) state" where
  "fetch_file_content gh cr owner repo path sha = do {
    r \<leftarrow> gc_get_content gh cr owner repo path sha;
    State_Monad.return (case r of
        Inl (GithubStatus _ e) \<Rightarrow> Inl (OctocrabError e)
      | Inl (ContentFailed e) \<Rightarrow> Inl (OctocrabError e)
      | Inr [] \<Rightarrow> Inr None
      | Inr (item # _) \<Rightarrow> Inr (it_decoded item))
  }"

fun match_items ::
  "'w provider_state \<Rightarrow> crab \<Rightarrow> string \<Rightarrow> string \<Rightarrow> string \<Rightarrow> (pipeline \<Rightarrow> bool) \<Rightarrow> content_item list \<Rightarrow>
    ('w, (string \<times> pipeline) list) state" where
  "match_items st cr owner repo sha matches_event [] = State_Monad.return []"
| "match_items st cr owner repo sha matches_event (item # items) =
    (if it_type item \<noteq> ''file'' \<or> (\<not> ends_with (it_name item) ''.yaml'' \<and> \<not> ends_with (it_name item) ''.yml'') then
       match_items st cr owner repo sha matches_event items
     else do {
       r \<leftarrow> fetch_file_content (pv_github st) cr owner repo (it_path item) sha;
       rest \<leftarrow> match_items st cr owner repo sha matches_event items;
       State_Monad.return (case r of
           Inr (Some yaml_content) \<Rightarrow>
             (case from_yaml (pv_yaml st) yaml_content of
                Inr p \<Rightarrow> if matches_event p then (yaml_content, p) # rest else rest
              | Inl _ \<Rightarrow> rest)
         | _ \<Rightarrow> rest)
     })"

definition find_matching_pipelines ::
  "'w provider_state \<Rightarrow> crab \<Rightarrow> string \<Rightarrow> string \<Rightarrow> string \<Rightarrow> (pipeline \<Rightarrow> bool) \<Rightarrow>
    ('w, github_error + (string \<times> pipeline) list) state" where
  "find_matching_pipelines st cr owner repo sha matches_event = do {
    dir \<leftarrow> gc_get_content (pv_github st) cr owner repo JEFFERIES_DIR sha;
    (case dir of
       Inl (GithubStatus code e) \<Rightarrow>
         State_Monad.return (if code = 404 then Inr [] else Inl (OctocrabError e))
     | Inl (ContentFailed e) \<Rightarrow> State_Monad.return (Inl (OctocrabError e))
     | Inr items \<Rightarrow> do {
         matching \<leftarrow> match_items st cr owner repo sha matches_event items;
         State_Monad.return (Inr matching)
       })
  }"

text \<open>The loop that launches a run for each matching pipeline.\<close>

definition launch_one ::
  "'w provider_state \<Rightarrow> crab \<Rightarrow> (string \<Rightarrow> datetime \<Rightarrow> run_context) \<Rightarrow> string \<times> pipeline \<Rightarrow> ('w, 'w task list) state" where
  "launch_one st cr context_for m =
    (case m of (raw_yaml, p) \<Rightarrow> do {
      now \<leftarrow> rt_now (pv_services st);
      r \<leftarrow> launch_coordinator_for_pipeline p (context_for raw_yaml now) cr st;
      State_Monad.return (case r of None \<Rightarrow> [] | Some (_, task) \<Rightarrow> [task])
    })"

definition start_pipelines ::
  "'w provider_state \<Rightarrow> tenant_config \<Rightarrow> string \<Rightarrow> string \<Rightarrow> string \<Rightarrow> (pipeline \<Rightarrow> bool) \<Rightarrow>
    (string \<Rightarrow> datetime \<Rightarrow> run_context) \<Rightarrow> ('w, github_error + 'w task list) state" where
  "start_pipelines st tenant owner repo sha matches_event context_for =
    (case resolve_app_for_tenant st tenant of
       None \<Rightarrow> State_Monad.return (Inl (TenantBindingMissing (tn_slug tenant)))
     | Some app \<Rightarrow>
        bind_ok (build_installation_client (pv_github st) owner repo app) (\<lambda>cr.
        bind_ok (find_matching_pipelines st cr owner repo sha matches_event) (\<lambda>matching. do {
          tasks \<leftarrow> collect_M (launch_one st cr context_for) matching;
          State_Monad.return (Inr tasks)
        })))"

definition start_push_pipelines ::
  "string \<Rightarrow> string \<Rightarrow> string \<Rightarrow> string \<Rightarrow> tenant_config \<Rightarrow> 'w provider_state \<Rightarrow> ('w, github_error + 'w task list) state" where
  "start_push_pipelines owner repo sha git_ref tenant st =
    (let (branch, tag) = parse_push_ref git_ref in
     start_pipelines st tenant owner repo sha (\<lambda>p. triggered_by_push p branch tag) (\<lambda>raw_yaml now.
       \<lparr> rc_owner = owner, rc_repo = repo, rc_sha = sha, rc_branch = branch, rc_target_branch = None, rc_tag = tag,
         rc_pr_number = None, rc_trigger = GITHUB_EVENT_PUSH, rc_pipeline_yaml = raw_yaml, rc_created_at = now,
         rc_retry_of = None, rc_tenant_slug = Some (tn_slug tenant), rc_github_check_run_id = None \<rparr>))"

record pull_request_event_info =
  pe_owner :: string
  pe_repo :: string
  pe_sha :: string
  pe_head_branch :: string
  pe_base_branch :: string
  pe_pr_number :: i64

definition start_pr_pipelines ::
  "pull_request_event_info \<Rightarrow> tenant_config \<Rightarrow> 'w provider_state \<Rightarrow> ('w, github_error + 'w task list) state" where
  "start_pr_pipelines event tenant st =
    start_pipelines st tenant (pe_owner event) (pe_repo event) (pe_sha event)
      (\<lambda>p. triggered_by_pull_request p (pe_base_branch event)) (\<lambda>raw_yaml now.
       \<lparr> rc_owner = pe_owner event, rc_repo = pe_repo event, rc_sha = pe_sha event,
         rc_branch = Some (pe_head_branch event), rc_target_branch = Some (pe_base_branch event), rc_tag = None,
         rc_pr_number = Some (pe_pr_number event), rc_trigger = GITHUB_EVENT_PULL_REQUEST, rc_pipeline_yaml = raw_yaml,
         rc_created_at = now, rc_retry_of = None, rc_tenant_slug = Some (tn_slug tenant),
         rc_github_check_run_id = None \<rparr>)"

section \<open>Retry\<close>

definition retry_context :: "pipeline_run_row \<Rightarrow> string \<Rightarrow> string \<Rightarrow> datetime \<Rightarrow> run_context" where
  "retry_context original run_id tenant_slug now =
    \<lparr> rc_owner = row_owner original, rc_repo = row_repo original, rc_sha = row_sha original,
      rc_branch = row_branch original, rc_target_branch = row_target_branch original, rc_tag = row_tag original,
      rc_pr_number = row_pr_number original, rc_trigger = TRIGGER_RETRY,
      rc_pipeline_yaml = row_pipeline_definition original, rc_created_at = now, rc_retry_of = Some run_id,
      rc_tenant_slug = Some tenant_slug, rc_github_check_run_id = None \<rparr>"

text \<open>After the run has been found: its tenant, the app, the pipeline and the launch.\<close>

definition retry_original ::
  "'w provider_state \<Rightarrow> string \<Rightarrow> string \<Rightarrow> pipeline_run_row \<Rightarrow> ('w, retry_error + string \<times> 'w task) state" where
  "retry_original st expected_slug run_id original =
    (case row_tenant_slug original of
       None \<Rightarrow> State_Monad.return (Inl (RetryBackend ''missing tenant_slug''))
     | Some tenant_slug \<Rightarrow>
        if tenant_slug \<noteq> expected_slug then State_Monad.return (Inl UnknownRun)
        else (case find_by_slug (pv_tenants st) tenant_slug of
           None \<Rightarrow> State_Monad.return (Inl (RetryBackend ''tenant unregistered''))
         | Some tenant \<Rightarrow>
            (case resolve_app_for_tenant st tenant of
               None \<Rightarrow> State_Monad.return (Inl (RetryBackend ''tenant binding missing''))
             | Some app \<Rightarrow>
                (case from_yaml (pv_yaml st) (row_pipeline_definition original) of
                   Inl _ \<Rightarrow> State_Monad.return (Inl (RetryBackend ''pipeline parse''))
                 | Inr p \<Rightarrow> do {
                     client \<leftarrow> build_installation_client (pv_github st) (row_owner original) (row_repo original) app;
                     (case client of
                        Inl _ \<Rightarrow> State_Monad.return (Inl (RetryBackend ''install client''))
                      | Inr cr \<Rightarrow> do {
                          now \<leftarrow> rt_now (pv_services st);
                          r \<leftarrow> launch_coordinator_for_pipeline p (retry_context original run_id tenant_slug now) cr st;
                          State_Monad.return (case r of
                              None \<Rightarrow> Inl (RetryBackend ''coordinator launch failed'')
                            | Some launched \<Rightarrow> Inr launched)
                        })
                   }))))"

definition retry_pipeline_run ::
  "'w provider_state \<Rightarrow> string \<Rightarrow> string \<Rightarrow> ('w, retry_error + string \<times> 'w task) state" where
  "retry_pipeline_run st expected_slug run_id = do {
    found \<leftarrow> rh_get_pipeline_run (sv_run_history (pv_services st)) run_id;
    (case found of
       Inl _ \<Rightarrow> State_Monad.return (Inl (RetryBackend ''history lookup''))
     | Inr None \<Rightarrow> State_Monad.return (Inl UnknownRun)
     | Inr (Some original) \<Rightarrow> retry_original st expected_slug run_id original)
  }"

text \<open>The response: status, the id of the new run, and the coordinator that was started.\<close>

definition retry_run ::
  "'w provider_state \<Rightarrow> string \<Rightarrow> string \<Rightarrow> ('w, (status_code \<times> string option) \<times> 'w task list) state" where
  "retry_run st slug run_id = do {
    r \<leftarrow> retry_pipeline_run st slug run_id;
    State_Monad.return (case r of
        Inr (new_run_id, task) \<Rightarrow> ((200, Some new_run_id), [task])
      | Inl UnknownRun \<Rightarrow> ((404, None), [])
      | Inl (RetryBackend _) \<Rightarrow> ((500, None), []))
  }"

definition trigger_retry_for_run :: "tenant_config \<Rightarrow> 'w provider_state \<Rightarrow> string \<Rightarrow> ('w, 'w task list) state" where
  "trigger_retry_for_run tenant st run_id = do {
    r \<leftarrow> retry_pipeline_run st (tn_slug tenant) run_id;
    State_Monad.return (case r of Inr (_, task) \<Rightarrow> [task] | Inl _ \<Rightarrow> [])
  }"

section \<open>Webhooks\<close>

type_synonym 'w handled = "status_code \<times> 'w task list"

definition bad_payload :: "string \<Rightarrow> ('w, github_error + 'a) state" where
  "bad_payload e = State_Monad.return (Inl (InvalidPayload e))"

text \<open>The repository of an event with its owner.\<close>

definition repository_of :: "string \<Rightarrow> event_repository option \<Rightarrow> github_error + string \<times> string" where
  "repository_of kind repo =
    (case repo of
       None \<Rightarrow> Inl (InvalidPayload (''Missing repository information in '' @ kind @ '' event''))
     | Some r \<Rightarrow>
        (case er_owner r of
           None \<Rightarrow> Inl (InvalidPayload (''Missing owner information in '' @ kind @ '' event''))
         | Some login \<Rightarrow> Inr (login, er_name r)))"

definition handle_push :: "string \<Rightarrow> tenant_config \<Rightarrow> 'w provider_state \<Rightarrow> ('w, github_error + 'w handled) state" where
  "handle_push payload tenant st =
    (case wc_event (pv_codec st) GITHUB_EVENT_PUSH payload of
       Inl e \<Rightarrow> bad_payload e
     | Inr event \<Rightarrow>
        (case we_specific event of
           PushPayload after git_ref \<Rightarrow>
             bind_ok (State_Monad.return (repository_of ''push'' (we_repository event))) (\<lambda>(owner, repo_name).
             bind_ok (start_push_pipelines owner repo_name after git_ref tenant st) (\<lambda>tasks.
             State_Monad.return (Inr (200, tasks))))
         | _ \<Rightarrow> bad_payload ''Bad push event payload''))"

definition handle_pull_request ::
  "string \<Rightarrow> tenant_config \<Rightarrow> 'w provider_state \<Rightarrow> ('w, github_error + 'w handled) state" where
  "handle_pull_request payload tenant st =
    (case wc_event (pv_codec st) GITHUB_EVENT_PULL_REQUEST payload of
       Inl e \<Rightarrow> bad_payload e
     | Inr event \<Rightarrow>
        (case we_specific event of
           PullRequestPayload action pr \<Rightarrow>
             if action \<noteq> ''opened'' \<and> action \<noteq> ''synchronize'' then State_Monad.return (Inr (501, []))
             else
               bind_ok (State_Monad.return (repository_of ''pull request'' (pq_head_repo pr))) (\<lambda>(owner, repo_name).
               bind_ok (start_pr_pipelines
                 \<lparr> pe_owner = owner, pe_repo = repo_name, pe_sha = pq_head_sha pr, pe_head_branch = pq_head_ref pr,
                   pe_base_branch = pq_base_ref pr, pe_pr_number = sint (pq_number pr) \<rparr> tenant st) (\<lambda>tasks.
               State_Monad.return (Inr (200, tasks))))
         | _ \<Rightarrow> bad_payload ''Bad pull request event payload''))"

definition handle_check_run :: "string \<Rightarrow> tenant_config \<Rightarrow> 'w provider_state \<Rightarrow> ('w, github_error + 'w handled) state" where
  "handle_check_run payload tenant st =
    (case wc_event (pv_codec st) GITHUB_EVENT_CHECK_RUN payload of
       Inl e \<Rightarrow> bad_payload e
     | Inr event \<Rightarrow>
        (case we_specific event of
           CheckRunPayload action external_id \<Rightarrow>
             if action \<noteq> ''rerequested'' then State_Monad.return (Inr (200, []))
             else (case external_id of
                 None \<Rightarrow> State_Monad.return (Inr (200, []))
               | Some run_id \<Rightarrow>
                  if run_id = [] then State_Monad.return (Inr (200, []))
                  else do {
                    tasks \<leftarrow> trigger_retry_for_run tenant st run_id;
                    State_Monad.return (Inr (200, tasks))
                  })
         | _ \<Rightarrow> bad_payload ''Bad check_run event payload''))"

definition handle_check_suite :: "string \<Rightarrow> tenant_config \<Rightarrow> 'w provider_state \<Rightarrow> ('w, github_error + 'w handled) state" where
  "handle_check_suite payload tenant st =
    (case wc_event (pv_codec st) GITHUB_EVENT_CHECK_SUITE payload of
       Inl e \<Rightarrow> bad_payload e
     | Inr event \<Rightarrow>
        (case we_specific event of
           CheckSuitePayload action head_sha \<Rightarrow>
             if action \<noteq> ''rerequested'' then State_Monad.return (Inr (200, []))
             else bind_ok (State_Monad.return (repository_of ''check_suite'' (we_repository event))) (\<lambda>(owner, repo_name).
               if unwrap_str head_sha = [] then State_Monad.return (Inr (200, []))
               else do {
                 originating \<leftarrow> rh_list_originating_runs_for_sha (sv_run_history (pv_services st)) (tn_slug tenant) owner
                   repo_name (unwrap_str head_sha);
                 (case originating of
                    Inl _ \<Rightarrow> State_Monad.return (Inr (200, []))
                  | Inr rows \<Rightarrow> do {
                      tasks \<leftarrow> collect_M (\<lambda>row. trigger_retry_for_run tenant st (pv_uuid_to_string st (row_run_id row))) rows;
                      State_Monad.return (Inr (200, tasks))
                    })
               })
         | _ \<Rightarrow> bad_payload ''Bad check_suite event payload''))"

definition or_internal_error :: "('w, github_error + 'w handled) state \<Rightarrow> ('w, 'w handled) state" where
  "or_internal_error m = do { r \<leftarrow> m; State_Monad.return (case r of Inr h \<Rightarrow> h | Inl _ \<Rightarrow> (500, [])) }"

definition handle_webhook :: "'w provider_state \<Rightarrow> header_map \<Rightarrow> string \<Rightarrow> ('w, 'w handled) state" where
  "handle_webhook st headers body =
    (let event_type = get_header headers ''X-GitHub-Event'' in
     if event_type = GITHUB_EVENT_INSTALLATION then State_Monad.return (handle_installation body st, [])
     else
       (case identify_signing_app (pv_codec st) (pv_github_apps st) body (get_header headers ''X-Hub-Signature-256'') of
          None \<Rightarrow> State_Monad.return (401, [])
        | Some matched_app \<Rightarrow>
           (case extract_owner_info (pv_codec st) body of
              None \<Rightarrow> State_Monad.return (200, [])
            | Some owner_info \<Rightarrow>
               if oi_kind owner_info \<noteq> OwnerOrganization then State_Monad.return (200, [])
               else (case find_by_app_and_org (pv_tenants st) (ga_id matched_app) (oi_login owner_info) of
                   None \<Rightarrow> State_Monad.return (200, [])
                 | Some tenant \<Rightarrow>
                    if event_type = GITHUB_EVENT_PUSH then or_internal_error (handle_push body tenant st)
                    else if event_type = GITHUB_EVENT_PULL_REQUEST then or_internal_error (handle_pull_request body tenant st)
                    else if event_type = GITHUB_EVENT_CHECK_RUN then or_internal_error (handle_check_run body tenant st)
                    else if event_type = GITHUB_EVENT_CHECK_SUITE then or_internal_error (handle_check_suite body tenant st)
                    else State_Monad.return (200, [])))))"

end
