(* ===== verification/GithubLaws.thy ===== *)
theory GithubLaws
  imports Github Simulation KubeLaws
begin

text \<open>
  Properties of the GitHub provider: which webhooks start runs and for whom, and what a retry
  starts. The laws are about results: \<open>yields P m\<close> says that \<open>P\<close> holds of every result of \<open>m\<close>.
\<close>

section \<open>Results of programs\<close>

definition yields :: "('a \<Rightarrow> bool) \<Rightarrow> ('w, 'a) state \<Rightarrow> bool" where
  "yields P m \<longleftrightarrow> (\<forall>w. P (fst (State_Monad.run_state m w)))"

lemma yieldsD: "yields P m \<Longrightarrow> State_Monad.run_state m w = (r, w') \<Longrightarrow> P r"
  by (metis yields_def fst_conv)

lemma yields_return: "P x \<Longrightarrow> yields P (State_Monad.return x)"
  by (simp add: yields_def)

lemma yields_bind: "(\<And>x. yields P (f x)) \<Longrightarrow> yields P (m \<bind> f)"
  by (simp add: yields_def split: prod.splits)

lemma yields_bind_strong: "yields Q m \<Longrightarrow> (\<And>x. Q x \<Longrightarrow> yields P (f x)) \<Longrightarrow> yields P (m \<bind> f)"
  by (auto simp: yields_def split: prod.splits) (metis fst_conv)

lemma yields_bind_ok: "(\<And>x. yields P (f x)) \<Longrightarrow> (\<And>e. P (Inl e)) \<Longrightarrow> yields P (bind_ok m f)"
  unfolding bind_ok_def by (intro yields_bind) (auto intro: yields_return split: sum.split)

lemma yields_bind_ok_strong:
  "yields (\<lambda>r. \<forall>a. r = Inr a \<longrightarrow> Q a) m \<Longrightarrow> (\<And>x. Q x \<Longrightarrow> yields P (f x)) \<Longrightarrow> (\<And>e. P (Inl e)) \<Longrightarrow> yields P (bind_ok m f)"
  unfolding bind_ok_def
  by (rule yields_bind_strong, assumption) (auto intro: yields_return split: sum.split)

lemma yields_collect_M:
  "(\<And>x. x \<in> set xs \<Longrightarrow> yields (\<lambda>ts. \<forall>t\<in>set ts. P t) (f x)) \<Longrightarrow> yields (\<lambda>ts. \<forall>t\<in>set ts. P t) (collect_M f xs)"
proof (induction xs)
  case (Cons x xs)
  show ?case unfolding collect_M.simps
    by (rule yields_bind_strong[of "\<lambda>ts. \<forall>t\<in>set ts. P t"]; (rule yields_bind_strong[of "\<lambda>ts. \<forall>t\<in>set ts. P t"])?)
      (use Cons in \<open>auto intro!: yields_return\<close>)
qed (simp add: yields_return)

lemma yields_mono: "yields P m \<Longrightarrow> (\<And>x. P x \<Longrightarrow> Q x) \<Longrightarrow> yields Q m"
  by (simp add: yields_def)

section \<open>What is started\<close>

text \<open>A task whose run has a context with these properties.\<close>

definition runs_for :: "(run_context \<Rightarrow> bool) \<Rightarrow> 'w task \<Rightarrow> bool" where
  "runs_for P task \<longleftrightarrow> P (c_run_context (fst task))"

lemma start_coordinator_result:
  "yields (\<lambda>r. \<forall>c. r = Some c \<longrightarrow> c_run_id c = i \<and> c_pipeline c = p \<and> c_run_context c = rc) (start_coordinator env i p rc)"
  unfolding start_coordinator_def Let_def
  by (intro yields_bind) (auto intro!: yields_bind yields_return split: sum.split option.split prod.split)

text \<open>What a launch starts: the run with the context it was given, and the id of its check run.\<close>

definition launched_as :: "pipeline \<Rightarrow> run_context \<Rightarrow> string \<times> 'w task \<Rightarrow> bool" where
  "launched_as p rc launched \<longleftrightarrow> (let c = fst (snd launched) in
    fst launched = c_run_id c \<and> c_pipeline c = p \<and> (\<exists>k. c_run_context c = rc\<lparr>rc_github_check_run_id := k\<rparr>))"

lemma launch_result:
  "yields (\<lambda>r. \<forall>l. r = Some l \<longrightarrow> launched_as p rc l) (launch_coordinator_for_pipeline p rc cr st)"
proof -
  have "yields (\<lambda>r. \<forall>l. r = Some l \<longrightarrow> launched_as p rc l) (do {
      handle \<leftarrow> start_coordinator env i p (rc\<lparr>rc_github_check_run_id := k\<rparr>);
      State_Monad.return (case handle of None \<Rightarrow> None | Some c \<Rightarrow> Some (i, (c, reporter))) })" for env i k reporter
    by (rule yields_bind_strong[OF start_coordinator_result])
      (auto intro!: yields_return simp: launched_as_def split: option.split)
  then have "yields (\<lambda>r. \<forall>l. r = Some l \<longrightarrow> launched_as p rc l) (do {
      (reporter, k) \<leftarrow> create_check_run_reporter st cr (rc_owner rc) (rc_repo rc) (rc_sha rc) i (pl_name p);
      handle \<leftarrow> start_coordinator ((pv_services st)\<lparr>sv_report_completed := reporter\<rparr>) i p (rc\<lparr>rc_github_check_run_id := k\<rparr>);
      State_Monad.return (case handle of None \<Rightarrow> None | Some c \<Rightarrow> Some (i, (c, reporter))) })" for i
    by (intro yields_bind) (simp only: case_prod_unfold)
  then show ?thesis unfolding launch_coordinator_for_pipeline_def
    by (intro yields_bind) (simp add: yields_return split: sum.split)
qed

lemma launch_one_result:
  assumes "\<And>raw now k. P ((context_for raw now)\<lparr>rc_github_check_run_id := k\<rparr>)"
  shows "yields (\<lambda>ts. \<forall>t\<in>set ts. runs_for P t) (launch_one st cr context_for m)"
proof -
  obtain raw p where m: "m = (raw, p)" by force
  show ?thesis unfolding launch_one_def m prod.case
    by (rule yields_bind, rule yields_bind_strong[OF launch_result])
      (use assms in \<open>auto intro!: yields_return simp: launched_as_def runs_for_def Let_def split: option.split\<close>)
qed

definition handled_for :: "(run_context \<Rightarrow> bool) \<Rightarrow> github_error + 'w handled \<Rightarrow> bool" where
  "handled_for P r \<longleftrightarrow> (case r of Inl _ \<Rightarrow> True | Inr (_, ts) \<Rightarrow> \<forall>t\<in>set ts. runs_for P t)"

lemma start_pipelines_result:
  assumes "\<And>raw now k. P ((context_for raw now)\<lparr>rc_github_check_run_id := k\<rparr>)"
  shows "yields (\<lambda>r. \<forall>ts. r = Inr ts \<longrightarrow> (\<forall>t\<in>set ts. runs_for P t)) (start_pipelines st tenant owner repo sha f context_for)"
proof -
  have "yields (\<lambda>ts. \<forall>t\<in>set ts. runs_for P t) (collect_M (launch_one st cr context_for) ms)" for cr ms
    by (intro yields_collect_M launch_one_result assms)
  then have "yields (\<lambda>r. \<forall>ts. r = Inr ts \<longrightarrow> (\<forall>t\<in>set ts. runs_for P t))
      (collect_M (launch_one st cr context_for) ms \<bind> (\<lambda>tasks. State_Monad.return (Inr tasks)))" for cr ms
    by (rule yields_bind_strong) (auto intro: yields_return)
  then show ?thesis unfolding start_pipelines_def
    by (auto intro!: yields_return yields_bind_ok split: option.split)
qed

lemma retry_original_result:
  "yields (\<lambda>r. \<forall>i task. r = Inr (i, task) \<longrightarrow> row_tenant_slug row = Some slug \<and> (\<exists>p now.
      from_yaml (pv_yaml st) (row_pipeline_definition row) = Inr p \<and>
      launched_as p (retry_context row run_id slug now) (i, task)))
    (retry_original st slug run_id row)"
  unfolding retry_original_def
  by (auto intro!: yields_return yields_bind yields_bind_strong[OF launch_result] split: option.splits sum.split) blast

lemma retry_result:
  "yields (\<lambda>r. \<forall>i task. r = Inr (i, task) \<longrightarrow> (\<exists>row p now. row_tenant_slug row = Some slug \<and>
      from_yaml (pv_yaml st) (row_pipeline_definition row) = Inr p \<and>
      launched_as p (retry_context row run_id slug now) (i, task)))
    (retry_pipeline_run st slug run_id)"
  unfolding retry_pipeline_run_def
  by (intro yields_bind) (auto intro!: yields_return yields_mono[OF retry_original_result] split: option.split sum.split)

section \<open>Handlers\<close>

definition for_tenant :: "tenant_config \<Rightarrow> run_context \<Rightarrow> bool" where
  "for_tenant t rc \<longleftrightarrow> rc_tenant_slug rc = Some (tn_slug t)"

lemma handled_simps [simp]:
  "handled_for P (Inl e)" "handled_for P (Inr (s, [])) " "handled_for P (Inr (s, ts)) \<longleftrightarrow> (\<forall>t\<in>set ts. runs_for P t)"
  by (simp_all add: handled_for_def)

lemma yields_bad_payload: "yields (handled_for P) (bad_payload e)"
  by (simp add: bad_payload_def yields_return)

lemma yields_started:
  assumes "yields (\<lambda>r. \<forall>ts. r = Inr ts \<longrightarrow> (\<forall>t\<in>set ts. runs_for P t)) m"
  shows "yields (handled_for P) (bind_ok m (\<lambda>tasks. State_Monad.return (Inr (200, tasks))))"
  by (rule yields_bind_ok_strong[OF assms]) (simp_all add: yields_return)

lemma push_result: "yields (handled_for (for_tenant t)) (handle_push payload t st)"
proof -
  have "yields (\<lambda>r. \<forall>ts. r = Inr ts \<longrightarrow> (\<forall>k\<in>set ts. runs_for (for_tenant t) k)) (start_push_pipelines a b c d t st)" for a b c d
    unfolding start_push_pipelines_def Let_def case_prod_unfold by (rule start_pipelines_result) (simp add: for_tenant_def)
  then show ?thesis unfolding handle_push_def
    by (auto intro!: yields_bad_payload yields_bind_ok yields_started split: sum.split event_payload.split)
qed

text \<open>A pull request runs the pipelines of its head repository, for the tenant of the base.\<close>

lemma pull_request_result: "yields (handled_for (for_tenant t)) (handle_pull_request payload t st)"
proof -
  have "yields (\<lambda>r. \<forall>ts. r = Inr ts \<longrightarrow> (\<forall>k\<in>set ts. runs_for (for_tenant t) k)) (start_pr_pipelines ev t st)" for ev
    unfolding start_pr_pipelines_def by (rule start_pipelines_result) (simp add: for_tenant_def)
  then show ?thesis unfolding handle_pull_request_def
    by (auto intro!: yields_bad_payload yields_bind_ok yields_started yields_return split: sum.split event_payload.split)
qed

lemma trigger_result: "yields (\<lambda>ts. \<forall>k\<in>set ts. runs_for (for_tenant t) k) (trigger_retry_for_run t st run_id)"
  unfolding trigger_retry_for_run_def
  by (rule yields_bind_strong[OF retry_result])
    (auto intro!: yields_return simp: launched_as_def retry_context_def runs_for_def for_tenant_def Let_def split: sum.splits)

lemma yields_handled:
  "yields (\<lambda>ts. \<forall>k\<in>set ts. runs_for P k) m \<Longrightarrow> yields (handled_for P) (m \<bind> (\<lambda>tasks. State_Monad.return (Inr (200, tasks))))"
  by (erule yields_bind_strong) (simp add: yields_return)

lemma check_run_result: "yields (handled_for (for_tenant t)) (handle_check_run payload t st)"
  unfolding handle_check_run_def
  by (auto intro!: yields_bad_payload yields_handled[OF trigger_result] yields_return split: sum.split event_payload.split option.split)

lemma check_suite_result: "yields (handled_for (for_tenant t)) (handle_check_suite payload t st)"
  unfolding handle_check_suite_def
  by (auto intro!: yields_bad_payload yields_bind_ok yields_bind yields_handled yields_collect_M trigger_result yields_return
      split: sum.split event_payload.split)

lemma or_internal_error_result:
  "yields (handled_for P) m \<Longrightarrow> yields (\<lambda>h. \<forall>t\<in>set (snd h). runs_for P t) (or_internal_error m)"
  unfolding or_internal_error_def
  by (erule yields_bind_strong) (auto intro!: yields_return simp: handled_for_def split: sum.splits)

section \<open>Properties\<close>

text \<open>
  Claim C11. A webhook starts runs only with a valid signature and only for the tenant it belongs to: when
  the answer to a webhook comes with new coordinators, some configured app's secret verifies the
  signature of the body, the body names an organisation, that organisation is registered under
  that app, and every run is recorded for that tenant. A webhook that no app signed is refused
  without any effect, except installation events, which are answered without a check.
\<close>

theorem webhook_runs_authorized:
  assumes "State_Monad.run_state (handle_webhook st headers body) w = ((status, tasks), w')"
  shows "(tasks \<noteq> [] \<longrightarrow> (\<exists>app tenant info. app \<in> set (hm_values (pv_github_apps st)) \<and>
        signature_matches (pv_codec st) body (get_header headers ''X-Hub-Signature-256'') (ga_webhook_secret app) \<and>
        extract_owner_info (pv_codec st) body = Some info \<and> oi_kind info = OwnerOrganization \<and>
        find_by_app_and_org (pv_tenants st) (ga_id app) (oi_login info) = Some tenant \<and>
        (\<forall>task\<in>set tasks. rc_tenant_slug (c_run_context (fst task)) = Some (tn_slug tenant)))) \<and>
    ((\<forall>app\<in>set (hm_values (pv_github_apps st)).
        \<not> signature_matches (pv_codec st) body (get_header headers ''X-Hub-Signature-256'') (ga_webhook_secret app)) \<longrightarrow>
      w' = w \<and> tasks = [] \<and> status = (if get_header headers ''X-GitHub-Event'' = ''installation'' then 200 else 401))"
proof (cases "get_header headers ''X-GitHub-Event'' = ''installation''")
  case True
  with assms show ?thesis by (simp add: handle_webhook_def GITHUB_EVENT_INSTALLATION_def handle_installation_def)
next
  case False
  let ?sig = "\<lambda>app. signature_matches (pv_codec st) body (get_header headers ''X-Hub-Signature-256'') (ga_webhook_secret app)"
  show ?thesis
  proof (cases "identify_signing_app (pv_codec st) (pv_github_apps st) body (get_header headers ''X-Hub-Signature-256'')")
    case None
    with assms False show ?thesis by (simp add: handle_webhook_def GITHUB_EVENT_INSTALLATION_def)
  next
    case (Some app)
    then have app: "app \<in> set (hm_values (pv_github_apps st))" "?sig app"
      by (auto simp: identify_signing_app_def find_Some_iff)
    show ?thesis
    proof (cases "\<exists>info tenant. extract_owner_info (pv_codec st) body = Some info \<and> oi_kind info = OwnerOrganization \<and>
        find_by_app_and_org (pv_tenants st) (ga_id app) (oi_login info) = Some tenant")
      case False
      with assms Some \<open>get_header headers ''X-GitHub-Event'' \<noteq> _\<close> app show ?thesis
        by (auto simp: handle_webhook_def GITHUB_EVENT_INSTALLATION_def Let_def split: option.splits if_splits)
    next
      case True
      then obtain info tenant where t: "extract_owner_info (pv_codec st) body = Some info" "oi_kind info = OwnerOrganization"
          "find_by_app_and_org (pv_tenants st) (ga_id app) (oi_login info) = Some tenant" by blast
      let ?ev = "get_header headers ''X-GitHub-Event''"
      have "yields (\<lambda>h. \<forall>t\<in>set (snd h). runs_for (for_tenant tenant) t) (handle_webhook st headers body)"
        using \<open>?ev \<noteq> _\<close> Some t
        by (simp add: handle_webhook_def GITHUB_EVENT_INSTALLATION_def Let_def or_internal_error_result push_result pull_request_result
            check_run_result check_suite_result yields_return)
      from yieldsD[OF this assms] app t show ?thesis by (auto simp: runs_for_def for_tenant_def)
    qed
  qed
qed

text \<open>
  Claim C18. A retry repeats the run: what it starts has the pipeline of the stored document, the
  repository, commit, branches, tag and pull request of the original, the original as its
  \<open>retry_of\<close>, and the caller's tenant, who owns the original. The run of another tenant is reported
  as unknown and nothing is started.
\<close>

theorem retry_repeats_run:
  assumes "State_Monad.run_state (rh_get_pipeline_run (sv_run_history (pv_services st)) run_id) w = (Inr (Some row), w)"
    and "State_Monad.run_state (retry_run st slug run_id) w = (((status, new_id), tasks), w')"
  shows "(status = 200 \<longrightarrow> (\<exists>c reporter p. tasks = [(c, reporter)] \<and> new_id = Some (c_run_id c) \<and>
        row_tenant_slug row = Some slug \<and> from_yaml (pv_yaml st) (row_pipeline_definition row) = Inr p \<and> c_pipeline c = p \<and>
        rc_pipeline_yaml (c_run_context c) = row_pipeline_definition row \<and>
        rc_owner (c_run_context c) = row_owner row \<and> rc_repo (c_run_context c) = row_repo row \<and>
        rc_sha (c_run_context c) = row_sha row \<and> rc_branch (c_run_context c) = row_branch row \<and>
        rc_target_branch (c_run_context c) = row_target_branch row \<and> rc_tag (c_run_context c) = row_tag row \<and>
        rc_pr_number (c_run_context c) = row_pr_number row \<and> rc_retry_of (c_run_context c) = Some run_id \<and>
        rc_tenant_slug (c_run_context c) = Some slug)) \<and>
    (status \<noteq> 200 \<longrightarrow> tasks = [] \<and> new_id = None) \<and>
    (row_tenant_slug row \<noteq> None \<and> row_tenant_slug row \<noteq> Some slug \<longrightarrow> status = 404 \<and> w' = w)"
proof -
  obtain r where run: "State_Monad.run_state (retry_original st slug run_id row) w = (r, w')"
    and res: "((status, new_id), tasks) = (case r of Inr (i, task) \<Rightarrow> ((200, Some i), [task])
      | Inl UnknownRun \<Rightarrow> ((404, None), []) | Inl (RetryBackend _) \<Rightarrow> ((500, None), []))"
    using assms by (auto simp: retry_run_def retry_pipeline_run_def split: prod.splits)
  have "status = 404 \<and> w' = w" if "row_tenant_slug row \<noteq> None" "row_tenant_slug row \<noteq> Some slug"
    using that run res by (auto simp: retry_original_def split: option.splits)
  moreover have "tasks = [] \<and> new_id = None" if "status \<noteq> 200" using that res by (auto split: sum.splits retry_error.splits)
  moreover have "\<exists>c reporter p. tasks = [(c, reporter)] \<and> new_id = Some (c_run_id c) \<and>
        row_tenant_slug row = Some slug \<and> from_yaml (pv_yaml st) (row_pipeline_definition row) = Inr p \<and> c_pipeline c = p \<and>
        rc_pipeline_yaml (c_run_context c) = row_pipeline_definition row \<and>
        rc_owner (c_run_context c) = row_owner row \<and> rc_repo (c_run_context c) = row_repo row \<and>
        rc_sha (c_run_context c) = row_sha row \<and> rc_branch (c_run_context c) = row_branch row \<and>
        rc_target_branch (c_run_context c) = row_target_branch row \<and> rc_tag (c_run_context c) = row_tag row \<and>
        rc_pr_number (c_run_context c) = row_pr_number row \<and> rc_retry_of (c_run_context c) = Some run_id \<and>
        rc_tenant_slug (c_run_context c) = Some slug" if "status = 200"
  proof -
    from that res obtain i c reporter where r: "r = Inr (i, (c, reporter))" "tasks = [(c, reporter)]" "new_id = Some i"
      by (auto split: sum.splits retry_error.splits)
    with yieldsD[OF retry_original_result run] show ?thesis
      by (auto simp: launched_as_def retry_context_def Let_def)
  qed
  ultimately show ?thesis by blast
qed

section \<open>Witnesses\<close>

text \<open>A provider on the simulated world: one app, one tenant, a repository with one pipeline.\<close>

definition demo_push_pipeline :: pipeline where
  "demo_push_pipeline = demo_pl\<lparr>pl_on := Some \<lparr> push_trigger = Some \<lparr> branches = None, tags = None \<rparr>, pull_request_trigger = None, schedule = None \<rparr>\<rparr>"

definition demo_codec :: webhook_codec where
  "demo_codec =
    \<lparr> wc_event = (\<lambda>_ _. Inr \<lparr> we_specific = PushPayload ''sha'' ''refs/heads/main'',
        we_repository = Some \<lparr> er_owner = Some ''A-1'', er_name = ''repo'' \<rparr> \<rparr>),
      wc_json = (\<lambda>_. Inr (\<lambda>p. if p = ''/organization/login'' then Some ''A-1'' else None)),
      wc_hex_decode = Some, wc_hmac = (\<lambda>secret _. Some secret) \<rparr>"

definition demo_github :: "'w github_client" where
  "demo_github =
    \<lparr> gc_encoding_key = Inr, gc_build_app = (\<lambda>_ _. Inr 1), gc_repository_installation = (\<lambda>_ _ _. State_Monad.return (Inr 7)),
      gc_installation = (\<lambda>_ _. Inr 2),
      gc_get_content = (\<lambda>_ _ _ _ _. State_Monad.return (Inr
        [\<lparr> it_type = ''file'', it_name = ''ci.yml'', it_path = ''p'', it_decoded = Some [] \<rparr>])),
      gc_create_check_run = (\<lambda>_ _ _ _ _ _. State_Monad.return (Inr 9)),
      gc_update_check_run = (\<lambda>_ _ _ _ _ _. State_Monad.return (Inr ())),
      gc_source_manager = (\<lambda>_. url_signer) \<rparr>"

definition demo_provider :: "sim_world provider_state" where
  "demo_provider =
    \<lparr> pv_services = demo_env, pv_tenants = registry_of [demo_tenant],
      pv_github_apps = [(''p'', \<lparr> ga_id = ''p'', ga_app_id = ''12'', ga_webhook_secret = ''s'', ga_private_key = ''k'' \<rparr>)],
      pv_github = demo_github, pv_codec = demo_codec, pv_yaml = (\<lambda>_. Inr demo_push_pipeline), pv_uuid_to_string = (\<lambda>_. ''r'') \<rparr>"

definition demo_headers :: header_map where
  "demo_headers k = (if k = ''X-GitHub-Event'' then Some ''push''
    else if k = ''X-Hub-Signature-256'' then Some ''sha256=s'' else None)"

definition demo_pushed :: "sim_world handled \<times> sim_world" where
  "demo_pushed = State_Monad.run_state (handle_webhook demo_provider demo_headers []) demo_world"

theorem webhook_runs_authorized_witness:
  "\<exists>task. snd (fst demo_pushed) = [task] \<and> rc_tenant_slug (c_run_context (fst task)) = Some ''t''"
proof -
  have len: "length (snd (fst demo_pushed)) = 1" by code_simp
  have "State_Monad.run_state (handle_webhook demo_provider demo_headers []) demo_world =
      ((fst (fst demo_pushed), snd (fst demo_pushed)), snd demo_pushed)" by (simp add: demo_pushed_def)
  note started = conjunct1[OF webhook_runs_authorized[OF this]]
  from len have "snd (fst demo_pushed) \<noteq> []" by auto
  from mp[OF started this] obtain app :: github_app_config and tenant and info :: owner_info where
    found: "find_by_app_and_org (pv_tenants demo_provider) (ga_id app) (oi_login info) = Some tenant"
    and slug: "\<forall>task\<in>set (snd (fst demo_pushed)). rc_tenant_slug (c_run_context (fst task)) = Some (tn_slug tenant)"
    by blast
  have reg: "pv_tenants demo_provider = registry_of [demo_tenant]"
    unfolding demo_provider_def by (simp only: provider_state.select_convs)
  have "t = demo_tenant" if "find_by_app_and_org (registry_of [demo_tenant]) a org = Some t" for a org t
    using that by (auto simp: find_by_app_and_org_def registry_of_def hm_get_def split: if_splits)
  from this[OF found[unfolded reg]] have "tn_slug tenant = ''t''" by (simp only: demo_tenant_def tenant_config.select_convs)
  moreover from len obtain task where "snd (fst demo_pushed) = [task]" by (auto simp: length_Suc_conv)
  ultimately show ?thesis using slug by simp
qed

definition demo_original :: pipeline_run_row where
  "demo_original = (row_of_start 7 None InProgress None demo_start)\<lparr>row_tenant_slug := Some ''t'', row_sha := ''sha''\<rparr>"

definition demo_history :: sim_world where
  "demo_history = demo_world\<lparr>sim_history := demo_db\<lparr>pg_pipeline_runs := [demo_original]\<rparr>\<rparr>"

theorem retry_repeats_run_witness:
  "\<exists>c reporter. snd (fst (State_Monad.run_state (retry_run demo_provider ''t'' ''r'') demo_history)) = [(c, reporter)] \<and>
    rc_sha (c_run_context c) = ''sha'' \<and> rc_retry_of (c_run_context c) = Some ''r''"
proof -
  have get: "State_Monad.run_state (rh_get_pipeline_run (sv_run_history (pv_services demo_provider)) ''r'') demo_history =
      (Inr (Some demo_original), demo_history)"
    by (simp add: demo_provider_def demo_env_def sim_defs pg_get_pipeline_run_def parse_run_id_def query_def demo_history_def
        demo_original_def row_of_start_def)
  obtain status new_id tasks w' where run: "State_Monad.run_state (retry_run demo_provider ''t'' ''r'') demo_history = (((status, new_id), tasks), w')"
    by (metis surj_pair)
  have "fst (fst (fst (State_Monad.run_state (retry_run demo_provider ''t'' ''r'') demo_history))) = 200" by code_simp
  with run retry_repeats_run[OF get run] show ?thesis by (auto simp: demo_original_def)
qed

end
