(* ===== verification/Auth.thy ===== *)
theory Auth
  imports Tenancy "HOL-Library.State_Monad"
begin

text \<open>
  Login and sessions: \<open>src/auth/src/handlers.rs\<close>, \<open>session.rs\<close> and \<open>extractor.rs\<close>. The session
  backend, the OpenID client, base64 and JSON are parameters (records \<open>session_ops\<close> and
  \<open>oidc_client\<close>); a handler is a program on the world they share.
\<close>

section \<open>Data\<close>

datatype session_store_error = InvalidSessionUrl string | SessionPool string

datatype oidc_error = OidcInvalidUrl string | OidcDiscovery string | OidcHttp string

datatype auth_error = OidcSetup oidc_error | SessionSetup session_store_error

record auth_session =
  as_user_id :: string
  as_email :: "string option"
  as_name :: "string option"
  as_authorized_slugs :: "string list"
  as_active_tenant_context :: string

record pre_auth_state =
  pa_csrf :: string
  pa_pkce_verifier :: string
  pa_nonce :: string
  pa_return_to :: "string option"

text \<open>The typed keys \<open>auth\<close> and \<open>pre_auth\<close> of a session.\<close>

record 'w session_ops =
  so_get_auth :: "('w, string + auth_session option) state"
  so_insert_auth :: "auth_session \<Rightarrow> ('w, string + unit) state"
  so_remove_auth :: "('w, string + unit) state"
  so_get_pre_auth :: "('w, string + pre_auth_state option) state"
  so_insert_pre_auth :: "pre_auth_state \<Rightarrow> ('w, string + unit) state"
  so_remove_pre_auth :: "('w, string + unit) state"
  so_flush :: "('w, string + unit) state"

definition load_auth :: "'w session_ops \<Rightarrow> ('w, string + auth_session option) state" where
  "load_auth s = so_get_auth s"

definition store_auth :: "'w session_ops \<Rightarrow> auth_session \<Rightarrow> ('w, string + unit) state" where
  "store_auth s auth = bind_ok (so_insert_auth s auth) (\<lambda>_. State_Monad.return (Inr ()))"

definition clear_auth :: "'w session_ops \<Rightarrow> ('w, string + unit) state" where
  "clear_auth s = bind_ok (so_remove_auth s) (\<lambda>_. State_Monad.return (Inr ()))"

definition load_pre_auth :: "'w session_ops \<Rightarrow> ('w, string + pre_auth_state option) state" where
  "load_pre_auth s = so_get_pre_auth s"

definition store_pre_auth :: "'w session_ops \<Rightarrow> pre_auth_state \<Rightarrow> ('w, string + unit) state" where
  "store_pre_auth s p = bind_ok (so_insert_pre_auth s p) (\<lambda>_. State_Monad.return (Inr ()))"

definition clear_pre_auth :: "'w session_ops \<Rightarrow> ('w, string + unit) state" where
  "clear_pre_auth s = bind_ok (so_remove_pre_auth s) (\<lambda>_. State_Monad.return (Inr ()))"

record id_claims =
  ic_subject :: string
  ic_email :: "string option"
  ic_name :: "string option"

text \<open>
  The payload of a token: the elements of the array \<open>groups\<close>, those that are strings as \<open>Some\<close>,
  and the connector of the federated claims.
\<close>

record token_payload =
  tp_groups :: "string option list option"
  tp_connector_id :: "string option"

text \<open>
  The client: an authorisation URL for scopes and a PKCE challenge, with fresh CSRF token and nonce;
  the token request; the verified claims of an identity token.
\<close>

record 'w oidc_client =
  oc_new_pkce :: "('w, string \<times> string) state"
  oc_authorize_url :: "string list \<Rightarrow> string \<Rightarrow> ('w, string \<times> string \<times> string) state"
  oc_exchange_code :: "string \<Rightarrow> string + string"
  oc_request_token :: "string \<Rightarrow> string \<Rightarrow> ('w, string + string option) state"
  oc_claims :: "string \<Rightarrow> string \<Rightarrow> ('w, string + id_claims) state"
  oc_base64_decode :: "string \<Rightarrow> string option"
  oc_payload_json :: "string \<Rightarrow> token_payload option"
  oc_post_login_redirect :: string

record 'w auth_router_state =
  ar_auth :: "'w oidc_client"
  ar_tenants :: tenant_registry

text \<open>Responses: a status, a redirection, the session as JSON, or an error object.\<close>

datatype auth_response = AuthStatus nat | AuthMessage nat string | RedirectTo string | SessionJson auth_session | ErrorJson nat string

section \<open>Who may act for which tenant\<close>

record oidc_extras =
  ox_groups :: "string list"
  ox_connector_id :: "string option"

definition no_extras :: oidc_extras where
  "no_extras = \<lparr> ox_groups = [], ox_connector_id = None \<rparr>"

definition org_from_group :: "string \<Rightarrow> string" where
  "org_from_group grp = takeWhile (\<lambda>b. b \<noteq> CHR '':'') grp"

fun resolve_groups ::
  "tenant_registry \<Rightarrow> string \<Rightarrow> string list \<Rightarrow> string hashset \<Rightarrow> string list \<Rightarrow> string list" where
  "resolve_groups tenants connector_id authorized seen [] = authorized"
| "resolve_groups tenants connector_id authorized seen (grp # grps) =
    (case find_for_connector_and_org tenants connector_id (org_from_group grp) of
       None \<Rightarrow> resolve_groups tenants connector_id authorized seen grps
     | Some t \<Rightarrow>
        if tn_slug t \<in> set seen then resolve_groups tenants connector_id authorized seen grps
        else resolve_groups tenants connector_id (authorized @ [tn_slug t]) (tn_slug t # seen) grps)"

definition resolve_authorized_slugs :: "oidc_extras \<Rightarrow> tenant_registry \<Rightarrow> string list" where
  "resolve_authorized_slugs extras tenants =
    (case ox_connector_id extras of
       None \<Rightarrow> []
     | Some connector_id \<Rightarrow> resolve_groups tenants connector_id [] [] (ox_groups extras))"

definition extract_oidc_extras :: "'w oidc_client \<Rightarrow> string \<Rightarrow> oidc_extras" where
  "extract_oidc_extras oc jwt =
    (case split_on CHR ''.'' jwt of
       _ # payload_b64 # _ \<Rightarrow>
        (case oc_base64_decode oc payload_b64 of
           None \<Rightarrow> no_extras
         | Some payload_bytes \<Rightarrow>
            (case oc_payload_json oc payload_bytes of
               None \<Rightarrow> no_extras
             | Some payload \<Rightarrow>
                \<lparr> ox_groups = (case tp_groups payload of None \<Rightarrow> [] | Some arr \<Rightarrow> List.map_filter id arr),
                  ox_connector_id = tp_connector_id payload \<rparr>))
     | _ \<Rightarrow> no_extras)"

section \<open>Handlers\<close>

definition LOGIN_SCOPES :: "string list" where
  "LOGIN_SCOPES = [''openid'', ''profile'', ''email'', ''groups'', ''federated:id'']"

definition local_return :: "string option \<Rightarrow> string option" where
  "local_return r = (case r of Some s \<Rightarrow> if starts_with s ''/'' then Some s else None | None \<Rightarrow> None)"

definition login :: "'w auth_router_state \<Rightarrow> 'w session_ops \<Rightarrow> string option \<Rightarrow> ('w, auth_response) state" where
  "login st session return_to = do {
    (pkce_challenge, pkce_verifier) \<leftarrow> oc_new_pkce (ar_auth st);
    (auth_url, csrf_token, nonce) \<leftarrow> oc_authorize_url (ar_auth st) LOGIN_SCOPES pkce_challenge;
    r \<leftarrow> store_pre_auth session \<lparr> pa_csrf = csrf_token, pa_pkce_verifier = pkce_verifier, pa_nonce = nonce,
      pa_return_to = local_return return_to \<rparr>;
    State_Monad.return (case r of Inl _ \<Rightarrow> AuthStatus 500 | Inr _ \<Rightarrow> RedirectTo auth_url)
  }"

record callback_params =
  cp_code :: "string option"
  cp_state :: "string option"
  cp_error :: "string option"

text \<open>After the CSRF check: the token, its claims, the tenants, and the new session.\<close>

definition establish_session ::
  "'w auth_router_state \<Rightarrow> 'w session_ops \<Rightarrow> pre_auth_state \<Rightarrow> string \<Rightarrow> id_claims \<Rightarrow> ('w, auth_response) state" where
  "establish_session st session pre_auth id_token claims =
    (let slugs = resolve_authorized_slugs (extract_oidc_extras (ar_auth st) id_token) (ar_tenants st) in
     (case slugs of
        [] \<Rightarrow> do {
          _ \<leftarrow> clear_pre_auth session;
          State_Monad.return (ErrorJson 403 ''no_authorized_tenants'')
        }
      | first # _ \<Rightarrow> do {
          r \<leftarrow> store_auth session \<lparr> as_user_id = ic_subject claims, as_email = ic_email claims, as_name = ic_name claims,
            as_authorized_slugs = slugs, as_active_tenant_context = first \<rparr>;
          (case r of
             Inl _ \<Rightarrow> State_Monad.return (AuthStatus 500)
           | Inr _ \<Rightarrow> do {
               _ \<leftarrow> clear_pre_auth session;
               State_Monad.return (RedirectTo (case pa_return_to pre_auth of
                   Some target \<Rightarrow> target | None \<Rightarrow> oc_post_login_redirect (ar_auth st)))
             })
        }))"

definition exchange_and_verify ::
  "'w auth_router_state \<Rightarrow> 'w session_ops \<Rightarrow> pre_auth_state \<Rightarrow> string \<Rightarrow> ('w, auth_response) state" where
  "exchange_and_verify st session pre_auth code =
    (case oc_exchange_code (ar_auth st) code of
       Inl _ \<Rightarrow> State_Monad.return (AuthStatus 500)
     | Inr request \<Rightarrow> do {
         token_response \<leftarrow> oc_request_token (ar_auth st) request (pa_pkce_verifier pre_auth);
         (case token_response of
            Inl _ \<Rightarrow> State_Monad.return (AuthStatus 401)
          | Inr None \<Rightarrow> State_Monad.return (AuthStatus 401)
          | Inr (Some id_token) \<Rightarrow> do {
              r \<leftarrow> oc_claims (ar_auth st) id_token (pa_nonce pre_auth);
              (case r of
                 Inl _ \<Rightarrow> State_Monad.return (AuthStatus 401)
               | Inr claims \<Rightarrow> establish_session st session pre_auth id_token claims)
            })
       })"

definition callback :: "'w auth_router_state \<Rightarrow> 'w session_ops \<Rightarrow> callback_params \<Rightarrow> ('w, auth_response) state" where
  "callback st session params =
    (if cp_error params \<noteq> None then State_Monad.return (AuthMessage 401 ''OIDC error'')
     else (case (cp_code params, cp_state params) of
         (Some code, Some state_param) \<Rightarrow> do {
           loaded \<leftarrow> load_pre_auth session;
           (case loaded of
              Inl _ \<Rightarrow> State_Monad.return (AuthStatus 500)
            | Inr None \<Rightarrow> State_Monad.return (AuthMessage 400 ''Missing pre-auth state'')
            | Inr (Some pre_auth) \<Rightarrow>
                if pa_csrf pre_auth \<noteq> state_param then State_Monad.return (AuthMessage 401 ''CSRF mismatch'')
                else exchange_and_verify st session pre_auth code)
         }
       | _ \<Rightarrow> State_Monad.return (AuthMessage 400 ''Missing code or state'')))"

definition logout :: "'w session_ops \<Rightarrow> ('w, auth_response) state" where
  "logout session = do {
    r \<leftarrow> clear_auth session;
    (case r of
       Inl _ \<Rightarrow> State_Monad.return (AuthStatus 500)
     | Inr _ \<Rightarrow> do { _ \<leftarrow> so_flush session; State_Monad.return (AuthStatus 204) })
  }"

definition me :: "'w session_ops \<Rightarrow> ('w, auth_response) state" where
  "me session = do {
    r \<leftarrow> load_auth session;
    State_Monad.return (case r of
        Inr (Some auth) \<Rightarrow> SessionJson auth
      | Inr None \<Rightarrow> AuthStatus 401
      | Inl _ \<Rightarrow> AuthStatus 500)
  }"

definition active_tenant :: "'w session_ops \<Rightarrow> string \<Rightarrow> ('w, auth_response) state" where
  "active_tenant session slug = do {
    r \<leftarrow> load_auth session;
    (case r of
       Inl _ \<Rightarrow> State_Monad.return (AuthStatus 500)
     | Inr None \<Rightarrow> State_Monad.return (AuthStatus 401)
     | Inr (Some auth) \<Rightarrow>
        if \<not> list_ex (\<lambda>s. s = slug) (as_authorized_slugs auth) then State_Monad.return (AuthStatus 403)
        else do {
          w \<leftarrow> store_auth session (auth\<lparr>as_active_tenant_context := slug\<rparr>);
          State_Monad.return (case w of Inl _ \<Rightarrow> AuthStatus 500 | Inr _ \<Rightarrow> AuthStatus 204)
        })
  }"

section \<open>The extractor of protected routes\<close>

text \<open>\<open>AuthorizedTenant::from_request_parts\<close>: the path parameters, and the session if the request has one.\<close>

definition authorized_tenant ::
  "(string, string) hashmap option \<Rightarrow> 'w session_ops option \<Rightarrow> ('w, nat + string \<times> auth_session) state" where
  "authorized_tenant path_params session =
    (case path_params of
       None \<Rightarrow> State_Monad.return (Inl 400)
     | Some params \<Rightarrow>
        (case hm_get params ''slug'' of
           None \<Rightarrow> State_Monad.return (Inl 400)
         | Some slug \<Rightarrow>
            (case session of
               None \<Rightarrow> State_Monad.return (Inl 500)
             | Some s \<Rightarrow> do {
                 r \<leftarrow> load_auth s;
                 State_Monad.return (case r of
                     Inl _ \<Rightarrow> Inl 500
                   | Inr None \<Rightarrow> Inl 401
                   | Inr (Some auth) \<Rightarrow>
                      if list_ex (\<lambda>s. s = slug) (as_authorized_slugs auth) then Inr (slug, auth) else Inl 403)
               })))"

section \<open>The slugs of a user\<close>

lemma resolve_groups_props:
  "set authorized = set seen \<Longrightarrow> distinct authorized \<Longrightarrow>
    distinct (resolve_groups tenants c authorized seen gs) \<and>
    set (resolve_groups tenants c authorized seen gs) = set authorized \<union>
      {tn_slug t | t g. g \<in> set gs \<and> find_for_connector_and_org tenants c (org_from_group g) = Some t}"
proof (induction tenants c authorized seen gs rule: resolve_groups.induct)
  case (2 tenants c authorized seen g gs)
  show ?case
  proof (cases "find_for_connector_and_org tenants c (org_from_group g)")
    case None
    with 2 show ?thesis by auto
  next
    case (Some t)
    with 2 show ?thesis by (cases "tn_slug t \<in> set seen") auto
  qed
qed simp

text \<open>
  Claim C23. A login authorises exactly the tenants of the user's organisations: for the tenants of a loaded
  document, a slug is granted if and only if some tenant with that slug lists the user's
  connector and its organisation is that of one of the user's groups; without a connector no
  slug is granted, and none is granted twice.
\<close>

theorem authorized_slugs_exact:
  assumes "from_document d = Inr reg"
  shows "distinct (resolve_authorized_slugs extras (ty_tenants reg)) \<and>
    (\<forall>slug. slug \<in> set (resolve_authorized_slugs extras (ty_tenants reg)) \<longleftrightarrow>
      (\<exists>t c g. t \<in> set (td_tenants d) \<and> tn_slug t = slug \<and> ox_connector_id extras = Some c \<and> g \<in> set (ox_groups extras) \<and>
        c \<in> set (tn_connector_ids t) \<and> tn_org t = org_from_group g))"
proof (cases "ox_connector_id extras")
  case None
  then show ?thesis by (simp add: resolve_authorized_slugs_def)
next
  case (Some c)
  with resolve_groups_props[of "[]" "[]" "ty_tenants reg" c "ox_groups extras"] show ?thesis
    by (auto simp: resolve_authorized_slugs_def registry_lookups(3)[OF assms])
qed

section \<open>Sessions\<close>

text \<open>
  The contract of the session backend: what is read is what was stored, a failed write changes
  nothing, and the OpenID client does not touch the session.
\<close>

type_synonym session_view = "auth_session option \<times> pre_auth_state option"

text \<open>
  A session that was granted: the identity token was verified against a nonce, the session belongs
  to its subject, and the slugs are those that the token's organisations allow.
\<close>

definition granted :: "'w auth_router_state \<Rightarrow> auth_session \<Rightarrow> bool" where
  "granted st a \<longleftrightarrow> as_active_tenant_context a \<in> set (as_authorized_slugs a) \<and>
    (\<exists>id_token nonce claims w w'. State_Monad.run_state (oc_claims (ar_auth st) id_token nonce) w = (Inr claims, w') \<and>
      as_user_id a = ic_subject claims \<and>
      as_authorized_slugs a = resolve_authorized_slugs (extract_oidc_extras (ar_auth st) id_token) (ar_tenants st))"

definition logs_in :: "'w auth_router_state \<Rightarrow> callback_params \<Rightarrow> session_view \<Rightarrow> auth_session \<Rightarrow> bool" where
  "logs_in st params v a \<longleftrightarrow> granted st a \<and> cp_error params = None \<and> cp_code params \<noteq> None \<and>
    (\<exists>pre. snd v = Some pre \<and> cp_state params = Some (pa_csrf pre))"

locale session_services =
  fixes st :: "'w auth_router_state" and session :: "'w session_ops" and view :: "'w \<Rightarrow> session_view"
  assumes get_auth_law: "State_Monad.run_state (so_get_auth session) w = (ra, w') \<Longrightarrow>
      view w' = view w \<and> (\<forall>a. ra = Inr a \<longrightarrow> a = fst (view w))"
    and get_pre_law: "State_Monad.run_state (so_get_pre_auth session) w = (rp, w') \<Longrightarrow>
      view w' = view w \<and> (\<forall>a. rp = Inr a \<longrightarrow> a = snd (view w))"
    and insert_auth_law: "State_Monad.run_state (so_insert_auth session a) w = (r, w') \<Longrightarrow>
      view w' = (case r of Inr _ \<Rightarrow> (Some a, snd (view w)) | Inl _ \<Rightarrow> view w)"
    and insert_pre_law: "State_Monad.run_state (so_insert_pre_auth session p) w = (r, w') \<Longrightarrow>
      view w' = (case r of Inr _ \<Rightarrow> (fst (view w), Some p) | Inl _ \<Rightarrow> view w)"
    and remove_auth_law: "State_Monad.run_state (so_remove_auth session) w = (r, w') \<Longrightarrow>
      view w' = (case r of Inr _ \<Rightarrow> (None, snd (view w)) | Inl _ \<Rightarrow> view w)"
    and remove_pre_law: "State_Monad.run_state (so_remove_pre_auth session) w = (r, w') \<Longrightarrow>
      view w' = (case r of Inr _ \<Rightarrow> (fst (view w), None) | Inl _ \<Rightarrow> view w)"
    and flush_law: "State_Monad.run_state (so_flush session) w = (r, w') \<Longrightarrow>
      view w' = (case r of Inr _ \<Rightarrow> (None, None) | Inl _ \<Rightarrow> view w)"
    and pkce_law: "State_Monad.run_state (oc_new_pkce (ar_auth st)) w = (rk, w') \<Longrightarrow> view w' = view w"
    and url_law: "State_Monad.run_state (oc_authorize_url (ar_auth st) scopes ch) w = (ru, w') \<Longrightarrow> view w' = view w"
    and token_law: "State_Monad.run_state (oc_request_token (ar_auth st) request verifier) w = (rt, w') \<Longrightarrow> view w' = view w"
    and claims_law: "State_Monad.run_state (oc_claims (ar_auth st) id_token nonce) w = (rc, w') \<Longrightarrow> view w' = view w"
begin

lemma store_auth_view:
  "State_Monad.run_state (store_auth session a) w = (r, w') \<Longrightarrow> view w' = (case r of Inr _ \<Rightarrow> (Some a, snd (view w)) | Inl _ \<Rightarrow> view w)"
  by (auto simp: store_auth_def split: prod.splits sum.splits dest!: insert_auth_law)

lemma store_pre_view:
  "State_Monad.run_state (store_pre_auth session p) w = (r, w') \<Longrightarrow> fst (view w') = fst (view w)"
  by (auto simp: store_pre_auth_def split: prod.splits sum.splits dest!: insert_pre_law)

lemma clear_pre_view:
  "State_Monad.run_state (clear_pre_auth session) w = (r, w') \<Longrightarrow> fst (view w') = fst (view w)"
  by (auto simp: clear_pre_auth_def split: prod.splits sum.splits dest!: remove_pre_law)

lemma login_view: "State_Monad.run_state (login st session return_to) w = (r, w') \<Longrightarrow> fst (view w') = fst (view w)"
  by (auto simp: login_def split: prod.splits dest!: pkce_law url_law store_pre_view)

lemma establish_view:
  assumes "State_Monad.run_state (establish_session st session pre id_token claims) w = (r, w')"
    and "State_Monad.run_state (oc_claims (ar_auth st) id_token nonce) u = (Inr claims, u')"
  shows "fst (view w') = fst (view w) \<or> (\<exists>a. fst (view w') = Some a \<and> granted st a)"
proof (cases "resolve_authorized_slugs (extract_oidc_extras (ar_auth st) id_token) (ar_tenants st)")
  case Nil
  with assms(1) show ?thesis by (auto simp: establish_session_def split: prod.splits dest!: clear_pre_view)
next
  case (Cons slug slugs)
  let ?a = "\<lparr> as_user_id = ic_subject claims, as_email = ic_email claims, as_name = ic_name claims,
      as_authorized_slugs = slug # slugs, as_active_tenant_context = slug \<rparr>"
  have "granted st ?a" unfolding granted_def
    by (intro conjI exI[of _ id_token] exI[of _ nonce] exI[of _ claims] exI[of _ u] exI[of _ u']) (use assms(2) Cons in simp_all)
  moreover obtain r1 w1 where 1: "State_Monad.run_state (store_auth session ?a) w = (r1, w1)" by force
  ultimately show ?thesis
    using assms(1) Cons store_auth_view[OF 1]
    by (auto simp: establish_session_def split: prod.splits sum.splits dest!: clear_pre_view)
qed

lemma exchange_view:
  assumes "State_Monad.run_state (exchange_and_verify st session pre code) w = (r, w')"
  shows "fst (view w') = fst (view w) \<or> (\<exists>a. fst (view w') = Some a \<and> granted st a)"
proof (cases "oc_exchange_code (ar_auth st) code")
  case (Inl e)
  with assms show ?thesis by (simp add: exchange_and_verify_def)
next
  case (Inr request)
  obtain rt w1 where 1: "State_Monad.run_state (oc_request_token (ar_auth st) request (pa_pkce_verifier pre)) w = (rt, w1)" by force
  note v1 = token_law[OF 1]
  show ?thesis
  proof (cases "\<exists>id_token. rt = Inr (Some id_token)")
    case False
    with assms Inr 1 v1 show ?thesis by (auto simp: exchange_and_verify_def split: sum.splits option.splits)
  next
    case True
    then obtain id_token where t: "rt = Inr (Some id_token)" by blast
    obtain rc w2 where 2: "State_Monad.run_state (oc_claims (ar_auth st) id_token (pa_nonce pre)) w1 = (rc, w2)" by force
    note v2 = claims_law[OF 2]
    show ?thesis
    proof (cases rc)
      case (Inl e)
      with assms Inr 1 t 2 v1 v2 show ?thesis by (simp add: exchange_and_verify_def)
    next
      case (Inr claims)
      with assms \<open>oc_exchange_code _ _ = _\<close> 1 t 2 have "State_Monad.run_state (establish_session st session pre id_token claims) w2 = (r, w')"
        by (simp add: exchange_and_verify_def)
      from establish_view[OF this] 2 Inr v1 v2 show ?thesis by simp
    qed
  qed
qed

lemma callback_view:
  assumes "State_Monad.run_state (callback st session params) w = (r, w')"
  shows "fst (view w') = fst (view w) \<or> (\<exists>a. fst (view w') = Some a \<and> logs_in st params (view w) a)"
proof (cases "cp_error params = None \<and> (\<exists>code s. cp_code params = Some code \<and> cp_state params = Some s)")
  case False
  with assms show ?thesis by (auto simp: callback_def split: option.splits if_splits)
next
  case True
  then obtain code s where p: "cp_error params = None" "cp_code params = Some code" "cp_state params = Some s" by blast
  obtain rl w1 where 1: "State_Monad.run_state (load_pre_auth session) w = (rl, w1)" by force
  from get_pre_law[OF 1[unfolded load_pre_auth_def]] have v1: "view w1 = view w" "\<And>a. rl = Inr a \<Longrightarrow> a = snd (view w)" by auto
  show ?thesis
  proof (cases "\<exists>pre. rl = Inr (Some pre) \<and> pa_csrf pre = s")
    case False
    with assms p 1 have "w' = w1"
      by (auto simp: callback_def split: sum.splits option.splits if_splits)
    with v1(1) show ?thesis by simp
  next
    case True
    then obtain pre where pre: "rl = Inr (Some pre)" "pa_csrf pre = s" by blast
    with assms p 1 have run: "State_Monad.run_state (exchange_and_verify st session pre code) w1 = (r, w')"
      by (simp add: callback_def)
    have "snd (view w) = Some pre" using v1(2)[OF pre(1)] by simp
    with exchange_view[OF run] pre(2) p v1(1) show ?thesis by (auto simp: logs_in_def)
  qed
qed

lemma logout_view:
  "State_Monad.run_state (logout session) w = (r, w') \<Longrightarrow> fst (view w') = fst (view w) \<or> fst (view w') = None"
  by (auto simp: logout_def clear_auth_def split: prod.splits sum.splits dest!: remove_auth_law flush_law)

lemma me_view: "State_Monad.run_state (me session) w = (r, w') \<Longrightarrow> view w' = view w"
  by (auto simp: me_def load_auth_def split: prod.splits dest!: get_auth_law)

lemma active_tenant_view:
  assumes "State_Monad.run_state (active_tenant session slug) w = (r, w')"
  shows "fst (view w') = fst (view w) \<or>
    (\<exists>a. fst (view w) = Some a \<and> slug \<in> set (as_authorized_slugs a) \<and>
      fst (view w') = Some (a\<lparr>as_active_tenant_context := slug\<rparr>))"
proof -
  obtain rl w1 where 1: "State_Monad.run_state (load_auth session) w = (rl, w1)" by force
  from get_auth_law[OF 1[unfolded load_auth_def]] have v1: "view w1 = view w" "\<And>a. rl = Inr a \<Longrightarrow> a = fst (view w)" by auto
  show ?thesis
  proof (cases "\<exists>a. rl = Inr (Some a) \<and> slug \<in> set (as_authorized_slugs a)")
    case False
    with assms 1 have "w' = w1"
      by (auto simp: active_tenant_def list_ex_iff split: sum.splits option.splits if_splits)
    with v1(1) show ?thesis by simp
  next
    case True
    then obtain a where a: "rl = Inr (Some a)" "slug \<in> set (as_authorized_slugs a)" by blast
    have own: "fst (view w) = Some a" using v1(2)[OF a(1)] by simp
    obtain r2 w2 where 2: "State_Monad.run_state (store_auth session (a\<lparr>as_active_tenant_context := slug\<rparr>)) w1 = (r2, w2)" by force
    from assms 1 a 2 have "w' = w2" by (simp add: active_tenant_def list_ex_iff)
    with store_auth_view[OF 2] v1(1) own a(2) show ?thesis by (auto split: sum.splits)
  qed
qed

lemma authorized_tenant_view:
  assumes "State_Monad.run_state (authorized_tenant params (Some session)) w = (Inr (slug, a), w')"
  shows "\<exists>p. params = Some p \<and> hm_get p ''slug'' = Some slug" "fst (view w) = Some a"
    "slug \<in> set (as_authorized_slugs a)" "view w' = view w"
proof -
  obtain rl w1 where 1: "State_Monad.run_state (load_auth session) w = (rl, w1)" by force
  from get_auth_law[OF 1[unfolded load_auth_def]] have v1: "view w1 = view w" "\<And>a. rl = Inr a \<Longrightarrow> a = fst (view w)" by auto
  from assms 1 have *: "(\<exists>p. params = Some p \<and> hm_get p ''slug'' = Some slug) \<and> rl = Inr (Some a) \<and>
      slug \<in> set (as_authorized_slugs a) \<and> w' = w1"
    by (auto simp: authorized_tenant_def list_ex_iff split: option.splits sum.splits if_splits)
  then show "\<exists>p. params = Some p \<and> hm_get p ''slug'' = Some slug" "slug \<in> set (as_authorized_slugs a)" "view w' = view w"
    using v1(1) by simp_all
  show "fst (view w) = Some a" using * v1(2)[of "Some a"] by simp
qed

end

lemma granted_active:
  "granted st a \<Longrightarrow> slug \<in> set (as_authorized_slugs a) \<Longrightarrow> granted st (a\<lparr>as_active_tenant_context := slug\<rparr>)"
  by (auto simp: granted_def)

text \<open>The requests of one browser, and the expiry of its session.\<close>

inductive session_step :: "'w auth_router_state \<Rightarrow> 'w session_ops \<Rightarrow> 'w \<Rightarrow> 'w \<Rightarrow> bool"
  for st :: "'w auth_router_state" and session :: "'w session_ops" where
  login_step: "State_Monad.run_state (login st session return_to) w = (r, w') \<Longrightarrow> session_step st session w w'"
| callback_step: "State_Monad.run_state (callback st session params) w = (r, w') \<Longrightarrow> session_step st session w w'"
| logout_step: "State_Monad.run_state (logout session) w = (r, w') \<Longrightarrow> session_step st session w w'"
| me_step: "State_Monad.run_state (me session) w = (r, w') \<Longrightarrow> session_step st session w w'"
| active_tenant_step: "State_Monad.run_state (active_tenant session slug) w = (r, w') \<Longrightarrow> session_step st session w w'"
| protected_step: "State_Monad.run_state (authorized_tenant path (Some session)) w = (ra, w') \<Longrightarrow> session_step st session w w'"
| expiry_step: "State_Monad.run_state (so_flush session) w = (rf, w') \<Longrightarrow> session_step st session w w'"

context session_services begin

lemma extractor_view: "State_Monad.run_state (authorized_tenant path (Some session)) w = (ra, w') \<Longrightarrow> view w' = view w"
  by (auto simp: authorized_tenant_def load_auth_def split: prod.splits option.splits dest!: get_auth_law)

lemma step_granted:
  assumes "session_step st session w w'" "\<And>a. fst (view w) = Some a \<Longrightarrow> granted st a" "fst (view w') = Some a'"
  shows "granted st a'"
  using assms(1)
proof cases
  case (callback_step params r)
  from callback_view[OF this] assms(2,3) show ?thesis by (auto simp: logs_in_def)
next
  case (active_tenant_step slug r)
  from active_tenant_view[OF this] assms(2,3) show ?thesis by (auto intro: granted_active)
next
  case (logout_step r)
  from logout_view[OF this] assms(2,3) show ?thesis by auto
next
  case (expiry_step r)
  from flush_law[OF this] assms(2,3) show ?thesis by (auto split: sum.splits)
qed (use assms(2,3) in \<open>auto dest!: login_view me_view extractor_view\<close>)

lemma reachable_granted:
  "(session_step st session)\<^sup>*\<^sup>* w w' \<Longrightarrow> fst (view w) = None \<Longrightarrow> fst (view w') = Some a \<Longrightarrow> granted st a"
proof (induction arbitrary: a rule: rtranclp_induct)
  case (step y z)
  from step.IH[OF step.prems(1)] show ?case by (rule step_granted[OF step.hyps(2) _ step.prems(2)])
qed simp

end

text \<open>
  Claim C13. Access to a tenant's routes comes from a verified identity: in whatever order a browser that
  starts without a session logs in, returns from the identity provider, switches tenants, logs
  out or lets its session expire, whenever the extractor of the protected routes lets a request through, the slug is
  the one in the request's path, and the session was granted by an identity token verified
  against a nonce, for whose organisations the slug is among those resolved.
\<close>

theorem sessions_stay_authorized:
  assumes "session_services st session view" and "fst (view w0) = None"
    and "(session_step st session)\<^sup>*\<^sup>* w0 w"
    and "State_Monad.run_state (authorized_tenant (Some params) (Some session)) w = (Inr (slug, a), w')"
  shows "hm_get params ''slug'' = Some slug \<and>
    (\<exists>id_token nonce claims u u'. State_Monad.run_state (oc_claims (ar_auth st) id_token nonce) u = (Inr claims, u') \<and>
      as_user_id a = ic_subject claims \<and>
      slug \<in> set (resolve_authorized_slugs (extract_oidc_extras (ar_auth st) id_token) (ar_tenants st)))"
  using session_services.authorized_tenant_view[OF assms(1,4)]
    session_services.reachable_granted[OF assms(1,3,2)]
  by (force simp: granted_def)

section \<open>A browser in memory\<close>

text \<open>
  A session store that never fails, with an identity provider that issues numbered tokens: one browser, whose user belongs
  to the group \<open>A-1:dev\<close> of the demonstration tenant.
\<close>

record memory_browser =
  mb_auth :: "auth_session option"
  mb_pre_auth :: "pre_auth_state option"
  mb_fresh :: nat

definition memory_session :: "memory_browser session_ops" where
  "memory_session = \<lparr>
    so_get_auth = State (\<lambda>w. (Inr (mb_auth w), w)),
    so_insert_auth = (\<lambda>a. State (\<lambda>w. (Inr (), w\<lparr>mb_auth := Some a\<rparr>))),
    so_remove_auth = State (\<lambda>w. (Inr (), w\<lparr>mb_auth := None\<rparr>)),
    so_get_pre_auth = State (\<lambda>w. (Inr (mb_pre_auth w), w)),
    so_insert_pre_auth = (\<lambda>p. State (\<lambda>w. (Inr (), w\<lparr>mb_pre_auth := Some p\<rparr>))),
    so_remove_pre_auth = State (\<lambda>w. (Inr (), w\<lparr>mb_pre_auth := None\<rparr>)),
    so_flush = State (\<lambda>w. (Inr (), w\<lparr>mb_auth := None, mb_pre_auth := None\<rparr>)) \<rparr>"

definition token_number :: "string \<Rightarrow> nat \<Rightarrow> string" where
  "token_number pre n = pre @ replicate n CHR ''i''"

definition memory_oidc :: "memory_browser oidc_client" where
  "memory_oidc = \<lparr>
    oc_new_pkce = State (\<lambda>w. ((token_number ''ch'' (mb_fresh w), token_number ''v'' (mb_fresh w)), w\<lparr>mb_fresh := mb_fresh w + 1\<rparr>)),
    oc_authorize_url = (\<lambda>scopes ch. State (\<lambda>w.
      ((''https://dex/auth?'' @ ch, token_number ''csrf'' (mb_fresh w), token_number ''n'' (mb_fresh w)), w\<lparr>mb_fresh := mb_fresh w + 1\<rparr>))),
    oc_exchange_code = (\<lambda>code. if code = [] then Inl ''no code'' else Inr code),
    oc_request_token = (\<lambda>request verifier. State (\<lambda>w. (Inr (Some ''h.p.s''), w))),
    oc_claims = (\<lambda>id_token nonce. State (\<lambda>w.
      (if id_token = ''h.p.s'' then Inr \<lparr> ic_subject = ''alice'', ic_email = None, ic_name = None \<rparr> else Inl ''bad token'', w))),
    oc_base64_decode = Some,
    oc_payload_json = (\<lambda>p. if p = ''p'' then Some \<lparr> tp_groups = Some [Some ''A-1:dev'', None], tp_connector_id = Some ''g'' \<rparr> else None),
    oc_post_login_redirect = ''/home'' \<rparr>"

definition demo_router_state :: "memory_browser auth_router_state" where
  "demo_router_state = \<lparr> ar_auth = memory_oidc, ar_tenants = registry_of [demo_tenant] \<rparr>"

definition browser_view :: "memory_browser \<Rightarrow> session_view" where
  "browser_view w = (mb_auth w, mb_pre_auth w)"

interpretation browser: session_services demo_router_state memory_session browser_view
  by unfold_locales
    (auto simp: demo_router_state_def memory_session_def memory_oidc_def browser_view_def split: if_splits)

definition new_browser :: memory_browser where
  "new_browser = \<lparr> mb_auth = None, mb_pre_auth = None, mb_fresh = 0 \<rparr>"

definition demo_callback :: callback_params where
  "demo_callback = \<lparr> cp_code = Some ''c'', cp_state = Some ''csrfi'', cp_error = None \<rparr>"

definition browser_at_provider :: memory_browser where
  "browser_at_provider = snd (State_Monad.run_state (login demo_router_state memory_session (Some ''//evil'')) new_browser)"

definition browser_logged_in :: memory_browser where
  "browser_logged_in = snd (State_Monad.run_state (callback demo_router_state memory_session demo_callback) browser_at_provider)"

definition demo_session :: auth_session where
  "demo_session = \<lparr> as_user_id = ''alice'', as_email = None, as_name = None, as_authorized_slugs = [''t''],
    as_active_tenant_context = ''t'' \<rparr>"

lemma demo_login:
  "(session_step demo_router_state memory_session)\<^sup>*\<^sup>* new_browser browser_logged_in"
proof -
  have "session_step demo_router_state memory_session new_browser browser_at_provider"
    unfolding browser_at_provider_def by (rule session_step.login_step[OF prod.collapse[symmetric]])
  moreover have "session_step demo_router_state memory_session browser_at_provider browser_logged_in"
    unfolding browser_logged_in_def by (rule session_step.callback_step[OF prod.collapse[symmetric]])
  ultimately show ?thesis by (meson converse_rtranclp_into_rtranclp rtranclp.rtrancl_refl)
qed

theorem sessions_stay_authorized_witness:
  "''t'' \<in> set (resolve_authorized_slugs (extract_oidc_extras memory_oidc ''h.p.s'') (registry_of [demo_tenant]))"
proof -
  have "fst (browser_view new_browser) = None" by (simp add: browser_view_def new_browser_def)
  moreover have "State_Monad.run_state (authorized_tenant (Some [(''slug'', ''t'')]) (Some memory_session)) browser_logged_in =
      (Inr (''t'', demo_session), browser_logged_in)"
    by code_simp
  ultimately obtain id_token nonce claims u u' where
    "State_Monad.run_state (oc_claims (ar_auth demo_router_state) id_token nonce) u = (Inr claims, u')"
    "''t'' \<in> set (resolve_authorized_slugs (extract_oidc_extras (ar_auth demo_router_state) id_token) (ar_tenants demo_router_state))"
    using sessions_stay_authorized[OF browser.session_services_axioms _ demo_login] by blast
  then show ?thesis by (simp add: demo_router_state_def memory_oidc_def split: if_splits)
qed

theorem authorized_slugs_exact_witness:
  "\<exists>reg. from_document demo_document = Inr reg \<and>
    ''t'' \<in> set (resolve_authorized_slugs \<lparr> ox_groups = [''A-1:dev''], ox_connector_id = Some ''g'' \<rparr> (ty_tenants reg))"
proof -
  have "\<not> isl (from_document demo_document)" by code_simp
  then obtain reg where reg: "from_document demo_document = Inr reg" by (cases "from_document demo_document") auto
  have "org_from_group ''A-1:dev'' = ''A-1''" by (simp add: org_from_group_def)
  then have "\<exists>t c g. t \<in> set (td_tenants demo_document) \<and> tn_slug t = ''t'' \<and>
      ox_connector_id \<lparr> ox_groups = [''A-1:dev''], ox_connector_id = Some ''g'' \<rparr> = Some c \<and>
      g \<in> set (ox_groups \<lparr> ox_groups = [''A-1:dev''], ox_connector_id = Some ''g'' \<rparr>) \<and>
      c \<in> set (tn_connector_ids t) \<and> tn_org t = org_from_group g"
    by (intro exI[of _ demo_tenant] exI[of _ "''g''"] exI[of _ "''A-1:dev''"])
      (simp add: demo_document_def demo_tenant_def tn_org_def)
  then have "''t'' \<in> set (resolve_authorized_slugs \<lparr> ox_groups = [''A-1:dev''], ox_connector_id = Some ''g'' \<rparr> (ty_tenants reg))"
    by (rule iffD2[OF spec[OF conjunct2[OF authorized_slugs_exact[OF reg]]]])
  with reg show ?thesis by blast
qed

text \<open>
  A return address that starts with two slashes passes the filter on local paths and is where
  the browser is sent after the login: it names another host.
\<close>

theorem return_to_other_host:
  "fst (State_Monad.run_state (callback demo_router_state memory_session demo_callback) browser_at_provider) = RedirectTo ''//evil''"
  by code_simp

end
