(* ===== verification/Server.thy ===== *)
theory Server
  imports Github Auth
begin

text \<open>
  The HTTP server, \<open>src/server/src/lib.rs\<close>: readiness, the callback of a node's
  container, the routes of a tenant with the checks in front of them, and the dispatch of a request
  to its handler. Layers for tracing and CORS do not change a response's content and are left out.
\<close>

section \<open>Errors and connections\<close>

fun state_store_error_to_string :: "state_store_error \<Rightarrow> string" where
  "state_store_error_to_string (RedisFailure e) = ''Redis error: '' @ e"
| "state_store_error_to_string (PoolFailure e) = ''Pool error: '' @ e"
| "state_store_error_to_string (SerializationFailure e) = ''Serialization error: '' @ e"
| "state_store_error_to_string (StoreFailure e) = ''Store error: '' @ e"
| "state_store_error_to_string (RuntimeFailure e) = ''Runtime error: '' @ e"

fun backplane_error_to_string :: "backplane_error \<Rightarrow> string" where
  "backplane_error_to_string (AmqpError e) = ''AMQP error: '' @ e"
| "backplane_error_to_string (BpPoolError e) = ''Pool error: '' @ e"
| "backplane_error_to_string (BpSerialization e) = ''Serialization error: '' @ e"
| "backplane_error_to_string (BpOther e) = ''Backplane error: '' @ e"

fun run_history_error_to_string :: "run_history_error \<Rightarrow> string" where
  "run_history_error_to_string (Database e) = ''Database error: '' @ e"
| "run_history_error_to_string (Migration e) = ''Migration error: '' @ e"
| "run_history_error_to_string (InvalidRunId e) = ''Invalid run ID: '' @ e"

datatype server_error =
    ServerIo string
  | ServerStateStore state_store_error
  | ServerBackplane backplane_error
  | ServerSource source_error
  | ServerRunHistory run_history_error
  | ServerTenancy tenancy_error
  | ServerAuth auth_error
  | ConnectionFailed string

text \<open>\<open>Arc<ProviderState>\<close> with its source manager's S3 client.\<close>

record 'w server_state =
  sr_provider :: "'w provider_state"
  sr_source_manager :: "'w s3_client"

definition sr_history :: "'w server_state \<Rightarrow> 'w run_history_ops" where
  "sr_history st = sv_run_history (pv_services (sr_provider st))"

definition map_err :: "('e \<Rightarrow> 'f) \<Rightarrow> ('w, 'e + 'a) state \<Rightarrow> ('w, 'f + 'a) state" where
  "map_err f m = do { r \<leftarrow> m; State_Monad.return (map_sum f id r) }"

definition verify_connections :: "'w server_state \<Rightarrow> ('w, server_error + unit) state" where
  "verify_connections st =
    (let env = pv_services (sr_provider st) in
     bind_ok (map_err (\<lambda>e. ConnectionFailed (''Redis: '' @ state_store_error_to_string e)) (ss_ping (sv_state_store env))) (\<lambda>_.
     bind_ok (map_err (\<lambda>e. ConnectionFailed (''RabbitMQ: '' @ backplane_error_to_string e)) (bp_ping (sv_backplane env))) (\<lambda>_.
     bind_ok (map_err ServerSource (source_ping (sr_source_manager st))) (\<lambda>_.
     bind_ok (map_err (\<lambda>e. ConnectionFailed (''PostgreSQL: '' @ run_history_error_to_string e)) (rh_ping (sr_history st))) (\<lambda>_.
     State_Monad.return (Inr ()))))))"

text \<open>The address of RabbitMQ as the checks log it.\<close>

fun split_first :: "string \<Rightarrow> string \<Rightarrow> string" where
  "split_first p [] = []"
| "split_first p (c # s) = (if starts_with (c # s) p then [] else c # split_first p s)"

definition sanitized_url :: "string \<Rightarrow> string" where
  "sanitized_url url =
    (let scheme = split_first ''://'' url; host_part = last (split_on CHR ''@'' url)
     in if contains_str host_part ''://'' then host_part else scheme @ ''://'' @ host_part)"

lemma split_first_scheme: "CHR '':'' \<notin> set s \<Longrightarrow> split_first ''://'' (s @ ''://'' @ rest) = s"
  by (induction s) (auto simp: starts_with_iff)

lemma last_split: "CHR ''@'' \<notin> set h \<Longrightarrow> last (split_on CHR ''@'' (a @ CHR ''@'' # h)) = h"
  by (simp add: split_on_append_sep split_on_no_sep)

text \<open>Of a URL with a scheme the log shows no credentials; without one it shows them.\<close>

theorem sanitized_url_hides_credentials:
  assumes "CHR '':'' \<notin> set scheme" "CHR ''@'' \<notin> set h" "\<not> contains_str h ''://''"
  shows "sanitized_url (scheme @ ''://'' @ credentials @ ''@'' @ h) = scheme @ ''://'' @ h"
  using assms split_first_scheme[of scheme "credentials @ ''@'' @ h"] last_split[of h "scheme @ ''://'' @ credentials"]
  by (simp add: sanitized_url_def)

theorem schemeless_url_logged: "sanitized_url ''user:secret@rabbit'' = ''user:secret@rabbit://rabbit''"
  by code_simp

section \<open>Health and the callback of a node\<close>

definition health_live :: status_code where
  "health_live = 200"

text \<open>\<open>timeout\<close> is \<open>tokio::time::timeout\<close>: the program's result, or \<open>None\<close> after five seconds.\<close>

definition health_ready ::
  "(('w, server_error + unit) state \<Rightarrow> ('w, (server_error + unit) option) state) \<Rightarrow> 'w server_state \<Rightarrow>
    ('w, status_code) state" where
  "health_ready timeout st = do {
    r \<leftarrow> timeout (verify_connections st);
    State_Monad.return (case r of Some (Inr _) \<Rightarrow> 200 | Some (Inl _) \<Rightarrow> 503 | None \<Rightarrow> 503)
  }"

definition validate_poke_outcome :: "node_outcome \<Rightarrow> bool option" where
  "validate_poke_outcome outcome =
    (case (no_success outcome, no_finished_at outcome) of (Some success, Some _) \<Rightarrow> Some success | _ \<Rightarrow> None)"

definition handle_node_poke :: "'w server_state \<Rightarrow> string \<Rightarrow> string \<Rightarrow> ('w, status_code) state" where
  "handle_node_poke st run_id node_name = do {
    r \<leftarrow> get_node_status (sr_source_manager st) run_id node_name;
    (case r of
       Inl (SourceNotFound _) \<Rightarrow> State_Monad.return 404
     | Inl _ \<Rightarrow> State_Monad.return 500
     | Inr outcome \<Rightarrow>
        (case validate_poke_outcome outcome of
           None \<Rightarrow> State_Monad.return 400
         | Some success \<Rightarrow> do {
             p \<leftarrow> bp_publish_node_completed (sv_backplane (pv_services (sr_provider st))) run_id node_name success;
             State_Monad.return (case p of Inr _ \<Rightarrow> 200 | Inl _ \<Rightarrow> 500)
           }))
  }"

section \<open>The runs of a tenant\<close>

definition check_run_in_slug :: "'w server_state \<Rightarrow> string \<Rightarrow> string \<Rightarrow> ('w, status_code + unit) state" where
  "check_run_in_slug st run_id slug = do {
    r \<leftarrow> rh_get_pipeline_run (sr_history st) run_id;
    State_Monad.return (case r of
        Inr (Some row) \<Rightarrow> if row_tenant_slug row = Some slug then Inr () else Inl 404
      | Inr None \<Rightarrow> Inl 404
      | Inl _ \<Rightarrow> Inl 500)
  }"

definition cancel_pipeline_run :: "'w server_state \<Rightarrow> string \<Rightarrow> string \<Rightarrow> ('w, status_code) state" where
  "cancel_pipeline_run st slug run_id = do {
    r \<leftarrow> check_run_in_slug st run_id slug;
    (case r of
       Inl status \<Rightarrow> State_Monad.return status
     | Inr _ \<Rightarrow> do {
         p \<leftarrow> bp_publish_cancel (sv_backplane (pv_services (sr_provider st))) run_id;
         State_Monad.return (case p of Inl _ \<Rightarrow> 500 | Inr _ \<Rightarrow> 200)
       })
  }"

definition get_run_status :: "'w server_state \<Rightarrow> string \<Rightarrow> string \<Rightarrow> ('w, status_code \<times> run_state option) state" where
  "get_run_status st slug run_id = do {
    r \<leftarrow> check_run_in_slug st run_id slug;
    (case r of
       Inl status \<Rightarrow> State_Monad.return (status, None)
     | Inr _ \<Rightarrow> do {
         l \<leftarrow> ss_load_run (sv_state_store (pv_services (sr_provider st))) run_id;
         State_Monad.return (case l of
             Inr (Some saved) \<Rightarrow> (200, Some saved)
           | Inr None \<Rightarrow> (404, None)
           | Inl _ \<Rightarrow> (500, None))
       })
  }"

record list_runs_params =
  lp_limit :: "i64 option"
  lp_offset :: "i64 option"
  lp_sort_by :: "string option"
  lp_order :: "string option"
  lp_repo :: "string option"
  lp_pipeline_name :: "string option"
  lp_sha :: "string option"

definition unwrap_or :: "'a option \<Rightarrow> 'a \<Rightarrow> 'a" where
  "unwrap_or x d = (case x of Some v \<Rightarrow> v | None \<Rightarrow> d)"

definition clamp :: "int \<Rightarrow> int \<Rightarrow> int \<Rightarrow> int" where
  "clamp x lo hi = (if x < lo then lo else if hi < x then hi else x)"

definition list_runs_query_of :: "string \<Rightarrow> list_runs_params \<Rightarrow> list_runs_query option" where
  "list_runs_query_of slug params =
    (case sort_column_parse (unwrap_or (lp_sort_by params) ''created_at'') of
       None \<Rightarrow> None
     | Some column \<Rightarrow>
        (case sort_order_parse (unwrap_or (lp_order params) ''desc'') of
           None \<Rightarrow> None
         | Some ord \<Rightarrow> Some
            \<lparr> lq_limit = clamp (unwrap_or (lp_limit params) 50) 1 200,
              lq_offset = max (unwrap_or (lp_offset params) 0) 0,
              lq_sort_by = column, lq_order = ord,
              lq_filters = \<lparr> rf_owner = Some slug, rf_repo = lp_repo params,
                rf_pipeline_name = lp_pipeline_name params, rf_sha = lp_sha params \<rparr> \<rparr>))"

definition list_runs ::
  "'w server_state \<Rightarrow> string \<Rightarrow> list_runs_params \<Rightarrow> ('w, status_code + pipeline_run_row list \<times> i64) state" where
  "list_runs st slug params =
    (case list_runs_query_of slug params of
       None \<Rightarrow> State_Monad.return (Inl 400)
     | Some q \<Rightarrow> do {
         r \<leftarrow> bind_ok (rh_list_pipeline_runs (sr_history st) q) (\<lambda>runs.
              bind_ok (rh_count_pipeline_runs (sr_history st) (lq_filters q)) (\<lambda>total.
              State_Monad.return (Inr (runs, total))));
         State_Monad.return (case r of Inr page \<Rightarrow> Inr page | Inl _ \<Rightarrow> Inl 500)
       })"

definition get_run :: "'w server_state \<Rightarrow> string \<Rightarrow> string \<Rightarrow> ('w, status_code \<times> pipeline_run_row option) state" where
  "get_run st slug run_id = do {
    r \<leftarrow> rh_get_pipeline_run (sr_history st) run_id;
    State_Monad.return (case r of
        Inr (Some row) \<Rightarrow> if row_tenant_slug row = Some slug then (200, Some row) else (404, None)
      | Inr None \<Rightarrow> (404, None)
      | Inl _ \<Rightarrow> (500, None))
  }"

record node_run_response =
  nn_row :: node_run_row
  nn_user_message :: "string option"

definition build_node_run_response :: "node_run_row \<Rightarrow> node_run_response" where
  "build_node_run_response row =
    \<lparr> nn_row = row, nn_user_message = Option.bind (node_failure_reason row) user_message_from_code \<rparr>"

definition millis_to_datetime :: "'w coordinator_env \<Rightarrow> u128 \<Rightarrow> datetime option" where
  "millis_to_datetime env ms =
    (let secs = uint (ms div 1000); nanos = uint ((ms mod 1000) * 1000000) in
     if 2 ^ 63 \<le> secs \<or> 2 ^ 32 \<le> nanos then None else rt_from_timestamp env secs (nat nanos))"

definition augment_with_live :: "'w server_state \<Rightarrow> node_run_row \<Rightarrow> ('w, node_run_row) state" where
  "augment_with_live st row =
    (if node_completed_at row \<noteq> None then State_Monad.return row
     else do {
       r \<leftarrow> get_node_status (sr_source_manager st) (pv_uuid_to_string (sr_provider st) (node_run_id row)) (node_node_name row);
       State_Monad.return (case r of
           Inl _ \<Rightarrow> row
         | Inr outcome \<Rightarrow>
            let to_dt = millis_to_datetime (pv_services (sr_provider st));
                row1 = (case no_success outcome of Some s \<Rightarrow> row\<lparr>node_success := Some s\<rparr> | None \<Rightarrow> row);
                row2 = (case Option.bind (no_started_at outcome) to_dt of
                    Some dt \<Rightarrow> row1\<lparr>node_started_at := Some dt\<rparr> | None \<Rightarrow> row1)
            in (case Option.bind (no_finished_at outcome) to_dt of
                  Some dt \<Rightarrow> row2\<lparr>node_completed_at := Some dt\<rparr> | None \<Rightarrow> row2))
     })"

text \<open>\<open>join_all\<close> over the rows: the reads are independent, and made here in the order of the rows.\<close>

fun augment_all :: "'w server_state \<Rightarrow> node_run_row list \<Rightarrow> ('w, node_run_row list) state" where
  "augment_all st [] = State_Monad.return []"
| "augment_all st (row # rows) = do {
    a \<leftarrow> augment_with_live st row;
    rest \<leftarrow> augment_all st rows;
    State_Monad.return (a # rest)
  }"

definition list_run_nodes :: "'w server_state \<Rightarrow> string \<Rightarrow> string \<Rightarrow> ('w, status_code \<times> node_run_response list) state" where
  "list_run_nodes st slug run_id = do {
    r \<leftarrow> check_run_in_slug st run_id slug;
    (case r of
       Inl status \<Rightarrow> State_Monad.return (status, [])
     | Inr _ \<Rightarrow> do {
         l \<leftarrow> rh_list_node_runs (sr_history st) run_id;
         (case l of
            Inl _ \<Rightarrow> State_Monad.return (500, [])
          | Inr rows \<Rightarrow> do {
              augmented \<leftarrow> augment_all st rows;
              State_Monad.return (200, map build_node_run_response augmented)
            })
       })
  }"

definition get_run_node ::
  "'w server_state \<Rightarrow> string \<Rightarrow> string \<Rightarrow> string \<Rightarrow> ('w, status_code \<times> node_run_response option) state" where
  "get_run_node st slug run_id node_name = do {
    r \<leftarrow> check_run_in_slug st run_id slug;
    (case r of
       Inl status \<Rightarrow> State_Monad.return (status, None)
     | Inr _ \<Rightarrow> do {
         l \<leftarrow> rh_get_node_run (sr_history st) run_id node_name;
         (case l of
            Inl _ \<Rightarrow> State_Monad.return (500, None)
          | Inr None \<Rightarrow> State_Monad.return (404, None)
          | Inr (Some row) \<Rightarrow> do {
              augmented \<leftarrow> augment_with_live st row;
              State_Monad.return (200, Some (build_node_run_response augmented))
            })
       })
  }"

text \<open>The log in the history.\<close>

definition stored_log :: "'w server_state \<Rightarrow> string \<Rightarrow> string \<Rightarrow> ('w, status_code \<times> string) state" where
  "stored_log st run_id node_name = do {
    r \<leftarrow> rh_get_node_log (sr_history st) run_id node_name;
    State_Monad.return (case r of
        Inr (Some log) \<Rightarrow> (200, log)
      | Inr None \<Rightarrow> (404, [])
      | Inl _ \<Rightarrow> (500, []))
  }"

definition get_node_log :: "'w server_state \<Rightarrow> string \<Rightarrow> string \<Rightarrow> string \<Rightarrow> ('w, status_code \<times> string) state" where
  "get_node_log st slug run_id node_name = do {
    r \<leftarrow> check_run_in_slug st run_id slug;
    (case r of
       Inl status \<Rightarrow> State_Monad.return (status, [])
     | Inr _ \<Rightarrow> do {
         l \<leftarrow> rh_get_node_run (sr_history st) run_id node_name;
         (case l of
            Inl _ \<Rightarrow> State_Monad.return (500, [])
          | Inr None \<Rightarrow> State_Monad.return (404, [])
          | Inr (Some row) \<Rightarrow>
              if node_completed_at row = None then do {
                live \<leftarrow> source_get_node_log (sr_source_manager st) run_id node_name;
                (case live of
                   Inr (Some log) \<Rightarrow> State_Monad.return (200, log)
                 | _ \<Rightarrow> stored_log st run_id node_name)
              }
              else stored_log st run_id node_name)
       })
  }"

section \<open>Routing\<close>

datatype http_method = GET | POST

text \<open>A request of a tenant's route: the slug of the path, the run, and the node or the query.\<close>

datatype protected_request =
    CancelRun string string
  | RunStatus string string
  | ListRuns string list_runs_params
  | GetRun string string
  | ListNodes string string
  | GetNode string string string
  | NodeLog string string string
  | RetryRun string string

text \<open>\<open>protected_routes\<close>: the segments of the path against the eight patterns.\<close>

definition protected_routes ::
  "http_method \<Rightarrow> list_runs_params \<Rightarrow> string list \<Rightarrow> protected_request option" where
  "protected_routes m query_params path =
    (case path of
       api # slug # runs # rest \<Rightarrow>
        if api \<noteq> ''api'' \<or> runs \<noteq> ''runs'' then None
        else (case rest of
            [] \<Rightarrow> if m = GET then Some (ListRuns slug query_params) else None
          | [run_id] \<Rightarrow> if m = GET then Some (GetRun slug run_id) else None
          | [run_id, x] \<Rightarrow>
             if m = POST \<and> x = ''cancel'' then Some (CancelRun slug run_id)
             else if m = GET \<and> x = ''status'' then Some (RunStatus slug run_id)
             else if m = GET \<and> x = ''nodes'' then Some (ListNodes slug run_id)
             else if m = POST \<and> x = ''retry'' then Some (RetryRun slug run_id)
             else None
          | [run_id, x, node_name] \<Rightarrow> if m = GET \<and> x = ''nodes'' then Some (GetNode slug run_id node_name) else None
          | [run_id, x, node_name, y] \<Rightarrow>
             if m = GET \<and> x = ''nodes'' \<and> y = ''logs'' then Some (NodeLog slug run_id node_name) else None
          | _ \<Rightarrow> None)
     | _ \<Rightarrow> None)"

fun request_slug :: "protected_request \<Rightarrow> string" where
  "request_slug (CancelRun slug _) = slug"
| "request_slug (RunStatus slug _) = slug"
| "request_slug (ListRuns slug _) = slug"
| "request_slug (GetRun slug _) = slug"
| "request_slug (ListNodes slug _) = slug"
| "request_slug (GetNode slug _ _) = slug"
| "request_slug (NodeLog slug _ _) = slug"
| "request_slug (RetryRun slug _) = slug"

fun request_run :: "protected_request \<Rightarrow> string option" where
  "request_run (CancelRun _ r) = Some r"
| "request_run (RunStatus _ r) = Some r"
| "request_run (ListRuns _ _) = None"
| "request_run (GetRun _ r) = Some r"
| "request_run (ListNodes _ r) = Some r"
| "request_run (GetNode _ r _) = Some r"
| "request_run (NodeLog _ r _) = Some r"
| "request_run (RetryRun _ r) = Some r"

datatype response_body =
    NoBody
  | StateBody "run_state option"
  | RunsBody "pipeline_run_row list" i64
  | RunBody "pipeline_run_row option"
  | NodesBody "node_run_response list"
  | NodeBody "node_run_response option"
  | LogBody string
  | NewRunBody "string option"

text \<open>A response with the coordinators that the handler has started.\<close>

type_synonym 'w response = "(status_code \<times> response_body) \<times> 'w task list"

definition respond :: "('a \<Rightarrow> response_body) \<Rightarrow> ('w, status_code \<times> 'a) state \<Rightarrow> ('w, 'w response) state" where
  "respond f m = do { r \<leftarrow> m; State_Monad.return ((fst r, f (snd r)), []) }"

fun handle_protected :: "'w server_state \<Rightarrow> protected_request \<Rightarrow> ('w, 'w response) state" where
  "handle_protected st (CancelRun slug run_id) =
     do { s \<leftarrow> cancel_pipeline_run st slug run_id; State_Monad.return ((s, NoBody), []) }"
| "handle_protected st (RunStatus slug run_id) = respond StateBody (get_run_status st slug run_id)"
| "handle_protected st (ListRuns slug params) = do {
     r \<leftarrow> list_runs st slug params;
     State_Monad.return (case r of Inl s \<Rightarrow> ((s, NoBody), []) | Inr (runs, n) \<Rightarrow> ((200, RunsBody runs n), []))
   }"
| "handle_protected st (GetRun slug run_id) = respond RunBody (get_run st slug run_id)"
| "handle_protected st (ListNodes slug run_id) = respond NodesBody (list_run_nodes st slug run_id)"
| "handle_protected st (GetNode slug run_id node_name) = respond NodeBody (get_run_node st slug run_id node_name)"
| "handle_protected st (NodeLog slug run_id node_name) = respond LogBody (get_node_log st slug run_id node_name)"
| "handle_protected st (RetryRun slug run_id) = do {
     r \<leftarrow> retry_run (sr_provider st) slug run_id;
     State_Monad.return ((fst (fst r), NewRunBody (snd (fst r))), snd r)
   }"

text \<open>\<open>route_layer(from_extractor::<AuthorizedTenant>())\<close>: the extractor runs in front of every handler.\<close>

definition serve_protected ::
  "'w server_state \<Rightarrow> 'w session_ops option \<Rightarrow> protected_request \<Rightarrow> ('w, 'w response) state" where
  "serve_protected st session req = do {
    r \<leftarrow> authorized_tenant (Some [(''slug'', request_slug req)]) session;
    (case r of
       Inl status \<Rightarrow> State_Monad.return ((status, NoBody), [])
     | Inr _ \<Rightarrow> handle_protected st req)
  }"

section \<open>Requests for the runs of others\<close>

lemma check_run_foreign:
  assumes "State_Monad.run_state (rh_get_pipeline_run (sr_history st) run_id) w = (found, w')"
    and "\<forall>row. found = Inr (Some row) \<longrightarrow> row_tenant_slug row \<noteq> Some slug"
  shows "State_Monad.run_state (check_run_in_slug st run_id slug) w =
    (Inl (case found of Inl _ \<Rightarrow> 500 | Inr _ \<Rightarrow> 404), w')"
  using assms by (auto simp: check_run_in_slug_def split: sum.splits option.splits)

lemma retry_foreign:
  assumes "State_Monad.run_state (rh_get_pipeline_run (sr_history st) run_id) w = (found, w')"
    and "\<forall>row. found = Inr (Some row) \<longrightarrow> row_tenant_slug row \<noteq> Some slug"
  shows "State_Monad.run_state (retry_run (sr_provider st) slug run_id) w =
    (((case found of Inr None \<Rightarrow> 404 | Inr (Some row) \<Rightarrow> if row_tenant_slug row = None then 500 else 404 | Inl _ \<Rightarrow> 500, None), []), w')"
  using assms
  by (auto simp: retry_run_def retry_pipeline_run_def retry_original_def sr_history_def split: sum.splits option.splits)

definition denied :: "response_body \<Rightarrow> bool" where
  "denied body \<longleftrightarrow> body \<in> {NoBody, StateBody None, RunBody None, NodesBody [], NodeBody None, LogBody [], NewRunBody None}"

lemma handle_foreign:
  assumes "State_Monad.run_state (rh_get_pipeline_run (sr_history st) run_id) w = (found, w')"
    and "\<forall>row. found = Inr (Some row) \<longrightarrow> row_tenant_slug row \<noteq> Some (request_slug req)"
    and "request_run req = Some run_id"
  shows "\<exists>status body. State_Monad.run_state (handle_protected st req) w = (((status, body), []), w') \<and> denied body \<and>
    status \<in> {404, 500} \<and> ((\<exists>row. found = Inr (Some row) \<and> row_tenant_slug row \<noteq> None) \<longrightarrow> status = 404)"
proof (cases req)
  case (GetRun slug r)
  with assms show ?thesis by (auto simp: respond_def get_run_def denied_def split: sum.splits option.splits)
next
  case (RetryRun slug r)
  with retry_foreign[OF assms(1)] assms(2,3) show ?thesis by (auto simp: denied_def split: sum.splits option.splits)
qed (use assms(2,3) check_run_foreign[OF assms(1)] in
    \<open>auto simp: respond_def cancel_pipeline_run_def get_run_status_def list_run_nodes_def get_run_node_def get_node_log_def denied_def
      split: sum.splits\<close>)

text \<open>
  Claim C12. A tenant's routes keep runs apart: a request that names a run which the history does not
  record under the slug of the path, whoever makes it and whichever of the per-run routes it
  takes, is never answered 200; its body is empty, no coordinator is started and no event is published, since nothing
  happens beyond reading the session and the run's row. A caller with access to the slug is
  told 404 when the run is another tenant's.
\<close>

theorem protected_routes_isolated:
  assumes "request_run req = Some run_id"
    and "State_Monad.run_state (authorized_tenant (Some [(''slug'', request_slug req)]) session) w = (access, w1)"
    and "State_Monad.run_state (rh_get_pipeline_run (sr_history st) run_id) w1 = (found, w2)"
    and "\<forall>row. found = Inr (Some row) \<longrightarrow> row_tenant_slug row \<noteq> Some (request_slug req)"
  shows "\<exists>status body w'. State_Monad.run_state (serve_protected st session req) w = (((status, body), []), w') \<and>
    status \<noteq> 200 \<and> denied body \<and> w' = (case access of Inl _ \<Rightarrow> w1 | Inr _ \<Rightarrow> w2) \<and>
    ((\<exists>p row. access = Inr p \<and> found = Inr (Some row) \<and> row_tenant_slug row \<noteq> None) \<longrightarrow> status = 404)"
proof (cases access)
  case (Inl status)
  with assms(2) have "status \<noteq> 200"
    by (auto simp: authorized_tenant_def load_auth_def split: option.splits prod.splits sum.splits if_splits)
  with Inl assms(2) show ?thesis by (simp add: serve_protected_def denied_def)
next
  case (Inr p)
  obtain status body where "State_Monad.run_state (handle_protected st req) w1 = (((status, body), []), w2)" "denied body"
    "status \<in> {404, 500}" "(\<exists>row. found = Inr (Some row) \<and> row_tenant_slug row \<noteq> None) \<longrightarrow> status = 404"
    using handle_foreign[OF assms(3,4,1)] by blast
  with Inr assms(2) show ?thesis by (auto simp: serve_protected_def)
qed

section \<open>The list of runs\<close>

lemma list_runs_query_bounds:
  "list_runs_query_of slug params = Some q \<Longrightarrow> 1 \<le> lq_limit q \<and> lq_limit q \<le> 200 \<and> 0 \<le> lq_offset q \<and>
    rf_owner (lq_filters q) = Some slug"
  by (auto simp: list_runs_query_of_def clamp_def split: option.splits)

lemma list_runs_postgres:
  assumes "sr_history st = postgres_run_history uuid_parse collate" "pg_down db = None" "list_runs_query_of slug params = Some q"
  shows "State_Monad.run_state (list_runs st slug params) db =
    (Inr (projr (fst (State_Monad.run_state (pg_list_pipeline_runs collate q) db)),
      int (length (filter (filter_where (lq_filters q)) (pg_pipeline_runs db)))), db)"
  using list_runs_query_bounds[OF assms(3)] assms
  by (simp add: list_runs_def bind_ok_def postgres_run_history_def pg_list_pipeline_runs_def pg_count_pipeline_runs_def query_def)

text \<open>
  Claim C33. Listing runs is bounded whatever the query asks for: on a reachable database an unknown
  sort column or order is answered 400, and every other request, with whatever limit and
  offset, is answered with at most 200 rows of the table, all owned by the organisation that the path names, and with
  the number of all rows that pass its filters.
\<close>

theorem list_runs_bounded:
  assumes "sr_history st = postgres_run_history uuid_parse collate" "pg_down db = None"
  shows "case list_runs_query_of slug params of
      None \<Rightarrow> State_Monad.run_state (list_runs st slug params) db = (Inl 400, db)
    | Some q \<Rightarrow> \<exists>runs. State_Monad.run_state (list_runs st slug params) db =
          (Inr (runs, int (length (filter (filter_where (lq_filters q)) (pg_pipeline_runs db)))), db) \<and>
        length runs \<le> 200 \<and> set runs \<subseteq> set (pg_pipeline_runs db) \<and> (\<forall>row\<in>set runs. row_owner row = slug \<and>
          (\<forall>r. lp_repo params = Some r \<longrightarrow> row_repo row = r))"
proof (cases "list_runs_query_of slug params")
  case None
  then show ?thesis by (simp add: list_runs_def)
next
  case (Some q)
  note b = list_runs_query_bounds[OF Some]
  have filters: "rf_repo (lq_filters q) = lp_repo params"
    using Some by (auto simp: list_runs_query_of_def split: option.splits)
  have "fst (State_Monad.run_state (pg_list_pipeline_runs collate q) db) =
      Inr (projr (fst (State_Monad.run_state (pg_list_pipeline_runs collate q) db)))"
    using b assms(2) by (simp add: pg_list_pipeline_runs_def query_def)
  moreover define runs where "runs = projr (fst (State_Monad.run_state (pg_list_pipeline_runs collate q) db))"
  ultimately have r: "length runs \<le> nat (lq_limit q)" "set runs \<subseteq> {x \<in> set (pg_pipeline_runs db). filter_where (lq_filters q) x}"
    using b assms(2)
    by (auto simp: pg_list_pipeline_runs_def query_def sort_by_set dest!: in_set_takeD in_set_dropD)
  have "length runs \<le> 200" using r(1) b by linarith
  then show ?thesis
    using Some list_runs_postgres[OF assms Some] r(2) b filters by (auto simp: runs_def filter_where_def)
qed

definition no_list_params :: list_runs_params where
  "no_list_params = \<lparr> lp_limit = None, lp_offset = None, lp_sort_by = None, lp_order = None, lp_repo = None,
    lp_pipeline_name = None, lp_sha = None \<rparr>"

text \<open>
  The list goes by the owner of the repository, not by the tenant that the run was recorded for: whatever tenant
  a run belongs to, it is listed to the callers of the slug that equals its owner, and to no
  others.
\<close>

theorem list_runs_by_owner:
  assumes "sr_history st = postgres_run_history uuid_parse collate" "pg_down db = None" "pg_pipeline_runs db = [row]"
  shows "State_Monad.run_state (list_runs st slug no_list_params) db =
    (Inr (if slug = row_owner row then ([row], 1) else ([], 0)), db)"
proof -
  obtain q where q: "list_runs_query_of slug no_list_params = Some q" "lq_limit q = 50" "lq_offset q = 0"
    "lq_filters q = \<lparr> rf_owner = Some slug, rf_repo = None, rf_pipeline_name = None, rf_sha = None \<rparr>"
    by (auto simp: list_runs_query_of_def no_list_params_def unwrap_or_def sort_column_parse_def sort_order_parse_def clamp_def)
  show ?thesis
    using list_runs_postgres[OF assms(1,2) q(1)] assms(2,3) q(2-4)
    by (auto simp: pg_list_pipeline_runs_def query_def filter_where_def sort_by_def)
qed

section \<open>Witnesses\<close>

text \<open>A server whose only service is the history, here the database itself; its other services answer nothing.\<close>

definition idle_backplane :: "'w backplane_ops" where
  "idle_backplane = \<lparr> bp_publish_node_completed = (\<lambda>_ _ _. State_Monad.return (Inr ())),
    bp_publish_cancel = (\<lambda>_. State_Monad.return (Inr ())), bp_ping = State_Monad.return (Inr ()),
    bp_subscribe_run = (\<lambda>_. State_Monad.return (Inr 0)), bp_next_event = (\<lambda>_. State_Monad.return EventPending) \<rparr>"

definition idle_store :: "'w state_store_ops" where
  "idle_store = \<lparr> ss_save_run = (\<lambda>_ _ _. State_Monad.return (Inr False)), ss_load_run = (\<lambda>_. State_Monad.return (Inr None)),
    ss_delete_run = (\<lambda>_. State_Monad.return (Inr ())), ss_try_acquire_lease = (\<lambda>_ _ _. State_Monad.return (Inr None)),
    ss_renew_lease = (\<lambda>_ _ _ _. State_Monad.return (Inr False)), ss_release_lease = (\<lambda>_. State_Monad.return (Inr ())),
    ss_get_orphaned_runs = State_Monad.return (Inr []), ss_list_terminal_unleased_runs = State_Monad.return (Inr []),
    ss_ping = State_Monad.return (Inr ()) \<rparr>"

definition idle_env :: "'w run_history_ops \<Rightarrow> 'w coordinator_env" where
  "idle_env h = \<lparr> sv_config = default_config, sv_dispatcher = log_dispatcher idle_backplane, sv_state_store = idle_store,
      sv_backplane = idle_backplane, sv_run_history = h, sv_report_completed = None,
      rt_now = State_Monad.return 0, rt_now_ms = State_Monad.return 0, rt_new_uuid = State_Monad.return [],
      rt_watcher_send = (\<lambda>_. State_Monad.return False), rt_within_budget = State_Monad.return True,
      rt_node_json = (\<lambda>_. None), rt_from_timestamp = (\<lambda>_ _. None) \<rparr>"

definition idle_s3 :: "'w s3_client" where
  "idle_s3 = \<lparr> s3_get_object = (\<lambda>_. State_Monad.return NoSuchKey), s3_list_objects_v2 = (\<lambda>_. State_Monad.return (Inr [])),
      s3_delete_objects = (\<lambda>_. State_Monad.return (Inr ())), s3_create_multipart_upload = (\<lambda>_. State_Monad.return (Inr None)),
      s3_upload_part = (\<lambda>_ _ _ _. State_Monad.return (Inr None)),
      s3_complete_multipart_upload = (\<lambda>_ _ _. State_Monad.return (Inr ())),
      s3_abort_multipart_upload = (\<lambda>_ _. State_Monad.return (Inr ())), s3_head_bucket = State_Monad.return HeadOk,
      s3_create_bucket = State_Monad.return (Inr ()), s3_put_lifecycle = (\<lambda>_ _. State_Monad.return (Inr ())),
      s3_presign_get = (\<lambda>k. State_Monad.return (Inr k)), s3_presign_put = (\<lambda>k _. State_Monad.return (Inr k)),
      s3_presign_config = (\<lambda>_. Inr ()), gh_download_tarball = (\<lambda>_ _ _. State_Monad.return (Inr [])),
      outcome_from_json = (\<lambda>_. Inl []), from_utf8_lossy = id \<rparr>"

definition idle_github :: "'w github_client" where
  "idle_github = \<lparr> gc_encoding_key = Inr, gc_build_app = (\<lambda>_ _. Inr 1),
      gc_repository_installation = (\<lambda>_ _ _. State_Monad.return (Inr 7)), gc_installation = (\<lambda>_ _. Inr 2),
      gc_get_content = (\<lambda>_ _ _ _ _. State_Monad.return (Inr [])),
      gc_create_check_run = (\<lambda>_ _ _ _ _ _. State_Monad.return (Inr 9)),
      gc_update_check_run = (\<lambda>_ _ _ _ _ _. State_Monad.return (Inr ())), gc_source_manager = (\<lambda>_. idle_s3) \<rparr>"

definition demo_server :: "postgres server_state" where
  "demo_server = \<lparr> sr_provider =
      \<lparr> pv_services = idle_env (postgres_run_history (\<lambda>_. Inr 7) id), pv_tenants = registry_of [demo_tenant], pv_github_apps = [],
        pv_github = idle_github,
        pv_codec = \<lparr> wc_event = (\<lambda>_ _. Inl []), wc_json = (\<lambda>_. Inl []), wc_hex_decode = (\<lambda>_. None), wc_hmac = (\<lambda>_ _. None) \<rparr>,
        pv_yaml = (\<lambda>_. Inl []), pv_uuid_to_string = (\<lambda>_. []) \<rparr>,
    sr_source_manager = idle_s3 \<rparr>"

text \<open>A run of the tenant \<open>u\<close>, whose repository is owned by the organisation \<open>o\<close>.\<close>

definition foreign_db :: postgres where
  "foreign_db = demo_db\<lparr>pg_pipeline_runs := [(row_of_start 7 None InProgress None demo_start)\<lparr>row_tenant_slug := Some ''u''\<rparr>]\<rparr>"

definition demo_browser :: "'w session_ops" where
  "demo_browser = \<lparr> so_get_auth = State_Monad.return (Inr (Some demo_session)), so_insert_auth = (\<lambda>_. State_Monad.return (Inr ())),
    so_remove_auth = State_Monad.return (Inr ()), so_get_pre_auth = State_Monad.return (Inr None),
    so_insert_pre_auth = (\<lambda>_. State_Monad.return (Inr ())), so_remove_pre_auth = State_Monad.return (Inr ()),
    so_flush = State_Monad.return (Inr ()) \<rparr>"

theorem protected_routes_isolated_witness:
  "\<exists>body. State_Monad.run_state (serve_protected demo_server (Some demo_browser) (CancelRun ''t'' ''r'')) foreign_db =
    (((404, body), []), foreign_db) \<and> denied body"
proof -
  let ?row = "(row_of_start 7 None InProgress None demo_start)\<lparr>row_tenant_slug := Some ''u''\<rparr>"
  have access: "State_Monad.run_state (authorized_tenant (Some [(''slug'', request_slug (CancelRun ''t'' ''r''))]) (Some demo_browser)) foreign_db =
      (Inr (''t'', demo_session), foreign_db)"
    by (simp add: authorized_tenant_def load_auth_def demo_browser_def demo_session_def hm_get_def)
  have found: "State_Monad.run_state (rh_get_pipeline_run (sr_history demo_server) ''r'') foreign_db = (Inr (Some ?row), foreign_db)"
    by (simp add: sr_history_def demo_server_def idle_env_def postgres_run_history_def pg_get_pipeline_run_def parse_run_id_def
        query_def foreign_db_def row_of_start_def)
  have "request_run (CancelRun ''t'' ''r'') = Some ''r''" by simp
  from protected_routes_isolated[OF this access found] show ?thesis by auto
qed

theorem list_runs_bounded_witness:
  "\<exists>runs. State_Monad.run_state (list_runs demo_server ''o'' (no_list_params\<lparr>lp_limit := Some 1000, lp_offset := Some (-5)\<rparr>)) foreign_db =
    (Inr (runs, 1), foreign_db) \<and> (\<forall>row\<in>set runs. row_owner row = ''o'')"
proof -
  let ?params = "no_list_params\<lparr>lp_limit := Some 1000, lp_offset := Some (-5)\<rparr>"
  have "sr_history demo_server = postgres_run_history (\<lambda>_. Inr 7) id" "pg_down foreign_db = None"
    by (simp_all add: sr_history_def demo_server_def idle_env_def foreign_db_def)
  note page = list_runs_bounded[OF this, of "''o''" ?params]
  have "list_runs_query_of ''o'' ?params = Some \<lparr> lq_limit = 200, lq_offset = 0, lq_sort_by = CreatedAt, lq_order = Desc,
      lq_filters = \<lparr> rf_owner = Some ''o'', rf_repo = None, rf_pipeline_name = None, rf_sha = None \<rparr> \<rparr>"
    by (simp add: list_runs_query_of_def no_list_params_def unwrap_or_def clamp_def sort_column_parse_def sort_order_parse_def)
  with page show ?thesis by (auto simp: foreign_db_def filter_where_def row_of_start_def)
qed

end
