(* ===== verification/Startup.thy ===== *)
theory Startup
  imports Server KubeDispatcher Reaper
begin

text \<open>
  From the configuration to the running server: the clients each component is built on
  (\<open>RedisStateStore::new\<close>, \<open>RabbitmqBackplane::new\<close>, \<open>SourceManager::new\<close>, \<open>KubeDispatcher::new\<close>,
  \<open>PostgresRunHistory::connect\<close>, \<open>src/auth/src/redis_session.rs\<close>, \<open>http_client.rs\<close>, \<open>oidc.rs\<close>), \<open>serve\<close> of
  \<open>src/server/src/lib.rs\<close> and \<open>src/src/main.rs\<close>. The libraries that make connections are parameters; what
  they are given is written out.
\<close>

section \<open>Clients\<close>

text \<open>The connection pool of the state store: connection information from a URL, its password, the pool.\<close>

record ('c, 'w, 'v) deadpool_redis =
  dr_parse :: "string \<Rightarrow> string + 'c"
  dr_set_password :: "string \<Rightarrow> 'c \<Rightarrow> 'c"
  dr_create_pool :: "'c \<Rightarrow> nat \<Rightarrow> string + ('w, 'v) redis_server"

definition redis_state_store_new ::
  "('c, 'w, 'v) deadpool_redis \<Rightarrow> string \<Rightarrow> string \<Rightarrow> nat \<Rightarrow> state_store_error + ('w, 'v) redis_server" where
  "redis_state_store_new lib url password pool_size =
    (case dr_parse lib url of
       Inl e \<Rightarrow> Inl (StoreFailure (''URL parse error: '' @ e))
     | Inr parsed \<Rightarrow>
        let conn_info = (if password \<noteq> [] then dr_set_password lib password parsed else parsed)
        in map_sum StoreFailure id (dr_create_pool lib conn_info pool_size))"

definition rabbitmq_backplane_new :: "(string \<Rightarrow> u64 \<Rightarrow> string + 'w amqp) \<Rightarrow> app_config \<Rightarrow> backplane_error + 'w amqp" where
  "rabbitmq_backplane_new create_pool cfg = map_sum BpOther id (create_pool (rabbitmq_url cfg) (rabbitmq_pool_max_size cfg))"

text \<open>\<open>ContentLengthZeroInterceptor\<close>: the headers of a request before it is sent.\<close>

definition content_length_zero :: "header_map \<Rightarrow> header_map" where
  "content_length_zero headers =
    (if headers ''content-length'' = None then headers(''content-length'' \<mapsto> ''0'') else headers)"

record s3_settings =
  st_endpoint_url :: string
  st_access_key :: string
  st_secret_key :: string
  st_region :: string
  st_force_path_style :: bool
  st_interceptor :: "header_map \<Rightarrow> header_map"

text \<open>\<open>from_conf\<close> makes the client of a bucket.\<close>

definition source_manager_new :: "(s3_settings \<Rightarrow> string \<Rightarrow> 'w s3_client) \<Rightarrow> app_config \<Rightarrow> 'w s3_client" where
  "source_manager_new from_conf cfg =
    from_conf \<lparr> st_endpoint_url = s3_endpoint cfg, st_access_key = s3_access_key cfg, st_secret_key = s3_secret_key cfg,
      st_region = ''us-east-1'', st_force_path_style = True,
      st_interceptor = content_length_zero \<rparr> (s3_bucket cfg)"

text \<open>\<open>try_default\<close> is the client of the cluster the process runs in, and its default namespace.\<close>

definition kube_dispatcher_connect ::
  "('w, string + 'w kube_client \<times> string) state \<Rightarrow> hash_ops \<Rightarrow> app_config \<Rightarrow> 'w s3_client \<Rightarrow>
    ('w, dispatch_error + 'w kube_dispatcher) state" where
  "kube_dispatcher_connect try_default h cfg source_manager =
    bind_ok (map_err KubeFailure try_default) (\<lambda>(client, default_namespace).
    State_Monad.return (Inr (kube_dispatcher_new cfg source_manager client h default_namespace)))"

record pg_options =
  po_connect_host :: string
  po_connect_port :: u16
  po_connect_database :: string
  po_connect_username :: string
  po_connect_password :: string

definition postgres_connect ::
  "(pg_options \<Rightarrow> ('w, string + 'w run_history_ops) state) \<Rightarrow> app_config \<Rightarrow> ('w, run_history_error + 'w run_history_ops) state" where
  "postgres_connect connect_with cfg = map_err Database (connect_with
    \<lparr> po_connect_host = postgres_host cfg, po_connect_port = postgres_port cfg, po_connect_database = postgres_db cfg,
      po_connect_username = postgres_username cfg, po_connect_password = postgres_password cfg \<rparr>)"

definition postgres_migrate :: "('w, string + unit) state \<Rightarrow> ('w, run_history_error + unit) state" where
  "postgres_migrate run_migrations = map_err Migration run_migrations"

section \<open>Sessions and the identity provider\<close>

fun session_store_error_to_string :: "session_store_error \<Rightarrow> string" where
  "session_store_error_to_string (InvalidSessionUrl e) = ''Invalid Redis URL: '' @ e"
| "session_store_error_to_string (SessionPool e) = ''Redis pool error: '' @ e"

datatype same_site = SameSiteStrict | SameSiteLax | SameSiteNone

text \<open>The layer that keeps sessions: its store and its cookie, which expires after days of inactivity.\<close>

record 'p session_layer =
  sl_store :: 'p
  sl_name :: string
  sl_secure :: bool
  sl_http_only :: bool
  sl_same_site :: same_site
  sl_inactivity_days :: i64

definition SESSION_COOKIE :: string where "SESSION_COOKIE = ''jefferies_session''"

definition SESSION_INACTIVITY_DAYS :: i64 where "SESSION_INACTIVITY_DAYS = 7"

definition REDIS_POOL_SIZE :: nat where "REDIS_POOL_SIZE = 4"

record ('f, 'p, 'w) fred =
  fr_from_url :: "string \<Rightarrow> string + 'f"
  fr_set_password :: "string \<Rightarrow> 'f \<Rightarrow> 'f"
  fr_pool :: "'f \<Rightarrow> nat \<Rightarrow> string + 'p"
  fr_connect_pool :: "'p \<Rightarrow> ('w, unit) state"
  fr_wait_for_connect :: "'p \<Rightarrow> ('w, string + unit) state"

definition build_session_layer ::
  "('f, 'p, 'w) fred \<Rightarrow> string \<Rightarrow> string \<Rightarrow> ('w, session_store_error + 'p session_layer) state" where
  "build_session_layer lib url password =
    (case fr_from_url lib url of
       Inl e \<Rightarrow> State_Monad.return (Inl (InvalidSessionUrl e))
     | Inr parsed \<Rightarrow>
        let config = (if password \<noteq> [] then fr_set_password lib password parsed else parsed) in
        (case fr_pool lib config REDIS_POOL_SIZE of
           Inl e \<Rightarrow> State_Monad.return (Inl (SessionPool e))
         | Inr pool \<Rightarrow> do {
             fr_connect_pool lib pool;
             bind_ok (map_err SessionPool (fr_wait_for_connect lib pool)) (\<lambda>_.
             State_Monad.return (Inr
               \<lparr> sl_store = pool, sl_name = SESSION_COOKIE, sl_secure = True, sl_http_only = True,
                 sl_same_site = SameSiteLax, sl_inactivity_days = SESSION_INACTIVITY_DAYS \<rparr>))
           }))"

fun oidc_error_to_string :: "oidc_error \<Rightarrow> string" where
  "oidc_error_to_string (OidcInvalidUrl e) = ''Invalid Dex URL: '' @ e"
| "oidc_error_to_string (OidcDiscovery e) = ''OIDC discovery failed: '' @ e"
| "oidc_error_to_string (OidcHttp e) = ''HTTP client setup failed: '' @ e"

text \<open>
  The crate \<open>openidconnect\<close>: checked URLs, an HTTP client with its policy on redirects, discovery of the
  issuer's metadata, and the client of an application.
\<close>

datatype redirect_policy = FollowRedirects | NoRedirects

record ('u, 'h, 'm, 'w) openidconnect =
  oi_issuer_url :: "string \<Rightarrow> string + 'u"
  oi_redirect_url :: "string \<Rightarrow> string + 'u"
  oi_http_client :: "redirect_policy \<Rightarrow> string + 'h"
  oi_discover :: "'u \<Rightarrow> 'h \<Rightarrow> ('w, string + 'm) state"
  oi_client :: "'m \<Rightarrow> string \<Rightarrow> string \<Rightarrow> 'u \<Rightarrow> 'h \<Rightarrow> 'w oidc_client"

definition http_client_new :: "('u, 'h, 'm, 'w) openidconnect \<Rightarrow> string + 'h" where
  "http_client_new lib = oi_http_client lib NoRedirects"

definition build_auth_state :: "('u, 'h, 'm, 'w) openidconnect \<Rightarrow> app_config \<Rightarrow> ('w, oidc_error + 'w oidc_client) state" where
  "build_auth_state lib cfg =
    bind_ok (State_Monad.return (map_sum (\<lambda>e. OidcInvalidUrl (''dex.issuer: '' @ e)) id (oi_issuer_url lib (dex_issuer cfg)))) (\<lambda>issuer.
    bind_ok (State_Monad.return (map_sum (\<lambda>e. OidcInvalidUrl (''dex.redirect_uri: '' @ e)) id (oi_redirect_url lib (dex_redirect_uri cfg)))) (\<lambda>redirect.
    bind_ok (State_Monad.return (map_sum OidcHttp id (http_client_new lib))) (\<lambda>http.
    bind_ok (map_err OidcDiscovery (oi_discover lib issuer http)) (\<lambda>metadata.
    State_Monad.return (Inr ((oi_client lib metadata (dex_client_id cfg) (dex_secret cfg) redirect http)
      \<lparr>oc_post_login_redirect := dex_post_login_redirect cfg\<rparr>))))))"

fun auth_error_to_string :: "auth_error \<Rightarrow> string" where
  "auth_error_to_string (OidcSetup e) = ''OIDC setup failed: '' @ oidc_error_to_string e"
| "auth_error_to_string (SessionSetup e) = ''Session store setup failed: '' @ session_store_error_to_string e"

section \<open>Start-up of the server\<close>

text \<open>
  Everything outside of the sources that a server runs on: the libraries above, the environment
  and files the tenancy document is read from, the clock and identifiers of the coordinators, GitHub, and the
  web framework, which is given the state of the routes, of the login and the session layer.
\<close>

record ('c, 'v, 'f, 'p, 'u, 'h, 'm, 'w) platform =
  pl_redis :: "('c, 'w, 'v) deadpool_redis"
  pl_amqp_pool :: "string \<Rightarrow> u64 \<Rightarrow> string + 'w amqp"
  pl_amqp_fuel :: nat
  pl_s3 :: "s3_settings \<Rightarrow> string \<Rightarrow> 'w s3_client"
  pl_read_order :: "(string \<times> reconcile_result) list \<Rightarrow> (string \<times> reconcile_result) list"
  pl_kube :: "('w, string + 'w kube_client \<times> string) state"
  pl_hash :: hash_ops
  pl_pg_connect :: "pg_options \<Rightarrow> ('w, string + 'w run_history_ops) state"
  pl_migrate :: "('w, string + unit) state"
  pl_env_var :: "string \<Rightarrow> string option"
  pl_files :: "string \<Rightarrow> file_read"
  pl_tenancy_yaml :: "string \<Rightarrow> string + tenancy_document"
  pl_runtime :: "'w coordinator_env"
  pl_github :: "'w github_client"
  pl_codec :: webhook_codec
  pl_yaml :: "string \<Rightarrow> string + pipeline"
  pl_uuid_to_string :: "uuid \<Rightarrow> string"
  pl_spawn_reaper :: "'w coordinator_env \<Rightarrow> 'w reaper_env \<Rightarrow> ('w, unit) state"
  pl_fred :: "('f, 'p, 'w) fred"
  pl_oidc :: "('u, 'h, 'm, 'w) openidconnect"
  pl_bind :: "string \<Rightarrow> ('w, string + unit) state"
  pl_axum_serve :: "'w server_state \<Rightarrow> 'w auth_router_state \<Rightarrow> 'p session_layer \<Rightarrow> ('w, string + unit) state"

text \<open>The state of the routes, from the clients and the tenancy registry.\<close>

definition server_state_of ::
  "('c, 'v, 'f, 'p, 'u, 'h, 'm, 'w) platform \<Rightarrow> app_config \<Rightarrow> ('w, 'v) redis_server \<Rightarrow> 'w amqp \<Rightarrow> 'w kube_dispatcher \<Rightarrow>
    'w run_history_ops \<Rightarrow> tenancy_registry \<Rightarrow> 'w server_state" where
  "server_state_of pl cfg redis am kd history tenancy =
    (let env = (pl_runtime pl)\<lparr>sv_config := cfg, sv_dispatcher := kube_dispatcher_ops (pl_read_order pl) kd,
           sv_state_store := redis_state_store redis, sv_backplane := rabbitmq_backplane_ops am (pl_amqp_fuel pl),
           sv_run_history := history, sv_report_completed := None\<rparr>
     in \<lparr> sr_provider = provider_state_new env tenancy (pl_github pl) (pl_codec pl) (pl_yaml pl) (pl_uuid_to_string pl),
          sr_source_manager = kd_source_manager kd \<rparr>)"

definition reaper_env_of :: "('c, 'v, 'f, 'p, 'u, 'h, 'm, 'w) platform \<Rightarrow> 'w server_state \<Rightarrow> 'w reaper_env" where
  "reaper_env_of pl st =
    \<lparr> rp_reporter_factory = Some (for_run (sr_provider st)), rp_yaml = pl_yaml pl, rp_uuid_to_string = pl_uuid_to_string pl \<rparr>"

definition addr_of :: "app_config \<Rightarrow> string" where
  "addr_of cfg = host cfg @ '':'' @ show_nat (unat (port cfg))"

text \<open>\<open>serve\<close> once the connections have been checked.\<close>

definition serve_checked ::
  "('c, 'v, 'f, 'p, 'u, 'h, 'm, 'w) platform \<Rightarrow> app_config \<Rightarrow> 'w server_state \<Rightarrow> tenant_registry \<Rightarrow>
    ('w, server_error + unit) state" where
  "serve_checked pl cfg st tenants = do {
    pl_spawn_reaper pl (pv_services (sr_provider st)) (reaper_env_of pl st);
    bind_ok (map_err (\<lambda>e. ServerAuth (OidcSetup e)) (build_auth_state (pl_oidc pl) cfg)) (\<lambda>auth.
    bind_ok (map_err (\<lambda>e. ServerAuth (SessionSetup e))
      (build_session_layer (pl_fred pl) (redis_url cfg) (redis_password cfg))) (\<lambda>session_layer.
    bind_ok (map_err ServerIo (pl_bind pl (addr_of cfg))) (\<lambda>_.
    bind_ok (map_err ServerIo (pl_axum_serve pl st \<lparr> ar_auth = auth, ar_tenants = tenants \<rparr> session_layer)) (\<lambda>_.
    State_Monad.return (Inr ())))))
  }"

definition serve :: "('c, 'v, 'f, 'p, 'u, 'h, 'm, 'w) platform \<Rightarrow> app_config \<Rightarrow> ('w, server_error + unit) state" where
  "serve pl cfg =
    bind_ok (State_Monad.return (map_sum ServerStateStore id
      (redis_state_store_new (pl_redis pl) (redis_url cfg) (redis_password cfg) 16))) (\<lambda>redis.
    bind_ok (State_Monad.return (map_sum ServerBackplane id (rabbitmq_backplane_new (pl_amqp_pool pl) cfg))) (\<lambda>am.
    bind_ok (map_err (\<lambda>e. ConnectionFailed (''Kubernetes: '' @ dispatch_error_to_string e))
      (kube_dispatcher_connect (pl_kube pl) (pl_hash pl) cfg (source_manager_new (pl_s3 pl) cfg))) (\<lambda>kd.
    bind_ok (map_err (\<lambda>e. ConnectionFailed (''PostgreSQL: '' @ run_history_error_to_string e))
      (postgres_connect (pl_pg_connect pl) cfg)) (\<lambda>history.
    bind_ok (map_err (\<lambda>e. ConnectionFailed (''PostgreSQL migration: '' @ run_history_error_to_string e))
      (postgres_migrate (pl_migrate pl))) (\<lambda>_.
    bind_ok (State_Monad.return (map_sum ServerTenancy id
      (load_from_env (pl_env_var pl) (pl_files pl) (pl_tenancy_yaml pl)))) (\<lambda>tenancy.
    let st = server_state_of pl cfg redis am kd history tenancy in
    bind_ok (verify_connections st) (\<lambda>_. serve_checked pl cfg st (ty_tenants tenancy))))))))"

section \<open>The process\<close>

text \<open>
  \<open>install\<close> sets the cryptography provider and \<open>set_subscriber\<close> the global log subscriber, both at most once per
  process; a second subscriber is a panic.
\<close>

datatype main_result = Finished | CryptoFailed | ConfigFailed app_config_error | TracingPanic | ServerFailed server_error

definition setup_tracing :: "('level \<Rightarrow> ('w, bool) state) \<Rightarrow> 'level \<Rightarrow> ('w, bool) state" where
  "setup_tracing set_subscriber level = set_subscriber level"

definition main ::
  "('w, bool) state \<Rightarrow> 'x config_crate \<Rightarrow> string \<Rightarrow> (string \<Rightarrow> 'level option) \<Rightarrow> 'level \<Rightarrow> ('level \<Rightarrow> ('w, bool) state) \<Rightarrow>
    ('c, 'v, 'f, 'p, 'u, 'h, 'm, 'w) platform \<Rightarrow> ('w, main_result) state" where
  "main install crate manifest_dir parse_level info set_subscriber pl = do {
    installed \<leftarrow> install;
    if \<not> installed then State_Monad.return CryptoFailed
    else (case load_config crate (pl_env_var pl ''ENV'') manifest_dir of
        Inl e \<Rightarrow> State_Monad.return (ConfigFailed e)
      | Inr cfg \<Rightarrow> do {
          traced \<leftarrow> setup_tracing set_subscriber (log_level parse_level info cfg);
          if \<not> traced then State_Monad.return TracingPanic
          else do {
            r \<leftarrow> serve pl cfg;
            State_Monad.return (case r of Inl e \<Rightarrow> ServerFailed e | Inr _ \<Rightarrow> Finished)
          }
        })
  }"

section \<open>What a running server has gone through\<close>

lemma bind_ok_run:
  "State_Monad.run_state (bind_ok m f) w = (Inr b, w') \<longleftrightarrow>
    (\<exists>a w1. State_Monad.run_state m w = (Inr a, w1) \<and> State_Monad.run_state (f a) w1 = (Inr b, w'))"
  by (auto simp: bind_ok_def split: prod.splits sum.splits)

lemma map_err_run: "State_Monad.run_state (map_err g m) w = (Inr a, w') \<longleftrightarrow> State_Monad.run_state m w = (Inr a, w')"
proof -
  have "map_sum g id r = Inr a \<longleftrightarrow> r = Inr a" for r by (cases r) auto
  then show ?thesis by (cases "State_Monad.run_state m w") (simp add: map_err_def)
qed

lemma session_layer_cookie:
  "State_Monad.run_state (build_session_layer lib url password) w = (Inr sl, w') \<Longrightarrow>
    sl_secure sl \<and> sl_http_only sl \<and> sl_same_site sl = SameSiteLax \<and> sl_inactivity_days sl = 7"
  by (auto simp: build_session_layer_def SESSION_INACTIVITY_DAYS_def split: sum.splits prod.splits)

text \<open>
  A server that has served requests did so on a state all of whose services had answered, with a reaper running on the
  same services, the tenants of the login being those of the webhooks, and sessions in cookies that
  scripts and unencrypted connections do not see.
\<close>

theorem served_after_checks:
  assumes "State_Monad.run_state (serve pl cfg) w = (Inr u, w')"
  shows "\<exists>st au sl w1 w2 w3 w4 w5.
    State_Monad.run_state (verify_connections st) w1 = (Inr (), w2) \<and>
    State_Monad.run_state (pl_spawn_reaper pl (pv_services (sr_provider st)) (reaper_env_of pl st)) w2 = ((), w3) \<and>
    State_Monad.run_state (pl_bind pl (addr_of cfg)) w4 = (Inr (), w5) \<and>
    State_Monad.run_state (pl_axum_serve pl st au sl) w5 = (Inr (), w') \<and>
    sv_config (pv_services (sr_provider st)) = cfg \<and> ar_tenants au = pv_tenants (sr_provider st) \<and>
    sl_secure sl \<and> sl_http_only sl \<and> sl_same_site sl = SameSiteLax"
proof -
  obtain redis am kd history tenancy u' w1 w2 where
    checked: "State_Monad.run_state (verify_connections (server_state_of pl cfg redis am kd history tenancy)) w1 = (Inr u', w2)"
    and rest: "State_Monad.run_state (serve_checked pl cfg (server_state_of pl cfg redis am kd history tenancy) (ty_tenants tenancy)) w2 =
      (Inr u, w')"
    using assms unfolding serve_def Let_def bind_ok_run by blast
  let ?st = "server_state_of pl cfg redis am kd history tenancy"
  obtain w3 where reaper: "State_Monad.run_state (pl_spawn_reaper pl (pv_services (sr_provider ?st)) (reaper_env_of pl ?st)) w2 = ((), w3)"
    by (cases "State_Monad.run_state (pl_spawn_reaper pl (pv_services (sr_provider ?st)) (reaper_env_of pl ?st)) w2") auto
  from rest reaper obtain auth sl w3' w4 u1 w5 u2 where
    "State_Monad.run_state (build_session_layer (pl_fred pl) (redis_url cfg) (redis_password cfg)) w3' = (Inr sl, w4)"
    "State_Monad.run_state (pl_bind pl (addr_of cfg)) w4 = (Inr u1, w5)"
    "State_Monad.run_state (pl_axum_serve pl ?st \<lparr> ar_auth = auth, ar_tenants = ty_tenants tenancy \<rparr> sl) w5 = (Inr u2, w')"
    unfolding serve_checked_def by (auto simp: bind_ok_run map_err_run simp del: run_bind_ok)
  moreover have "sv_config (pv_services (sr_provider ?st)) = cfg" "pv_tenants (sr_provider ?st) = ty_tenants tenancy"
    by (simp_all add: server_state_of_def provider_state_new_def Let_def)
  ultimately show ?thesis using checked reaper session_layer_cookie
    by (metis (full_types) auth_router_state.select_convs(2) old.unit.exhaust)
qed

end
