(* ===== verification/Spec2Isabelle.thy ===== *)
theory Spec2Isabelle
  imports Sweeps ClosedRuns KubeLaws GithubLaws Startup
begin

text \<open>
  A verification library for jefferies, a CI coordinator written in Rust.

  \<^bold>\<open>The program.\<close> A pipeline is a YAML document of nodes that depend on one another. A signed GitHub
  webhook of a tenant's organisation, or a retry over the HTTP interface, starts runs. For every
  run one server acquires a lease and runs a coordinator: it dispatches the nodes whose
  dependencies have succeeded as Kubernetes jobs, hears of their completion over the backplane,
  from the pod watcher or by reading outcomes from S3, saves every change of state with a version
  check, and records the run in PostgreSQL. When a server stops, the reaper of another one takes
  the run over once the lease has expired. Users log in with OpenID Connect; a session lists the
  tenants whose runs its user may see.

  \<^bold>\<open>Theories.\<close>
  \<^item> \<open>Prelude\<close>: strings, hash maps, results, machine integers, and the calculus of programs in the
    state monad: relations between initial and final state, and total-correctness triples.
  \<^item> \<open>Strings\<close>: UTF-8 characters, white space, decimal numbers.
  \<^item> \<open>Pipelines\<close> (\<open>src/pipelines/src/pipeline.rs\<close>): the definition, its validation, triggers.
  \<^item> \<open>StateStore\<close> (\<open>src/state_store/src/lib.rs\<close>): the in-memory and the Redis store, an abstract store
    with compare-and-swap and leases that both implement (locale \<open>state_store\<close>).
  \<^item> \<open>PipelineRun\<close> (\<open>src/coordinator/src/run.rs\<close>): statuses and dependencies of a run.
  \<^item> \<open>RunHistory\<close> (\<open>src/run_history/src/lib.rs\<close>): the queries on the history tables.
  \<^item> \<open>SourceManager\<close> (\<open>src/coordinator/src/source_manager.rs\<close>): uploads, outcomes and clean-up in S3.
  \<^item> \<open>PodWatcher\<close> (\<open>src/coordinator/src/pod_watcher.rs\<close>): classification of pods, the watcher's state.
  \<^item> \<open>Backplane\<close> (\<open>src/backplane/src/lib.rs\<close>): the event bus, in memory and on RabbitMQ.
  \<^item> \<open>AppConfig\<close> (\<open>src/app_config/src/lib.rs\<close>): the configuration, its sources, decoding and getters.
  \<^item> \<open>Dispatcher\<close> (\<open>src/coordinator/src/dispatcher.rs\<close>): the dispatcher interface, the log dispatcher.
  \<^item> \<open>KubeDispatcher\<close> (\<open>src/coordinator/src/kube_dispatcher.rs\<close>): names, annotations, jobs and the
    operations on the cluster; \<open>KubeLaws\<close>: what holds of them on a cluster that keeps its objects
    by name (locale \<open>kube_services\<close>, interpreted on a cluster in memory).
  \<^item> \<open>Coordinator\<close> (\<open>src/coordinator/src/coordinator.rs\<close>, \<open>message.rs\<close>): the coordinator itself.
  \<^item> \<open>CoordinatorLaws\<close>: what holds of it for every implementation of its services.
  \<^item> \<open>Recovery\<close>: crash safety, from the laws of the services.
  \<^item> \<open>Reaper\<close> (\<open>src/coordinator/src/reaper.rs\<close>): the sweeps and the loop over their ticks.
  \<^item> \<open>Simulation\<close>: a closed system in memory, the interpretations of the locales, whole runs;
    \<open>Sweeps\<close>: the reaper on it. \<open>Liveness\<close>: a coordinator never waits with nothing running.
    \<open>GreenRuns\<close>: runs in which nothing goes wrong succeed (locale \<open>green_services\<close>). \<open>ClosedRuns\<close>: the
    coordinator on its own subscription, with a dispatcher whose completions come back to it over the
    backplane (locale \<open>echo_services\<close>), terminates.
  \<^item> \<open>Tenancy\<close> (\<open>src/tenancy/src/lib.rs\<close>): the tenancy document, its validation and the registries.
  \<^item> \<open>Github\<close> (\<open>src/providers/src/github.rs\<close>, \<open>lib.rs\<close>): webhooks, the start of runs, check runs and
    retries; \<open>GithubLaws\<close>: which runs they start.
  \<^item> \<open>Auth\<close> (\<open>src/auth/src/handlers.rs\<close>, \<open>session.rs\<close>, \<open>extractor.rs\<close>): login, sessions, the extractor
    of the tenant's routes, and what a browser can reach (locale \<open>session_services\<close>).
  \<^item> \<open>Server\<close> (\<open>src/server/src/lib.rs\<close>): the checks of the connections, the handlers, the routes of a tenant.
  \<^item> \<open>Startup\<close> (\<open>serve\<close> of the same file, \<open>src/src/main.rs\<close>, \<open>src/auth/src/oidc.rs\<close>, \<open>http_client.rs\<close>,
    \<open>redis_session.rs\<close> and the constructors of the components): from the configuration to the running server.

  \<^bold>\<open>Conventions.\<close> A program is a state transformer on a world \<open>'w\<close> that all services share; a service
  outside of the sources is a record of such transformers, and what is assumed of it is a locale.
  A task that the code spawns is part of the result of the function that spawns it; the one that publishes a
  completion for the log dispatcher runs when it is spawned. The order of
  events, ticks and requests is an argument or the choice of a step relation. Log output is left
  out. Strings are lists of bytes in UTF-8.

  \<^bold>\<open>Bounds and fuel.\<close> \<open>rabbit_next_event\<close> looks at no more deliveries in one poll than its fuel, and is
  pending afterwards, as it is when nothing has arrived; more fuel than deliveries is shown to be enough. All other loops recurse on their data or
  have a termination proof. The turns of the loop of a coordinator are a list; \<open>ClosedRuns\<close> shows that a run of
  the closed system needs as many polls as it has nodes, up to the 128 events its subscription can hold. Versions, timeouts and times in milliseconds are words of the width of
  the code; \<open>i64\<close> columns and times of the history are integers.

  \<^bold>\<open>Not modelled.\<close> Third-party code (clients of Redis, RabbitMQ, S3, PostgreSQL, Kubernetes, GitHub and
  OpenID, YAML, JSON and TOML, cryptography, the HTTP framework with its CORS and tracing layers) is a
  parameter. Log output is left out but for the address of RabbitMQ, whose credentials the code removes. The
  signal handler and tests are not modelled.
\<close>

end
